theory Spec2Isabelle
  imports Main "HOL-Library.Sublist"
begin

section \<open>JavaScript values\<close>

text \<open>
  A JavaScript string is a sequence of UTF-16 code units. A code unit is modelled as a
  natural number and a string as a list of them, so that the characters the source tests
  for beyond ASCII (the no-break space and the other Unicode white space of \<open>\s\<close> and
  \<open>trim\<close>, the line separators that \<open>.\<close> does not match, the middle dot of a commit
  title) are single elements, as they are in the program. \<open>str\<close> writes an ASCII
  literal.
\<close>

type_synonym jschar = nat
type_synonym jsstring = "jschar list"

definition str :: "string \<Rightarrow> jsstring" where
  "str s = map of_char s"

text \<open>Thrown values. \<open>Error m\<close> is \<open>new Error(m)\<close>; the others are raised by the platform.\<close>

datatype error = Error jsstring | TypeError | URIError | RangeError

section \<open>The document tree\<close>

text \<open>
  An element carries its identity (the object identity that \<open>===\<close> compares), its
  \<open>tagName\<close>, its attributes and its child nodes; a text node carries its data.
\<close>

datatype node =
    Element nat jsstring "(jsstring \<times> jsstring) list" "node list"
  | TextNode jsstring

fun isElement :: "node \<Rightarrow> bool" where
  "isElement (Element i tg as ch) = True"
| "isElement (TextNode t) = False"

fun hasId :: "nat \<Rightarrow> node \<Rightarrow> bool" where
  "hasId d (Element i tg as ch) = (i = d)"
| "hasId d (TextNode t) = False"

text \<open>\<open>a === b\<close> on two elements.\<close>

fun sameElement :: "node \<Rightarrow> node \<Rightarrow> bool" where
  "sameElement (Element i tg as ch) b = hasId i b"
| "sameElement (TextNode t) b = False"

fun tagName :: "node \<Rightarrow> jsstring" where
  "tagName (Element i tg as ch) = tg"
| "tagName (TextNode t) = []"

fun childNodes :: "node \<Rightarrow> node list" where
  "childNodes (Element i tg as ch) = ch"
| "childNodes (TextNode t) = []"

text \<open>\<open>getAttribute\<close>: the value of the first attribute of that name, or \<open>null\<close>.\<close>

fun getAttribute :: "node \<Rightarrow> jsstring \<Rightarrow> jsstring option" where
  "getAttribute (Element i tg as ch) name = map_of as name"
| "getAttribute (TextNode t) name = None"

text \<open>\<open>textContent\<close>: the data of all text descendants, in tree order.\<close>

fun textContent :: "node \<Rightarrow> jsstring"
  and textContentList :: "node list \<Rightarrow> jsstring" where
  "textContent (TextNode t) = t"
| "textContent (Element i tg as ch) = textContentList ch"
| "textContentList [] = []"
| "textContentList (c # cs) = textContent c @ textContentList cs"

text \<open>The elements of a subtree in depth-first pre-order (document order).\<close>

fun preorder :: "node \<Rightarrow> node list"
  and preorderList :: "node list \<Rightarrow> node list" where
  "preorder (TextNode t) = []"
| "preorder (Element i tg as ch) = Element i tg as ch # preorderList ch"
| "preorderList [] = []"
| "preorderList (c # cs) = preorder c @ preorderList cs"

fun elementIds :: "node list \<Rightarrow> nat list" where
  "elementIds [] = []"
| "elementIds (Element i tg as ch # ns) = i # elementIds ns"
| "elementIds (TextNode t # ns) = elementIds ns"

section \<open>The page\<close>

text \<open>
  What the program reads of the browser. The first seven fields are those of
  \<open>window.location\<close>; \<open>new URL(window.location.href)\<close> has the same \<open>origin\<close> and
  \<open>pathname\<close>. \<open>docTitle\<close> is \<open>document.title\<close> and \<open>documentElement\<close> the tree.
  The rest is the platform, as functions keyed by the arguments the source passes:
  \<^item> \<open>querySelectorAll\<close> on the document and on an element, and \<open>closest\<close>, the
    selector engine (\<open>querySelector\<close> is the first element of \<open>querySelectorAll\<close>);
  \<^item> \<open>inputValue\<close>, the \<open>value\<close> property (\<open>None\<close> is \<open>undefined\<close>);
    \<open>innerHTML\<close> and \<open>innerText\<close>, serialisation and rendering;
  \<^item> \<open>decodeEntities c\<close>, the \<open>value\<close> of a fresh \<open>textarea\<close> whose \<open>innerHTML\<close>
    was set to \<open>c\<close>;
  \<^item> \<open>searchParamsGet q k\<close>, \<open>new URLSearchParams(q).get(k)\<close>; \<open>searchParamsSet u k v\<close>,
    the string of the URL \<open>u\<close> after \<open>searchParams.set(k, v)\<close>; \<open>decodeURIComponent\<close>,
    which throws \<open>URIError\<close> on a malformed escape;
  \<^item> \<open>formatDate ts\<close>, the \<open>en-US\<close> \<open>Intl.DateTimeFormat\<close> in \<open>America/New_York\<close> of
    the date \<open>parseFloat(ts) * 1000\<close>, which throws \<open>RangeError\<close> on an invalid date.
  The diagnostic log buffer is only written to and is left out.
\<close>

record page =
  href :: jsstring
  protocol :: jsstring
  host :: jsstring
  hostname :: jsstring
  pathname :: jsstring
  search :: jsstring
  origin :: jsstring
  docTitle :: jsstring
  documentElement :: node
  querySelectorAll :: "jsstring \<Rightarrow> node list"
  elemQuerySelectorAll :: "node \<Rightarrow> jsstring \<Rightarrow> node list"
  closest :: "node \<Rightarrow> jsstring \<Rightarrow> node option"
  inputValue :: "node \<Rightarrow> jsstring option"
  innerHTML :: "node \<Rightarrow> jsstring"
  innerText :: "node \<Rightarrow> jsstring"
  decodeEntities :: "jsstring \<Rightarrow> jsstring"
  searchParamsGet :: "jsstring \<Rightarrow> jsstring \<Rightarrow> jsstring option"
  searchParamsSet :: "jsstring \<Rightarrow> jsstring \<Rightarrow> jsstring \<Rightarrow> jsstring"
  decodeURIComponent :: "jsstring \<Rightarrow> error + jsstring"
  formatDate :: "jsstring \<Rightarrow> error + jsstring"

text \<open>
  \<open>document.body\<close>: the first child of the \<open>html\<close> element that is a \<open>body\<close> or a
  \<open>frameset\<close> element, \<open>null\<close> when there is none.
\<close>

definition isBody :: "node \<Rightarrow> bool" where
  "isBody n = (isElement n \<and> (tagName n = str ''BODY'' \<or> tagName n = str ''FRAMESET''))"

definition body :: "page \<Rightarrow> node option" where
  "body p =
     (if tagName (documentElement p) = str ''HTML''
      then find isBody (childNodes (documentElement p)) else None)"

section \<open>Searching the tree\<close>

text \<open>
  A condition is a function of the element; it may throw. The conditions of this
  program only read the element.
\<close>

type_synonym condition = "node \<Rightarrow> error + bool"

text \<open>
  \<open>dfsTraversal\<close> of \<open>findNextElementDFS\<close>. The closure variable \<open>foundStart\<close> is
  passed in and returned. \<open>dfsChildren\<close> is the loop over \<open>element.children\<close>, which
  holds the element children only: it steps over text nodes.
\<close>

fun dfsTraversal :: "node \<Rightarrow> condition \<Rightarrow> bool \<Rightarrow> node \<Rightarrow> bool \<times> (error + node option)"
  and dfsChildren :: "node \<Rightarrow> condition \<Rightarrow> bool \<Rightarrow> node list \<Rightarrow> bool \<times> (error + node option)"
  where
  "dfsTraversal startElement condition foundStart (TextNode t) = (foundStart, Inr None)"
| "dfsTraversal startElement condition foundStart (Element i tg as ch) =
     (if \<not> foundStart then
        dfsChildren startElement condition
          (if sameElement (Element i tg as ch) startElement then True else foundStart) ch
      else
        (case condition (Element i tg as ch) of
           Inl e \<Rightarrow> (foundStart, Inl e)
         | Inr True \<Rightarrow> (foundStart, Inr (Some (Element i tg as ch)))
         | Inr False \<Rightarrow> dfsChildren startElement condition foundStart ch))"
| "dfsChildren startElement condition foundStart [] = (foundStart, Inr None)"
| "dfsChildren startElement condition foundStart (TextNode t # cs) =
     dfsChildren startElement condition foundStart cs"
| "dfsChildren startElement condition foundStart (Element i tg as ch # cs) =
     (case dfsTraversal startElement condition foundStart (Element i tg as ch) of
        (foundStart', Inr None) \<Rightarrow> dfsChildren startElement condition foundStart' cs
      | (foundStart', r) \<Rightarrow> (foundStart', r))"

text \<open>
  \<open>findNextElementDFS\<close>: a traversal from \<open>document.body\<close>, then, when that gave
  nothing, one from \<open>document.documentElement\<close> with the flag reset. Reading
  \<open>children\<close> of a \<open>null\<close> body is a \<open>TypeError\<close>.
\<close>

definition findNextElementDFS :: "page \<Rightarrow> node \<Rightarrow> condition \<Rightarrow> error + node option" where
  "findNextElementDFS p startElement condition =
     (case body p of
        None \<Rightarrow> Inl TypeError
      | Some b \<Rightarrow>
          (case snd (dfsTraversal startElement condition False b) of
             Inl e \<Rightarrow> Inl e
           | Inr (Some r) \<Rightarrow> Inr (Some r)
           | Inr None \<Rightarrow> snd (dfsTraversal startElement condition False (documentElement p))))"

text \<open>
  \<open>document.createElement\<close> makes a new object: its identity is that of no element
  of the document.
\<close>

fun maxId :: "node \<Rightarrow> nat"
  and maxIdList :: "node list \<Rightarrow> nat" where
  "maxId (TextNode t) = 0"
| "maxId (Element i tg as ch) = max i (maxIdList ch)"
| "maxIdList [] = 0"
| "maxIdList (c # cs) = max (maxId c) (maxIdList cs)"

definition createElement :: "page \<Rightarrow> jsstring \<Rightarrow> node" where
  "createElement p tg = Element (Suc (maxId (documentElement p))) tg [] []"

text \<open>The child list of the element of a given identity, changed in place in the tree.\<close>

fun updateChildren :: "nat \<Rightarrow> (node list \<Rightarrow> node list) \<Rightarrow> node \<Rightarrow> node"
  and updateChildrenList :: "nat \<Rightarrow> (node list \<Rightarrow> node list) \<Rightarrow> node list \<Rightarrow> node list"
  where
  "updateChildren b f (TextNode t) = TextNode t"
| "updateChildren b f (Element i tg as ch) =
     (if i = b then Element i tg as (f ch) else Element i tg as (updateChildrenList b f ch))"
| "updateChildrenList b f [] = []"
| "updateChildrenList b f (c # cs) = updateChildren b f c # updateChildrenList b f cs"

text \<open>
  \<open>parent.insertBefore(new, parent.firstChild)\<close> and \<open>parent.appendChild(new)\<close>, on
  the tree that holds \<open>parent\<close>.
\<close>

fun insertBeforeFirstChild :: "node \<Rightarrow> node \<Rightarrow> node \<Rightarrow> node" where
  "insertBeforeFirstChild (Element b tg as ch) new tree = updateChildren b (\<lambda>cs. new # cs) tree"
| "insertBeforeFirstChild (TextNode t) new tree = tree"

fun appendChild :: "node \<Rightarrow> node \<Rightarrow> node \<Rightarrow> node" where
  "appendChild (Element b tg as ch) new tree = updateChildren b (\<lambda>cs. cs @ [new]) tree"
| "appendChild (TextNode t) new tree = tree"

text \<open>
  \<open>if (n.parentNode) n.parentNode.removeChild(n)\<close>: the node leaves the child list
  that holds it; a tree that does not hold it is unchanged.
\<close>

fun removeFromParent :: "node \<Rightarrow> node \<Rightarrow> node"
  and removeFromList :: "node \<Rightarrow> node list \<Rightarrow> node list" where
  "removeFromParent n (TextNode t) = TextNode t"
| "removeFromParent n (Element i tg as ch) = Element i tg as (removeFromList n ch)"
| "removeFromList n [] = []"
| "removeFromList n (c # cs) =
     (if sameElement c n then cs else removeFromParent n c # removeFromList n cs)"

text \<open>
  \<open>findFirstInWholeDFS\<close>. The document is changed and changed back, so the function
  returns the page it leaves with its result. With no \<open>body\<close>, reading
  \<open>document.body.firstChild\<close> throws before anything is inserted.
\<close>

definition findFirstInWholeDFS :: "page \<Rightarrow> condition \<Rightarrow> (error + node option) \<times> page" where
  "findFirstInWholeDFS p condition =
     (let dummyStart = createElement p (str ''DIV'') in
      case body p of
        None \<Rightarrow> (Inl TypeError, p)
      | Some b \<Rightarrow>
          (let p1 = p\<lparr>documentElement :=
                      (if childNodes b \<noteq> []
                       then insertBeforeFirstChild b dummyStart (documentElement p)
                       else appendChild b dummyStart (documentElement p))\<rparr>;
               result = findNextElementDFS p1 dummyStart condition;
               p2 = p1\<lparr>documentElement := removeFromParent dummyStart (documentElement p1)\<rparr>
           in (result, p2)))"

section \<open>Strings and regular expressions\<close>

text \<open>
  \<open>\s\<close> of a regular expression and the characters \<open>trim\<close> removes: the white space
  and line terminator code units of ECMAScript.
\<close>

definition isSpace :: "jschar \<Rightarrow> bool" where
  "isSpace c = (c = 9 \<or> c = 10 \<or> c = 11 \<or> c = 12 \<or> c = 13 \<or> c = 32 \<or> c = 160 \<or>
     c = 5760 \<or> (8192 \<le> c \<and> c \<le> 8202) \<or> c = 8232 \<or> c = 8233 \<or> c = 8239 \<or>
     c = 8287 \<or> c = 12288 \<or> c = 65279)"

text \<open>The line terminators, which \<open>.\<close> does not match.\<close>

definition isLineTerminator :: "jschar \<Rightarrow> bool" where
  "isLineTerminator c = (c = 10 \<or> c = 13 \<or> c = 8232 \<or> c = 8233)"

definition dotAll :: "jsstring \<Rightarrow> bool" where
  "dotAll s = list_all (\<lambda>c. \<not> isLineTerminator c) s"

definition isDigit :: "jschar \<Rightarrow> bool" where
  "isDigit c = (48 \<le> c \<and> c \<le> 57)"

definition trimStart :: "jsstring \<Rightarrow> jsstring" where
  "trimStart s = dropWhile isSpace s"

definition trimEnd :: "jsstring \<Rightarrow> jsstring" where
  "trimEnd s = rev (dropWhile isSpace (rev s))"

definition trim :: "jsstring \<Rightarrow> jsstring" where
  "trim s = trimEnd (trimStart s)"

definition startsWith :: "jsstring \<Rightarrow> jsstring \<Rightarrow> bool" where
  "startsWith s x = prefix x s"

definition endsWith :: "jsstring \<Rightarrow> jsstring \<Rightarrow> bool" where
  "endsWith s x = prefix (rev x) (rev s)"

fun jsIncludes :: "jsstring \<Rightarrow> jsstring \<Rightarrow> bool" where
  "jsIncludes [] x = (x = [])"
| "jsIncludes (c # cs) x = (prefix x (c # cs) \<or> jsIncludes cs x)"

text \<open>\<open>indexOf\<close> and \<open>lastIndexOf\<close>; \<open>None\<close> is \<open>-1\<close>.\<close>

fun indexOf :: "jsstring \<Rightarrow> jsstring \<Rightarrow> nat option" where
  "indexOf [] x = (if x = [] then Some 0 else None)"
| "indexOf (c # cs) x =
     (if prefix x (c # cs) then Some 0 else map_option Suc (indexOf cs x))"

fun lastIndexOf :: "jsstring \<Rightarrow> jsstring \<Rightarrow> nat option" where
  "lastIndexOf [] x = (if x = [] then Some 0 else None)"
| "lastIndexOf (c # cs) x =
     (case lastIndexOf cs x of
        Some i \<Rightarrow> Some (Suc i)
      | None \<Rightarrow> if prefix x (c # cs) then Some 0 else None)"

text \<open>\<open>s.split(c)\<close> on a one-character separator.\<close>

fun split :: "jschar \<Rightarrow> jsstring \<Rightarrow> jsstring list" where
  "split sep [] = [[]]"
| "split sep (c # cs) =
     (if c = sep then [] # split sep cs
      else (case split sep cs of [] \<Rightarrow> [[c]] | x # xs \<Rightarrow> (c # x) # xs))"

text \<open>\<open>s.replace(x, y)\<close> with a string pattern: the first occurrence.\<close>

fun replaceFirst :: "jsstring \<Rightarrow> jsstring \<Rightarrow> jsstring \<Rightarrow> jsstring" where
  "replaceFirst [] x y = (if x = [] then y else [])"
| "replaceFirst (c # cs) x y =
     (if prefix x (c # cs) then y @ drop (length x) (c # cs) else c # replaceFirst cs x y)"

text \<open>
  A template literal renders \<open>undefined\<close> by its name.
\<close>

definition render :: "jsstring option \<Rightarrow> jsstring" where
  "render v = (case v of None \<Rightarrow> str ''undefined'' | Some s \<Rightarrow> s)"

text \<open>
  \<open>s.replace(/\s+/g, " ")\<close>: every maximal run of white space becomes one space.
\<close>

function collapseSpaces :: "jsstring \<Rightarrow> jsstring" where
  "collapseSpaces [] = []"
| "collapseSpaces (c # cs) =
     (if isSpace c then 32 # collapseSpaces (dropWhile isSpace cs) else c # collapseSpaces cs)"
  by pat_completeness auto
termination
  by (relation "measure length") (auto simp: length_dropWhile_le less_Suc_eq_le)

text \<open>
  All the ways of writing \<open>s\<close> as \<open>a @ sep @ b\<close>, shortest \<open>a\<close> first. A greedy group
  before a literal takes the last split that lets the rest of the pattern match, a lazy
  one the first.
\<close>

fun splits :: "jsstring \<Rightarrow> jsstring \<Rightarrow> (jsstring \<times> jsstring) list" where
  "splits sep [] = (if sep = [] then [([], [])] else [])"
| "splits sep (c # cs) =
     (if prefix sep (c # cs) then [([], drop (length sep) (c # cs))] else []) @
     map (\<lambda>(a, b). (c # a, b)) (splits sep cs)"

definition lastOption :: "'a list \<Rightarrow> 'a option" where
  "lastOption xs = (case rev xs of [] \<Rightarrow> None | x # _ \<Rightarrow> Some x)"

definition firstOption :: "'a list \<Rightarrow> 'a option" where
  "firstOption xs = (case xs of [] \<Rightarrow> None | x # _ \<Rightarrow> Some x)"

text \<open>\<open>/^(.*)SEP(.+)$/\<close>: both groups, \<open>None\<close> when there is no match.\<close>

definition matchGreedySplit :: "jsstring \<Rightarrow> jsstring \<Rightarrow> (jsstring \<times> jsstring) option" where
  "matchGreedySplit sep s =
     lastOption (filter (\<lambda>(a, b). dotAll a \<and> b \<noteq> [] \<and> dotAll b) (splits sep s))"

text \<open>\<open>/^(.*)SUFFIX$/\<close> and \<open>/^(.*?)SUFFIX$/\<close>: the group.\<close>

definition matchBeforeSuffix :: "jsstring \<Rightarrow> jsstring \<Rightarrow> jsstring option" where
  "matchBeforeSuffix suf s =
     map_option fst (lastOption (filter (\<lambda>(a, b). dotAll a \<and> b = []) (splits suf s)))"

text \<open>\<open>/^(.*)SEP/\<close>: the group; what follows the separator is free.\<close>

definition matchGreedyBefore :: "jsstring \<Rightarrow> jsstring \<Rightarrow> jsstring option" where
  "matchGreedyBefore sep s =
     map_option fst (lastOption (filter (\<lambda>(a, b). dotAll a) (splits sep s)))"

section \<open>Element lookup\<close>

definition quoted :: "jsstring \<Rightarrow> jsstring" where
  "quoted s = [34] @ s @ [34]"

definition querySelector :: "page \<Rightarrow> jsstring \<Rightarrow> node option" where
  "querySelector p selector = firstOption (querySelectorAll p selector)"

definition elemQuerySelector :: "page \<Rightarrow> node \<Rightarrow> jsstring \<Rightarrow> node option" where
  "elemQuerySelector p element selector = firstOption (elemQuerySelectorAll p element selector)"

definition findElement :: "page \<Rightarrow> jsstring \<Rightarrow> error + node" where
  "findElement p selector =
     (case querySelector p selector of
        None \<Rightarrow> Inl (Error (str ''Element not found: '' @ selector))
      | Some element \<Rightarrow> Inr element)"

definition className :: "node \<Rightarrow> jsstring" where
  "className element = (case getAttribute element (str ''class'') of None \<Rightarrow> [] | Some c \<Rightarrow> c)"

definition findElementByClassPrefix :: "page \<Rightarrow> jsstring \<Rightarrow> jsstring \<Rightarrow> node option" where
  "findElementByClassPrefix p pre tag =
     find (\<lambda>element. list_ex (\<lambda>cn. startsWith cn pre) (split 32 (className element)))
       (querySelectorAll p (tag @ str ''[class*='' @ quoted pre @ str '']''))"

text \<open>
  \<open>createDirectTextCondition\<close>: the regular expression is given by its \<open>test\<close>. The
  direct text is the data of the element's own text nodes.
\<close>

fun directText :: "node list \<Rightarrow> jsstring" where
  "directText [] = []"
| "directText (TextNode t # ns) = t @ directText ns"
| "directText (Element i tg as ch # ns) = directText ns"

definition createDirectTextCondition :: "(jsstring \<Rightarrow> bool) \<Rightarrow> condition" where
  "createDirectTextCondition regexTest = (\<lambda>element. Inr (regexTest (directText (childNodes element))))"

definition findFirstWithDirectTextMatch ::
    "page \<Rightarrow> (jsstring \<Rightarrow> bool) \<Rightarrow> (error + node option) \<times> page" where
  "findFirstWithDirectTextMatch p regexTest =
     findFirstInWholeDFS p (createDirectTextCondition regexTest)"

text \<open>
  The chain \<open>element, element.parentElement, ...\<close> up to the root, read off the tree; an
  element the tree does not hold has no parent.
\<close>

fun pathTo :: "node \<Rightarrow> node \<Rightarrow> node list option"
  and pathToList :: "node \<Rightarrow> node list \<Rightarrow> node list option" where
  "pathTo n (TextNode t) = None"
| "pathTo n (Element i tg as ch) =
     (if sameElement (Element i tg as ch) n then Some [Element i tg as ch]
      else map_option (\<lambda>path. Element i tg as ch # path) (pathToList n ch))"
| "pathToList n [] = None"
| "pathToList n (c # cs) =
     (case pathTo n c of Some path \<Rightarrow> Some path | None \<Rightarrow> pathToList n cs)"

definition parentChain :: "page \<Rightarrow> node \<Rightarrow> node list" where
  "parentChain p element =
     (case pathTo element (documentElement p) of None \<Rightarrow> [element] | Some path \<Rightarrow> rev path)"

fun firstFound :: "('a \<Rightarrow> 'b option) \<Rightarrow> 'a list \<Rightarrow> 'b option" where
  "firstFound f [] = None"
| "firstFound f (x # xs) = (case f x of Some y \<Rightarrow> Some y | None \<Rightarrow> firstFound f xs)"

definition findInParentChain :: "page \<Rightarrow> node \<Rightarrow> jsstring \<Rightarrow> node option" where
  "findInParentChain p startElement selector =
     firstFound (\<lambda>currentElement. elemQuerySelector p currentElement selector)
       (parentChain p startElement)"

section \<open>Content accessors\<close>

text \<open>A string or \<open>null\<close> in a condition: true when it is a non-empty string.\<close>

definition truthy :: "jsstring option \<Rightarrow> bool" where
  "truthy v = (case v of None \<Rightarrow> False | Some s \<Rightarrow> s \<noteq> [])"

text \<open>\<open>a || b\<close>.\<close>

definition orElse :: "jsstring option \<Rightarrow> jsstring option \<Rightarrow> jsstring option" where
  "orElse a b = (if truthy a then a else b)"

definition getDatadogTimeRange :: "page \<Rightarrow> jsstring" where
  "getDatadogTimeRange p =
     (case querySelector p (str ''.druids_time_date-range-picker'') of
        None \<Rightarrow> []
      | Some dateRangePicker \<Rightarrow>
          (case elemQuerySelector p dateRangePicker (str ''input'') of
             None \<Rightarrow> []
           | Some input \<Rightarrow>
               (if truthy (inputValue p input)
                then str '' ('' @ render (inputValue p input) @ str '')''
                else [])))"

definition getMetaContent :: "page \<Rightarrow> jsstring \<Rightarrow> jsstring option" where
  "getMetaContent p property =
     (case querySelector p (str ''meta[property='' @ quoted property @ str '']'') of
        None \<Rightarrow> None
      | Some metaElement \<Rightarrow> getAttribute metaElement (str ''content''))"

definition cleanupContent :: "page \<Rightarrow> jsstring \<Rightarrow> jsstring" where
  "cleanupContent p content =
     (if content = [] then content
      else trim (collapseSpaces (decodeEntities p content)))"

text \<open>\<open>el.closest("[itemscope]") === itemElement\<close>.\<close>

definition closestItemScopeIs :: "page \<Rightarrow> node \<Rightarrow> node \<Rightarrow> bool" where
  "closestItemScopeIs p itemElement el =
     (case closest p el (str ''[itemscope]'') of
        None \<Rightarrow> False
      | Some closestItemScope \<Rightarrow> sameElement closestItemScope itemElement)"

definition getSchemaOrgContent :: "page \<Rightarrow> jsstring \<Rightarrow> jsstring \<Rightarrow> jsstring option" where
  "getSchemaOrgContent p itemType property =
     (case querySelector p (str ''[itemscope][itemtype='' @ quoted itemType @ str '']'') of
        None \<Rightarrow> None
      | Some itemElement \<Rightarrow>
          (case find (closestItemScopeIs p itemElement)
                  (elemQuerySelectorAll p itemElement
                     (str ''meta[itemprop='' @ quoted property @ str '']'')) of
             Some metaElement \<Rightarrow> getAttribute metaElement (str ''content'')
           | None \<Rightarrow>
               (case find (closestItemScopeIs p itemElement)
                       (elemQuerySelectorAll p itemElement
                          (str ''link[itemprop='' @ quoted property @ str '']'')) of
                  Some linkElement \<Rightarrow>
                    orElse (getAttribute linkElement (str ''href''))
                      (getAttribute linkElement (str ''content''))
                | None \<Rightarrow>
                    (case find (closestItemScopeIs p itemElement)
                            (elemQuerySelectorAll p itemElement
                               (str ''[itemprop='' @ quoted property @ str '']'')) of
                       Some element \<Rightarrow>
                         orElse (Some (trim (textContent element))) None
                     | None \<Rightarrow> None))))"

definition getSchemaOrgPersonName :: "page \<Rightarrow> jsstring \<Rightarrow> jsstring \<Rightarrow> jsstring option" where
  "getSchemaOrgPersonName p itemType authorProperty =
     (case querySelector p (str ''[itemscope][itemtype='' @ quoted itemType @ str '']'') of
        None \<Rightarrow> None
      | Some itemElement \<Rightarrow>
          (let authorSpan = elemQuerySelector p itemElement
                 (str ''span[itemprop='' @ quoted authorProperty @
                  str ''][itemscope][itemtype='' @ quoted (str ''http://schema.org/Person'') @ str '']'');
               authorLink = (case authorSpan of
                   None \<Rightarrow> None
                 | Some sp \<Rightarrow> elemQuerySelector p sp (str ''link[itemprop='' @ quoted (str ''name'') @ str '']''))
           in case authorLink of
                Some l \<Rightarrow> getAttribute l (str ''content'')
              | None \<Rightarrow>
                  (let authorDiv = elemQuerySelector p itemElement
                         (str ''div[itemprop='' @ quoted authorProperty @
                          str ''][itemscope][itemtype='' @ quoted (str ''http://schema.org/Person'') @ str '']'');
                       authorMeta = (case authorDiv of
                           None \<Rightarrow> None
                         | Some dv \<Rightarrow> elemQuerySelector p dv (str ''meta[itemprop='' @ quoted (str ''name'') @ str '']''))
                   in case authorMeta of
                        Some m \<Rightarrow> getAttribute m (str ''content'')
                      | None \<Rightarrow> getSchemaOrgContent p itemType authorProperty)))"

text \<open>The loops over the schema.org types: the first type that gives a non-empty value.\<close>

fun firstTruthy :: "('a \<Rightarrow> jsstring option) \<Rightarrow> 'a list \<Rightarrow> jsstring option" where
  "firstTruthy f [] = None"
| "firstTruthy f (x # xs) = (if truthy (f x) then f x else firstTruthy f xs)"

definition getSchemaOrgTitle :: "page \<Rightarrow> jsstring option" where
  "getSchemaOrgTitle p =
     firstTruthy
       (\<lambda>type. orElse (getSchemaOrgContent p type (str ''headline''))
                       (getSchemaOrgContent p type (str ''name'')))
       [str ''http://schema.org/VideoObject'', str ''http://schema.org/Article'',
        str ''http://schema.org/NewsArticle'', str ''http://schema.org/BlogPosting'',
        str ''http://schema.org/WebPage'', str ''http://schema.org/CreativeWork'',
        str ''http://schema.org/Thing'']"

definition getSchemaOrgUrl :: "page \<Rightarrow> jsstring option" where
  "getSchemaOrgUrl p =
     firstTruthy (\<lambda>type. getSchemaOrgContent p type (str ''url''))
       [str ''http://schema.org/VideoObject'', str ''http://schema.org/Article'',
        str ''http://schema.org/NewsArticle'', str ''http://schema.org/BlogPosting'',
        str ''http://schema.org/WebPage'', str ''http://schema.org/CreativeWork'',
        str ''http://schema.org/Thing'']"

definition getSchemaOrgAuthor :: "page \<Rightarrow> jsstring option" where
  "getSchemaOrgAuthor p =
     firstTruthy (\<lambda>type. getSchemaOrgPersonName p type (str ''author''))
       [str ''http://schema.org/VideoObject'', str ''http://schema.org/Article'',
        str ''http://schema.org/NewsArticle'', str ''http://schema.org/BlogPosting'',
        str ''http://schema.org/CreativeWork'']"

section \<open>The generic title and URL\<close>

text \<open>
  The \<open>servicePatterns\<close> loop of \<open>getTitle\<close>: for the first suffix \<open>S\<close> with
  \<open>/^(.*?)S$/\<close> matching, the place name and the service name, which is the suffix
  with its first \<open>" - "\<close> removed (never empty).
\<close>

definition servicePatterns :: "jsstring list" where
  "servicePatterns =
     [str '' - Google Maps'', str '' - Google Search'', str '' - Bing Maps'', str '' - Apple Maps'']"

fun matchService :: "jsstring list \<Rightarrow> jsstring \<Rightarrow> (jsstring \<times> jsstring) option" where
  "matchService [] documentTitle = None"
| "matchService (pattern # patterns) documentTitle =
     (case matchBeforeSuffix pattern documentTitle of
        Some placeName \<Rightarrow>
          (let serviceName = replaceFirst pattern (str '' - '') []
           in if serviceName \<noteq> [] then Some (placeName, serviceName)
              else matchService patterns documentTitle)
      | None \<Rightarrow> matchService patterns documentTitle)"

definition getTitle :: "page \<Rightarrow> jsstring" where
  "getTitle p =
     (let ogTitle = getMetaContent p (str ''og:title'') in
      if truthy ogTitle then
        (let cleanedTitle0 = cleanupContent p (render ogTitle);
             ogType = getMetaContent p (str ''og:type'');
             cleanedTitle =
               (if ogType = Some (str ''books.book'') then
                  (case indexOf cleanedTitle0 (str '':'') of
                     Some colonIndex \<Rightarrow> trim (take colonIndex cleanedTitle0)
                   | None \<Rightarrow> cleanedTitle0)
                else cleanedTitle0)
         in if jsIncludes (hostname p) (str ''youtube.com'') \<or>
               jsIncludes (hostname p) (str ''youtube.'') then
              (case matchGreedySplit (str '' - '') cleanedTitle of
                 Some (videoTitle, channelName) \<Rightarrow>
                   trim videoTitle @ str '' ('' @ trim channelName @ str '')''
               | None \<Rightarrow>
                   (let schemaAuthor = getSchemaOrgAuthor p in
                    if truthy schemaAuthor
                    then cleanedTitle @ str '' ('' @ render schemaAuthor @ str '')''
                    else cleanedTitle))
            else cleanedTitle)
      else
        (let schemaTitle = getSchemaOrgTitle p;
             schemaAuthor = getSchemaOrgAuthor p in
         if truthy schemaTitle then
           (let cleanedTitle = cleanupContent p (render schemaTitle) in
            if truthy schemaAuthor
            then cleanedTitle @ str '' ('' @ cleanupContent p (render schemaAuthor) @ str '')''
            else cleanedTitle)
         else
           (let documentTitle = cleanupContent p (docTitle p) in
            case matchService servicePatterns documentTitle of
              Some (placeName, serviceName) \<Rightarrow> placeName @ str '' ('' @ serviceName @ str '')''
            | None \<Rightarrow> documentTitle)))"

definition getUrl :: "page \<Rightarrow> jsstring" where
  "getUrl p =
     (let ogUrl = getMetaContent p (str ''og:url'') in
      if truthy ogUrl then cleanupContent p (render ogUrl)
      else
        (let schemaUrl = getSchemaOrgUrl p in
         if truthy schemaUrl then cleanupContent p (render schemaUrl)
         else href p))"

section \<open>The fallback, with what it could throw\<close>

text \<open>
  The fallback of \<open>getDocInfo\<close> calls \<open>getUrl\<close> and \<open>getTitle\<close> after the loop, outside its
  \<open>try\<close> block: what they throw leaves \<open>getDocInfo\<close>. They are embedded here a second
  time, under the names of the source with the suffix \<open>E\<close>, so that a throw is a value:
  a property read or a method call on \<open>null\<close> throws a \<open>TypeError\<close>, and so does taking
  apart the \<open>null\<close> result of \<open>match\<close>. \<open>deref v\<close> is such an access to \<open>v\<close>, and an
  \<open>if (v)\<close> of the source on an element or a match is the test \<open>v \<noteq> None\<close>. The
  functions that touch no value that can be \<open>null\<close> (\<open>cleanupContent\<close>, the test of
  \<open>closest\<close> on an element of a node list) are the ones of the first embedding.
\<close>

definition deref :: "'a option \<Rightarrow> error + 'a" where
  "deref v = (case v of None \<Rightarrow> Inl TypeError | Some x \<Rightarrow> Inr x)"

text \<open>Sequencing: the second computation runs when the first has not thrown.\<close>

definition andThen :: "error + 'a \<Rightarrow> ('a \<Rightarrow> error + 'b) \<Rightarrow> error + 'b" where
  "andThen m f = (case m of Inl e \<Rightarrow> Inl e | Inr x \<Rightarrow> f x)"

definition getMetaContentE :: "page \<Rightarrow> jsstring \<Rightarrow> error + jsstring option" where
  "getMetaContentE p property =
     (let metaElement = querySelector p (str ''meta[property='' @ quoted property @ str '']'')
      in if metaElement \<noteq> None
         then andThen (deref metaElement) (\<lambda>m. Inr (getAttribute m (str ''content'')))
         else Inr None)"

definition getSchemaOrgContentE :: "page \<Rightarrow> jsstring \<Rightarrow> jsstring \<Rightarrow> error + jsstring option" where
  "getSchemaOrgContentE p itemType property =
     (let itemElement = querySelector p (str ''[itemscope][itemtype='' @ quoted itemType @ str '']'')
      in if itemElement = None then Inr None
         else
           andThen (deref itemElement) (\<lambda>item.
             let metaElements = elemQuerySelectorAll p item
                   (str ''meta[itemprop='' @ quoted property @ str '']'')
             in case find (closestItemScopeIs p item) metaElements of
                  Some metaElement \<Rightarrow> Inr (getAttribute metaElement (str ''content''))
                | None \<Rightarrow>
                    andThen (deref itemElement) (\<lambda>item.
                      let linkElements = elemQuerySelectorAll p item
                            (str ''link[itemprop='' @ quoted property @ str '']'')
                      in case find (closestItemScopeIs p item) linkElements of
                           Some linkElement \<Rightarrow>
                             Inr (orElse (getAttribute linkElement (str ''href''))
                                    (getAttribute linkElement (str ''content'')))
                         | None \<Rightarrow>
                             andThen (deref itemElement) (\<lambda>item.
                               let elements = elemQuerySelectorAll p item
                                     (str ''[itemprop='' @ quoted property @ str '']'')
                               in case find (closestItemScopeIs p item) elements of
                                    Some element \<Rightarrow>
                                      Inr (orElse (Some (trim (textContent element))) None)
                                  | None \<Rightarrow> Inr None))))"

text \<open>
  In \<open>getSchemaOrgPersonName\<close> the two blocks that may return are computations of an
  optional result: \<open>Some content\<close> is \<open>return content\<close>, \<open>None\<close> is the end of the block.
\<close>

definition getSchemaOrgPersonNameE ::
    "page \<Rightarrow> jsstring \<Rightarrow> jsstring \<Rightarrow> error + jsstring option" where
  "getSchemaOrgPersonNameE p itemType authorProperty =
     (let itemElement = querySelector p (str ''[itemscope][itemtype='' @ quoted itemType @ str '']'')
      in if itemElement = None then Inr None
         else
           andThen (deref itemElement) (\<lambda>item.
             let authorSpan = elemQuerySelector p item
                   (str ''span[itemprop='' @ quoted authorProperty @
                    str ''][itemscope][itemtype='' @ quoted (str ''http://schema.org/Person'') @ str '']'')
             in andThen
                  (if authorSpan \<noteq> None then
                     andThen (deref authorSpan) (\<lambda>sp.
                       let authorLink = elemQuerySelector p sp
                             (str ''link[itemprop='' @ quoted (str ''name'') @ str '']'')
                       in if authorLink \<noteq> None
                          then andThen (deref authorLink)
                                 (\<lambda>l. Inr (Some (getAttribute l (str ''content''))))
                          else Inr None)
                   else Inr None)
                  (\<lambda>returned. case returned of
                     Some content \<Rightarrow> Inr content
                   | None \<Rightarrow>
                       andThen (deref itemElement) (\<lambda>item.
                         let authorDiv = elemQuerySelector p item
                               (str ''div[itemprop='' @ quoted authorProperty @
                                str ''][itemscope][itemtype='' @
                                quoted (str ''http://schema.org/Person'') @ str '']'')
                         in andThen
                              (if authorDiv \<noteq> None then
                                 andThen (deref authorDiv) (\<lambda>dv.
                                   let authorMeta = elemQuerySelector p dv
                                         (str ''meta[itemprop='' @ quoted (str ''name'') @ str '']'')
                                   in if authorMeta \<noteq> None
                                      then andThen (deref authorMeta)
                                             (\<lambda>m. Inr (Some (getAttribute m (str ''content''))))
                                      else Inr None)
                               else Inr None)
                              (\<lambda>returned. case returned of
                                 Some content \<Rightarrow> Inr content
                               | None \<Rightarrow> getSchemaOrgContentE p itemType authorProperty)))))"

text \<open>The loops over the schema.org types, and \<open>a || b\<close> with operands that may throw.\<close>

fun firstTruthyE :: "('a \<Rightarrow> error + jsstring option) \<Rightarrow> 'a list \<Rightarrow> error + jsstring option" where
  "firstTruthyE f [] = Inr None"
| "firstTruthyE f (x # xs) = andThen (f x) (\<lambda>v. if truthy v then Inr v else firstTruthyE f xs)"

definition orElseE :: "error + jsstring option \<Rightarrow> error + jsstring option \<Rightarrow> error + jsstring option" where
  "orElseE a b = andThen a (\<lambda>v. if truthy v then Inr v else b)"

definition getSchemaOrgTitleE :: "page \<Rightarrow> error + jsstring option" where
  "getSchemaOrgTitleE p =
     firstTruthyE
       (\<lambda>type. orElseE (getSchemaOrgContentE p type (str ''headline''))
                        (getSchemaOrgContentE p type (str ''name'')))
       [str ''http://schema.org/VideoObject'', str ''http://schema.org/Article'',
        str ''http://schema.org/NewsArticle'', str ''http://schema.org/BlogPosting'',
        str ''http://schema.org/WebPage'', str ''http://schema.org/CreativeWork'',
        str ''http://schema.org/Thing'']"

definition getSchemaOrgUrlE :: "page \<Rightarrow> error + jsstring option" where
  "getSchemaOrgUrlE p =
     firstTruthyE (\<lambda>type. getSchemaOrgContentE p type (str ''url''))
       [str ''http://schema.org/VideoObject'', str ''http://schema.org/Article'',
        str ''http://schema.org/NewsArticle'', str ''http://schema.org/BlogPosting'',
        str ''http://schema.org/WebPage'', str ''http://schema.org/CreativeWork'',
        str ''http://schema.org/Thing'']"

definition getSchemaOrgAuthorE :: "page \<Rightarrow> error + jsstring option" where
  "getSchemaOrgAuthorE p =
     firstTruthyE (\<lambda>type. getSchemaOrgPersonNameE p type (str ''author''))
       [str ''http://schema.org/VideoObject'', str ''http://schema.org/Article'',
        str ''http://schema.org/NewsArticle'', str ''http://schema.org/BlogPosting'',
        str ''http://schema.org/CreativeWork'']"

text \<open>
  The \<open>servicePatterns\<close> loop: \<open>const [, placeName] = match\<close> takes the match apart; the
  service name is read through \<open>?.\<close>, which throws nothing.
\<close>

fun matchServiceE :: "jsstring list \<Rightarrow> jsstring \<Rightarrow> error + (jsstring \<times> jsstring) option" where
  "matchServiceE [] documentTitle = Inr None"
| "matchServiceE (pattern # patterns) documentTitle =
     (let match = matchBeforeSuffix pattern documentTitle
      in if match \<noteq> None then
           andThen (deref match) (\<lambda>placeName.
             let serviceName = replaceFirst pattern (str '' - '') []
             in if serviceName \<noteq> [] then Inr (Some (placeName, serviceName))
                else matchServiceE patterns documentTitle)
         else matchServiceE patterns documentTitle)"

definition getTitleE :: "page \<Rightarrow> error + jsstring" where
  "getTitleE p =
     andThen (getMetaContentE p (str ''og:title'')) (\<lambda>ogTitle.
       if truthy ogTitle then
         (let cleanedTitle0 = cleanupContent p (render ogTitle) in
          andThen (getMetaContentE p (str ''og:type'')) (\<lambda>ogType.
            let cleanedTitle =
                  (if ogType = Some (str ''books.book'') then
                     (case indexOf cleanedTitle0 (str '':'') of
                        Some colonIndex \<Rightarrow> trim (take colonIndex cleanedTitle0)
                      | None \<Rightarrow> cleanedTitle0)
                   else cleanedTitle0)
            in if jsIncludes (hostname p) (str ''youtube.com'') \<or>
                  jsIncludes (hostname p) (str ''youtube.'') then
                 (let titleMatch = matchGreedySplit (str '' - '') cleanedTitle
                  in if titleMatch \<noteq> None then
                       andThen (deref titleMatch) (\<lambda>(videoTitle, channelName).
                         Inr (trim videoTitle @ str '' ('' @ trim channelName @ str '')''))
                     else
                       andThen (getSchemaOrgAuthorE p) (\<lambda>schemaAuthor.
                         if truthy schemaAuthor
                         then Inr (cleanedTitle @ str '' ('' @ render schemaAuthor @ str '')'')
                         else Inr cleanedTitle))
               else Inr cleanedTitle))
       else
         andThen (getSchemaOrgTitleE p) (\<lambda>schemaTitle.
           andThen (getSchemaOrgAuthorE p) (\<lambda>schemaAuthor.
             if truthy schemaTitle then
               (let cleanedTitle = cleanupContent p (render schemaTitle) in
                if truthy schemaAuthor
                then Inr (cleanedTitle @ str '' ('' @ cleanupContent p (render schemaAuthor) @
                          str '')'')
                else Inr cleanedTitle)
             else
               (let documentTitle = cleanupContent p (docTitle p) in
                andThen (matchServiceE servicePatterns documentTitle) (\<lambda>service.
                  case service of
                    Some (placeName, serviceName) \<Rightarrow>
                      Inr (placeName @ str '' ('' @ serviceName @ str '')'')
                  | None \<Rightarrow> Inr documentTitle)))))"

definition getUrlE :: "page \<Rightarrow> error + jsstring" where
  "getUrlE p =
     andThen (getMetaContentE p (str ''og:url'')) (\<lambda>ogUrl.
       if truthy ogUrl then Inr (cleanupContent p (render ogUrl))
       else
         andThen (getSchemaOrgUrlE p) (\<lambda>schemaUrl.
           if truthy schemaUrl then Inr (cleanupContent p (render schemaUrl))
           else Inr (href p)))"

section \<open>The result and the rules\<close>

text \<open>
  \<open>DocInfo\<close>: \<open>title\<close> is \<open>string | null\<close>; an optional field that is absent is \<open>None\<close>.
  The field \<open>text\<close> is written \<open>text'\<close>.
\<close>

record DocInfo =
  link :: jsstring
  title :: "jsstring option"
  html :: "jsstring option"
  text' :: "jsstring option"
  sender :: "jsstring option"
  dateString :: "jsstring option"
  channelName :: "jsstring option"

text \<open>The object literal \<open>{ link, title }\<close>.\<close>

definition linkTitle :: "jsstring \<Rightarrow> jsstring \<Rightarrow> DocInfo" where
  "linkTitle l t =
     \<lparr>link = l, title = Some t, html = None, text' = None, sender = None,
      dateString = None, channelName = None\<rparr>"

text \<open>A rule: \<open>isMatch\<close> and \<open>getDocInfo\<close>, either of which may throw.\<close>

record rule =
  isMatch :: "page \<Rightarrow> error + bool"
  ruleGetDocInfo :: "page \<Rightarrow> error + DocInfo"

subsection \<open>dropboxPaper, amazon, awsDocs\<close>

definition dropboxPaper :: rule where
  "dropboxPaper =
     \<lparr>isMatch = (\<lambda>p. Inr (hostname p = str ''paper.dropbox.com'')),
      ruleGetDocInfo = (\<lambda>p.
        case findElement p (str ''.hp-header-title-wrapper'') of
          Inl e \<Rightarrow> Inl e
        | Inr header \<Rightarrow> Inr (linkTitle (href p) (textContent header @ str '' (Paper)'')))\<rparr>"

definition amazon :: rule where
  "amazon =
     \<lparr>isMatch = (\<lambda>p. Inr (jsIncludes (hostname p) (str ''amazon.com'') \<and>
                          \<not> jsIncludes (hostname p) (str ''aws''))),
      ruleGetDocInfo = (\<lambda>p.
        case findElement p (str ''#productTitle'') of
          Inl e \<Rightarrow> Inl e
        | Inr productTitle \<Rightarrow>
            (case findElement p (str ''#ASIN'') of
               Inl e \<Rightarrow> Inl e
             | Inr asin \<Rightarrow>
                 Inr (linkTitle (str ''https://www.amazon.com/dp/'' @ render (inputValue p asin))
                        (textContent productTitle))))\<rparr>"

definition awsDocs :: rule where
  "awsDocs =
     \<lparr>isMatch = (\<lambda>p. Inr (hostname p = str ''aws.amazon.com'')),
      ruleGetDocInfo = (\<lambda>p.
        case matchGreedySplit (str '' - '') (docTitle p) of
          Some (content, service) \<Rightarrow> Inr (linkTitle (href p) (service @ str '': '' @ content))
        | None \<Rightarrow> Inr (linkTitle (href p) (docTitle p)))\<rparr>"

subsection \<open>docsAndDesignTools\<close>

text \<open>\<open>Math.max\<close> of two indices, \<open>None\<close> being \<open>-1\<close>.\<close>

fun maxIndex :: "nat option \<Rightarrow> nat option \<Rightarrow> nat option" where
  "maxIndex None b = b"
| "maxIndex (Some i) None = Some i"
| "maxIndex (Some i) (Some j) = Some (max i j)"

definition enDashSeparator :: jsstring where
  "enDashSeparator = [32, 8211, 32]"

definition docsAndDesignTools :: rule where
  "docsAndDesignTools =
     \<lparr>isMatch = (\<lambda>p. Inr
        ((jsIncludes (hostname p) (str ''figma.com'') \<and>
          \<not> jsIncludes (hostname p) (str ''temporal-eks.figma.com'') \<and>
          \<not> jsIncludes (hostname p) (str ''temporal-eks.staging.figma.com'')) \<or>
         jsIncludes (hostname p) (str ''docs.google.com''))),
      ruleGetDocInfo = (\<lambda>p.
        let l = origin p @ pathname p in
        if jsIncludes (docTitle p) enDashSeparator \<or> jsIncludes (docTitle p) (str '' - '') then
          (let lastEmDash = lastIndexOf (docTitle p) enDashSeparator;
               lastHyphen = lastIndexOf (docTitle p) (str '' - '')
           in case maxIndex lastEmDash lastHyphen of
                Some lastSeparatorIndex \<Rightarrow>
                  Inr (linkTitle l
                    (take lastSeparatorIndex (docTitle p) @ str '' ('' @
                     drop (lastSeparatorIndex + 3) (docTitle p) @ str '')''))
              | None \<Rightarrow> Inr (linkTitle l (docTitle p)))
        else Inr (linkTitle l (docTitle p)))\<rparr>"

subsection \<open>graphiteFigma\<close>

text \<open>\<open>s.replace(/^#\d+\s+/, "")\<close>.\<close>

definition stripPrNumber :: "jsstring \<Rightarrow> jsstring" where
  "stripPrNumber s =
     (case s of
        [] \<Rightarrow> s
      | c # cs \<Rightarrow>
          if c = 35 \<and> takeWhile isDigit cs \<noteq> [] \<and> takeWhile isSpace (dropWhile isDigit cs) \<noteq> []
          then dropWhile isSpace (dropWhile isDigit cs)
          else s)"

text \<open>\<open>s.replace(/\s+-\s+Graphite$/, "")\<close>, read from the end of the string.\<close>

definition stripGraphiteSuffix :: "jsstring \<Rightarrow> jsstring" where
  "stripGraphiteSuffix s =
     (if endsWith s (str ''Graphite'') then
        (let r1 = drop 8 (rev s);
             r2 = dropWhile isSpace r1;
             r3 = drop 1 r2
         in if takeWhile isSpace r1 \<noteq> [] \<and> prefix [45] r2 \<and> takeWhile isSpace r3 \<noteq> []
            then rev (dropWhile isSpace r3)
            else s)
      else s)"

text \<open>\<open>xs[i]\<close>, \<open>undefined\<close> beyond the end.\<close>

definition at :: "'a list \<Rightarrow> nat \<Rightarrow> 'a option" where
  "at xs i = (if i < length xs then Some (xs ! i) else None)"

definition graphiteFigma :: rule where
  "graphiteFigma =
     \<lparr>isMatch = (\<lambda>p. Inr (startsWith (href p) (str ''https://app.graphite.dev/github/pr/figma/figma''))),
      ruleGetDocInfo = (\<lambda>p.
        let urlParts = split 47 (pathname p);
            prNumber = at urlParts 5;
            t = stripGraphiteSuffix (stripPrNumber (docTitle p));
            codeDiffContainer = findElementByClassPrefix p (str ''CodeDiff_'') (str ''div'');
            author =
              (case codeDiffContainer of
                 None \<Rightarrow> []
               | Some container \<Rightarrow>
                   (case elemQuerySelector p container
                           (str ''img[src*='' @ quoted (str ''avatars.githubusercontent.com'') @ str '']'') of
                      None \<Rightarrow> []
                    | Some avatarImg \<Rightarrow> render (orElse (getAttribute avatarImg (str ''alt'')) (Some []))));
            l = str ''https://github.com/figma/figma/pull/'' @ render prNumber
        in Inr (linkTitle l
                 (if author \<noteq> [] then str ''[PR] '' @ t @ str '' ('' @ author @ str '')''
                  else str ''[PR] '' @ t)))\<rparr>"

subsection \<open>FigmaGithub\<close>

text \<open>
  \<open>parsePRString\<close>: the regular expression
  \<open>/(?<title>.*) by (?<author>.*) \<cdot> Pull Request #(?<pr>\d+) \<cdot> (?<repo>.*)/\<close>, of which
  the rule reads \<open>title\<close> and \<open>author\<close>. No group crosses a line terminator, so the
  match lies in one line of the string, the first that has one, and starts where that
  line starts; each greedy group takes the last split that lets the rest match.
\<close>

fun jsLines :: "jsstring \<Rightarrow> jsstring list" where
  "jsLines [] = [[]]"
| "jsLines (c # cs) =
     (if isLineTerminator c then [] # jsLines cs
      else (case jsLines cs of [] \<Rightarrow> [[c]] | x # xs \<Rightarrow> (c # x) # xs))"

definition middleDot :: jsstring where
  "middleDot = [32, 183, 32]"

definition parsePRAuthor :: "jsstring \<Rightarrow> jsstring option" where
  "parsePRAuthor s =
     map_option fst (lastOption
       (filter (\<lambda>(a, b). takeWhile isDigit b \<noteq> [] \<and> prefix middleDot (dropWhile isDigit b))
          (splits (middleDot @ str ''Pull Request #'') s)))"

definition parsePRLine :: "jsstring \<Rightarrow> (jsstring \<times> jsstring) option" where
  "parsePRLine s =
     lastOption (List.map_filter
       (\<lambda>(a, b). map_option (\<lambda>author. (a, author)) (parsePRAuthor b))
       (splits (str '' by '') s))"

definition parsePRString :: "jsstring \<Rightarrow> error + (jsstring \<times> jsstring)" where
  "parsePRString prString =
     (case firstFound parsePRLine (jsLines prString) of
        Some groups \<Rightarrow> Inr groups
      | None \<Rightarrow> Inl (Error (str ''Invalid PR string'')))"

definition FigmaGithub :: rule where
  "FigmaGithub =
     \<lparr>isMatch = (\<lambda>p. Inr (startsWith (href p) (str ''https://github.com/figma/figma/pull/''))),
      ruleGetDocInfo = (\<lambda>p.
        case parsePRString (docTitle p) of
          Inl e \<Rightarrow> Inl e
        | Inr (t, author) \<Rightarrow>
            Inr (linkTitle (href p) (str ''[PR] '' @ t @ str '' ('' @ author @ str '')'')))\<rparr>"

subsection \<open>githubCommit\<close>

definition githubCommit :: rule where
  "githubCommit =
     \<lparr>isMatch = (\<lambda>p. Inr (jsIncludes (href p) (str ''/commit/''))),
      ruleGetDocInfo = (\<lambda>p.
        let l = origin p @ pathname p in
        case matchGreedyBefore middleDot (docTitle p) of
          Some commitMessage \<Rightarrow> Inr (linkTitle l commitMessage)
        | None \<Rightarrow> Inr (linkTitle l (docTitle p)))\<rparr>"

subsection \<open>The Datadog rules\<close>

definition isDatadogHost :: "page \<Rightarrow> bool" where
  "isDatadogHost p =
     (jsIncludes (hostname p) (str ''datadoghq.com'') \<or> jsIncludes (hostname p) (str ''ddog-gov.com''))"

definition datadogGeneral :: rule where
  "datadogGeneral =
     \<lparr>isMatch = (\<lambda>p. Inr (isDatadogHost p)),
      ruleGetDocInfo = (\<lambda>p. Inr (linkTitle (href p) (docTitle p @ getDatadogTimeRange p)))\<rparr>"

text \<open>
  The loop of \<open>datadogMonitor\<close> over the \<open>h3\<close> elements: the first whose text has a
  trigger marker and, when \<open>h1Text\<close> is not empty, contains it; with it, the alert type.
\<close>

fun selectAlert :: "jsstring \<Rightarrow> node list \<Rightarrow> (node \<times> jsstring) option" where
  "selectAlert h1Text [] = None"
| "selectAlert h1Text (h3Element # rest) =
     (let fullText = textContent h3Element;
          hasTriggerCondition =
            (jsIncludes fullText (str ''[Triggered'') \<or> jsIncludes fullText (str ''[Warn''));
          containsH1Text = (if h1Text \<noteq> [] then jsIncludes fullText h1Text else True)
      in if containsH1Text \<and> hasTriggerCondition then
           Some (h3Element,
                 if jsIncludes fullText (str ''[Triggered'') then str ''Triggered''
                 else if jsIncludes fullText (str ''[Warn'') then str ''Warn''
                 else [])
         else selectAlert h1Text rest)"

text \<open>\<open>fullText.replace(new RegExp(`^\\[${alertType}\\]\\s*`), "")\<close>.\<close>

definition stripMarker :: "jsstring \<Rightarrow> jsstring \<Rightarrow> jsstring" where
  "stripMarker alertType fullText =
     (if prefix (str ''['' @ alertType @ str '']'') fullText
      then dropWhile isSpace (drop (length alertType + 2) fullText)
      else fullText)"

text \<open>
  The regular expression \<open>/\{[^}]*:[^}]*\}/\<close> matched at the start of a string: the
  match and what follows it. At an opening brace the expression matches when a closing
  brace follows and a colon stands before the first one; the match runs to that first
  closing brace.
\<close>

fun tagAt :: "jsstring \<Rightarrow> (jsstring \<times> jsstring) option" where
  "tagAt [] = None"
| "tagAt (c # cs) =
     (if c = 123 \<and> 125 \<in> set cs \<and> 58 \<in> set (takeWhile (\<lambda>x. x \<noteq> 125) cs)
      then Some (c # takeWhile (\<lambda>x. x \<noteq> 125) cs @ [125], drop 1 (dropWhile (\<lambda>x. x \<noteq> 125) cs))
      else None)"

lemma tagAt_shorter: "tagAt s = Some (tag, rest) \<Longrightarrow> length rest < length s"
  by (cases s) (auto simp: less_Suc_eq_le split: if_splits
      intro: le_trans [OF diff_le_self length_dropWhile_le])

text \<open>
  \<open>title.match(/\{[^}]*:[^}]*\}/g) || []\<close>: the matches from left to right, the search
  going on after each match.
\<close>

function curlyTags :: "jsstring \<Rightarrow> jsstring list" where
  "curlyTags [] = []"
| "curlyTags (c # cs) =
     (case tagAt (c # cs) of
        Some (tag, rest) \<Rightarrow> tag # curlyTags rest
      | None \<Rightarrow> curlyTags cs)"
  by pat_completeness auto
termination
  by (relation "measure length") (auto simp del: tagAt.simps dest: tagAt_shorter)

text \<open>
  \<open>s.replace(new RegExp(`\\s*${escaped tag}\\s*`, "g"), " ")\<close>: the tag is matched
  literally. From left to right, where white space and then the tag follow, they and
  the white space after the tag become one space. A tag of \<open>curlyTags\<close> is never empty.
\<close>

function replaceTag :: "jsstring \<Rightarrow> jsstring \<Rightarrow> jsstring" where
  "replaceTag tag [] = []"
| "replaceTag tag (c # cs) =
     (if tag \<noteq> [] \<and> prefix tag (dropWhile isSpace (c # cs))
      then 32 # replaceTag tag
             (dropWhile isSpace (drop (length tag) (dropWhile isSpace (c # cs))))
      else c # replaceTag tag cs)"
  by pat_completeness auto
termination
proof (relation "measure (\<lambda>(tag, s). length s)", goal_cases)
  case 1
  then show ?case by simp
next
  case (2 tag c cs)
  then have "length tag \<le> length (dropWhile isSpace (c # cs))" and "tag \<noteq> []"
    by (auto dest: prefix_length_le)
  moreover have "length (dropWhile isSpace (c # cs)) \<le> length (c # cs)"
    by (rule length_dropWhile_le)
  moreover have "length (dropWhile isSpace (drop (length tag) (dropWhile isSpace (c # cs))))
      \<le> length (dropWhile isSpace (c # cs)) - length tag"
    using length_dropWhile_le [of isSpace "drop (length tag) (dropWhile isSpace (c # cs))"]
    by simp
  ultimately show ?case by (cases tag) auto
next
  case (3 tag c cs)
  then show ?case by simp
qed

text \<open>The block of \<open>datadogMonitor\<close> that moves the curly tags to the end of the title.\<close>

definition moveCurlyTags :: "jsstring \<Rightarrow> jsstring" where
  "moveCurlyTags t =
     (let tags = curlyTags t in
      if length tags > 0 then
        (let wasAtEnd = endsWith (trim t) (last tags);
             cleanedTitle = trim (collapseSpaces (fold replaceTag tags t));
             spaceBeforeTags = (if wasAtEnd then str '' '' else [])
         in cleanedTitle @ spaceBeforeTags @ concat tags)
      else t)"

text \<open>The \<open>h1Text\<close> of \<open>datadogMonitor\<close>: empty when there is no \<open>h1\<close> element.\<close>

definition monitorH1Text :: "page \<Rightarrow> jsstring" where
  "monitorH1Text p =
     (case findElement p (str ''h1'') of
        Inl e \<Rightarrow> []
      | Inr h1Element \<Rightarrow> trim (textContent h1Element))"

definition datadogMonitor :: rule where
  "datadogMonitor =
     \<lparr>isMatch = (\<lambda>p. Inr (isDatadogHost p \<and> jsIncludes (pathname p) (str ''/monitors/''))),
      ruleGetDocInfo = (\<lambda>p.
        let timeRange = getDatadogTimeRange p;
            h1Text = monitorH1Text p;
            h3Elements = querySelectorAll p (str ''h3'')
        in case selectAlert h1Text h3Elements of
             Some (alertElement, alertType) \<Rightarrow>
               if alertType \<noteq> [] then
                 Inr (linkTitle (href p)
                        (moveCurlyTags (stripMarker alertType (textContent alertElement)) @ timeRange))
               else if h1Text \<noteq> [] then Inr (linkTitle (href p) (h1Text @ timeRange))
               else Inr (linkTitle (href p) (docTitle p @ timeRange))
           | None \<Rightarrow>
               if h1Text \<noteq> [] then Inr (linkTitle (href p) (h1Text @ timeRange))
               else Inr (linkTitle (href p) (docTitle p @ timeRange)))\<rparr>"

definition datadogNotebook :: rule where
  "datadogNotebook =
     \<lparr>isMatch = (\<lambda>p. Inr (jsIncludes (hostname p) (str ''datadoghq.com'') \<and>
                          jsIncludes (pathname p) (str ''/notebook/''))),
      ruleGetDocInfo = (\<lambda>p.
        let timeRange = getDatadogTimeRange p in
        case matchBeforeSuffix (str '' | Datadog'') (docTitle p) of
          Some content \<Rightarrow> Inr (linkTitle (href p) (content @ timeRange @ str '' (Datadog Notebook)''))
        | None \<Rightarrow> Inr (linkTitle (href p) (docTitle p @ timeRange)))\<rparr>"

definition datadogLogs :: rule where
  "datadogLogs =
     \<lparr>isMatch = (\<lambda>p. Inr (jsIncludes (hostname p) (str ''datadoghq.com'') \<and>
                          jsIncludes (pathname p) (str ''/logs''))),
      ruleGetDocInfo = (\<lambda>p.
        let timeRange = getDatadogTimeRange p;
            fromQuery =
              (let queryParam = searchParamsGet p (search p) (str ''query'') in
               if truthy queryParam then
                 (case decodeURIComponent p (render queryParam) of
                    Inl e \<Rightarrow> Inl e
                  | Inr decodedQuery \<Rightarrow>
                      Inr (linkTitle (href p) (decodedQuery @ timeRange @ str '' (Logs)'')))
               else Inr (linkTitle (href p) (docTitle p @ timeRange @ str '' (Logs)'')))
        in case findFirstInWholeDFS p
                  (createDirectTextCondition (\<lambda>s. jsIncludes s (str ''Log Message''))) of
             (Inl e, p1) \<Rightarrow> Inl e
           | (Inr None, p1) \<Rightarrow> fromQuery
           | (Inr (Some logMessageElement), p1) \<Rightarrow>
               (case findNextElementDFS p1 logMessageElement
                       (\<lambda>element. Inr (tagName element = str ''CODE'')) of
                  Inl e \<Rightarrow> Inl e
                | Inr None \<Rightarrow> fromQuery
                | Inr (Some codeElement) \<Rightarrow>
                    Inr (linkTitle (href p)
                      (trim (collapseSpaces (textContent codeElement)) @ timeRange @ str '' (Logs)''))))\<rparr>"

subsection \<open>temporal, notion, asana, greenhouse\<close>

definition temporal :: rule where
  "temporal =
     \<lparr>isMatch = (\<lambda>p. Inr (jsIncludes (hostname p) (str ''temporal-eks.figma.com'') \<or>
                          jsIncludes (hostname p) (str ''temporal-eks.staging.figma.com''))),
      ruleGetDocInfo = (\<lambda>p.
        let queryParam = searchParamsGet p (search p) (str ''query'') in
        if truthy queryParam then
          (case decodeURIComponent p (render queryParam) of
             Inl e \<Rightarrow> Inl e
           | Inr decodedQuery \<Rightarrow> Inr (linkTitle (href p) (decodedQuery @ str '' (Temporal)'')))
        else Inr (linkTitle (href p) (docTitle p @ str '' (Temporal)'')))\<rparr>"

text \<open>\<open>/^\(\d+\)\s*(.*)$/\<close>: the group.\<close>

definition matchNotification :: "jsstring \<Rightarrow> jsstring option" where
  "matchNotification s =
     (case s of
        [] \<Rightarrow> None
      | c # cs \<Rightarrow>
          if c = 40 \<and> takeWhile isDigit cs \<noteq> [] \<and> prefix [41] (dropWhile isDigit cs) \<and>
             dotAll (dropWhile isSpace (drop 1 (dropWhile isDigit cs)))
          then Some (dropWhile isSpace (drop 1 (dropWhile isDigit cs)))
          else None)"

definition notion :: rule where
  "notion =
     \<lparr>isMatch = (\<lambda>p. Inr (jsIncludes (hostname p) (str ''notion.so''))),
      ruleGetDocInfo = (\<lambda>p.
        let t = (case matchNotification (docTitle p) of Some rest \<Rightarrow> rest | None \<Rightarrow> docTitle p)
        in Inr (linkTitle (href p) (t @ str '' (Notion)'')))\<rparr>"

text \<open>\<open>/^\<bullet> .+ - (.*)$/\<close> (the bullet is U+25CF): the group.\<close>

definition matchTeamPrefix :: "jsstring \<Rightarrow> jsstring option" where
  "matchTeamPrefix s =
     (if prefix [9679, 32] s then
        map_option snd (lastOption
          (filter (\<lambda>(a, b). a \<noteq> [] \<and> dotAll a \<and> dotAll b) (splits (str '' - '') (drop 2 s))))
      else None)"

definition asana :: rule where
  "asana =
     \<lparr>isMatch = (\<lambda>p. Inr (hostname p = str ''app.asana.com'')),
      ruleGetDocInfo = (\<lambda>p.
        let l = searchParamsSet p (href p) (str ''focus'') (str ''true'') in
        case matchBeforeSuffix (str '' - Asana'') (docTitle p) of
          Some content \<Rightarrow>
            (case matchTeamPrefix content of
               Some content' \<Rightarrow> Inr (linkTitle l (content' @ str '' (Asana)''))
             | None \<Rightarrow> Inr (linkTitle l (content @ str '' (Asana)'')))
        | None \<Rightarrow> Inr (linkTitle l (docTitle p)))\<rparr>"

definition greenhouse :: rule where
  "greenhouse =
     \<lparr>isMatch = (\<lambda>p. Inr (jsIncludes (href p) (str ''/scorecards/''))),
      ruleGetDocInfo = (\<lambda>p.
        case findElement p (str ''h3.name'') of
          Inl e \<Rightarrow> Inl e
        | Inr nameElement \<Rightarrow>
            (let name = cleanupContent p (textContent nameElement);
                 l = (if endsWith (href p) (str ''/edit'')
                      then take (length (href p) - 5) (href p) else href p)
             in Inr (linkTitle l (name @ str '' (Greenhouse Scorecard)''))))\<rparr>"

subsection \<open>launchDarkly, figmaDeploys, goodreads\<close>

definition launchDarkly :: rule where
  "launchDarkly =
     \<lparr>isMatch = (\<lambda>p. Inr (hostname p = str ''app.launchdarkly.com'')),
      ruleGetDocInfo = (\<lambda>p.
        case indexOf (pathname p) (str ''/projects/default/flags/'') of
          Some flagsIndex \<Rightarrow>
            (let afterFlags = drop (flagsIndex + 24) (pathname p);
                 flagName = (case indexOf afterFlags (str ''/'') of
                               None \<Rightarrow> afterFlags
                             | Some nextSlash \<Rightarrow> take nextSlash afterFlags);
                 baseUrl = protocol p @ str ''//'' @ host p;
                 newPath = replaceFirst (pathname p) (str ''/targeting'') (str ''/monitoring'');
                 queryParams = str ''env=production&env=staging&env=gov&env=development&env=devenv01&selected-env=production&activity=true''
             in Inr (linkTitle (baseUrl @ newPath @ str ''?'' @ queryParams)
                      (flagName @ str '' (LaunchDarkly)'')))
        | None \<Rightarrow> Inr (linkTitle (href p) (docTitle p @ str '' (LaunchDarkly)'')))\<rparr>"

definition figmaDeploys :: rule where
  "figmaDeploys =
     \<lparr>isMatch = (\<lambda>p. Inr (hostname p = str ''deploysv2.figma.com'')),
      ruleGetDocInfo = (\<lambda>p.
        let pathParts = split 47 (pathname p);
            chainId = render (at pathParts (length pathParts - 1))
        in case findElement p (str ''h4'') of
             Inr h4Element \<Rightarrow>
               (let h4Text = textContent h4Element;
                    t = (if h4Text \<noteq> [] \<and> \<not> jsIncludes h4Text (str ''#'' @ chainId)
                         then h4Text @ str '' #'' @ chainId else h4Text)
                in Inr (linkTitle (href p) (t @ str '' (Figma Deploys)'')))
           | Inl error \<Rightarrow>
               Inr (linkTitle (href p) (docTitle p @ str '' #'' @ chainId @ str '' (Figma Deploys)'')))\<rparr>"

definition goodreads :: rule where
  "goodreads =
     \<lparr>isMatch = (\<lambda>p. Inr (hostname p = str ''www.goodreads.com'')),
      ruleGetDocInfo = (\<lambda>p.
        let l = getUrl p;
            t = getTitle p;
            contributorLinks = querySelectorAll p (str ''.ContributorLink'')
        in case contributorLinks of
             [] \<Rightarrow> Inr (linkTitle l t)
           | first # others \<Rightarrow>
               (let authorName = trim (textContent first) in
                if authorName \<noteq> [] then Inr (linkTitle l (t @ str '' by '' @ authorName))
                else Inr (linkTitle l t)))\<rparr>"

subsection \<open>slack\<close>

text \<open>\<open>/\/archives\/([C][A-Z0-9]+)\//\<close>: the group of the leftmost match.\<close>

definition isUpperOrDigit :: "jschar \<Rightarrow> bool" where
  "isUpperOrDigit c = ((65 \<le> c \<and> c \<le> 90) \<or> isDigit c)"

fun matchChannelId :: "jsstring \<Rightarrow> jsstring option" where
  "matchChannelId [] = None"
| "matchChannelId (c # cs) =
     (if prefix (str ''/archives/C'') (c # cs) \<and>
         takeWhile isUpperOrDigit (drop 11 (c # cs)) \<noteq> [] \<and>
         prefix (str ''/'') (dropWhile isUpperOrDigit (drop 11 (c # cs)))
      then Some (67 # takeWhile isUpperOrDigit (drop 11 (c # cs)))
      else matchChannelId cs)"

text \<open>\<open>s.replace(/^\s*Message\s+/, "")\<close>.\<close>

definition stripMessagePrefix :: "jsstring \<Rightarrow> jsstring" where
  "stripMessagePrefix s =
     (let r = dropWhile isSpace s in
      if prefix (str ''Message'') r \<and> takeWhile isSpace (drop 7 r) \<noteq> []
      then dropWhile isSpace (drop 7 r)
      else s)"

definition messageContentCondition :: condition where
  "messageContentCondition element =
     Inr (tagName element = str ''DIV'' \<and>
          (getAttribute element (str ''data-qa'') = Some (str ''message_content'') \<or>
           getAttribute element (str ''data-qa'') = Some (str ''message-text'')))"

text \<open>
  The reference element of the slack rule: the first element whose direct text begins
  \<open>Saved for later\<close>, else the first whose direct text is \<open>Also sent to the channel\<close>,
  else an error.
\<close>

definition slackReference :: "page \<Rightarrow> (error + node) \<times> page" where
  "slackReference p =
     (case findFirstWithDirectTextMatch p (\<lambda>s. prefix (str ''Saved for later'') s) of
        (Inl e, p1) \<Rightarrow> (Inl e, p1)
      | (Inr (Some referenceElement), p1) \<Rightarrow> (Inr referenceElement, p1)
      | (Inr None, p1) \<Rightarrow>
          (case findFirstWithDirectTextMatch p1 (\<lambda>s. s = str ''Also sent to the channel'') of
             (Inl e, p2) \<Rightarrow> (Inl e, p2)
           | (Inr (Some referenceElement), p2) \<Rightarrow> (Inr referenceElement, p2)
           | (Inr None, p2) \<Rightarrow>
               (Inl (Error (str ''Could not find 'Saved for later' span or 'Also sent to the channel' button'')), p2)))"

text \<open>The link, the date and the channel name that the timestamp anchor gives.\<close>

definition slackChannelName :: "page \<Rightarrow> jsstring \<Rightarrow> jsstring" where
  "slackChannelName p h =
     (case matchChannelId h of
        None \<Rightarrow> []
      | Some channelId \<Rightarrow>
          (case querySelector p (str ''[data-channel-id='' @ quoted channelId @ str '']'') of
             None \<Rightarrow> []
           | Some channelElement \<Rightarrow>
               (let channelText = trim (textContent channelElement) in
                if channelText \<noteq> [] then trim (stripMessagePrefix channelText) else [])))"

definition slackDateString :: "page \<Rightarrow> node \<Rightarrow> error + jsstring" where
  "slackDateString p timestampLink =
     (let dataTs = getAttribute timestampLink (str ''data-ts'') in
      if truthy dataTs then
        (case formatDate p (render dataTs) of
           Inl e \<Rightarrow> Inl e
         | Inr formattedDate \<Rightarrow> Inr (formattedDate @ str '' ET''))
      else Inr [])"

text \<open>The body of the \<open>try\<close> block of the slack rule.\<close>

definition slackExtract :: "page \<Rightarrow> error + DocInfo" where
  "slackExtract p =
     (case slackReference p of
        (Inl e, p1) \<Rightarrow> Inl e
      | (Inr referenceElement, p1) \<Rightarrow>
          (case findNextElementDFS p1 referenceElement messageContentCondition of
             Inl e \<Rightarrow> Inl e
           | Inr None \<Rightarrow> Inl (Error (str ''Could not find message content div''))
           | Inr (Some messageContentDiv) \<Rightarrow>
               (let senderName =
                      (case elemQuerySelector p1 messageContentDiv
                              (str ''[data-qa='' @ quoted (str ''message_sender'') @ str '']'') of
                         None \<Rightarrow> []
                       | Some senderSpan \<Rightarrow>
                           render (orElse (getAttribute senderSpan (str ''data-stringify-text'')) (Some [])));
                    timestampLink =
                      (case findInParentChain p1 messageContentDiv (str ''a.c-timestamp[data-ts]'') of
                         Some a \<Rightarrow> Some a
                       | None \<Rightarrow> findInParentChain p1 messageContentDiv (str ''a[data-ts]''));
                    h = (case timestampLink of
                           None \<Rightarrow> href p1
                         | Some a \<Rightarrow>
                             render (orElse (getAttribute a (str ''href'')) (Some (href p1))));
                    channel = (case timestampLink of
                                 None \<Rightarrow> []
                               | Some a \<Rightarrow> slackChannelName p1 h);
                    date = (case timestampLink of
                              None \<Rightarrow> Inr []
                            | Some a \<Rightarrow> slackDateString p1 a);
                    messageTextDiv = elemQuerySelector p1 messageContentDiv
                              (str ''[data-qa='' @ quoted (str ''message-text'') @ str '']'');
                    messageHtml = (case messageTextDiv of
                                     Some d \<Rightarrow> innerHTML p1 d
                                   | None \<Rightarrow> innerHTML p1 messageContentDiv);
                    messageText = (case messageTextDiv of
                                     Some d \<Rightarrow> trim (textContent d)
                                   | None \<Rightarrow>
                                       if innerText p1 messageContentDiv \<noteq> []
                                       then innerText p1 messageContentDiv
                                       else textContent messageContentDiv)
                in case date of
                     Inl e \<Rightarrow> Inl e
                   | Inr dateText \<Rightarrow>
                       Inr \<lparr>link = h, title = Some messageText, html = Some messageHtml,
                            text' = Some messageText, sender = Some senderName,
                            dateString = Some dateText, channelName = Some channel\<rparr>)))"

definition slack :: rule where
  "slack =
     \<lparr>isMatch = (\<lambda>p. Inr (jsIncludes (hostname p) (str ''slack.com''))),
      ruleGetDocInfo = (\<lambda>p.
        case slackExtract p of
          Inr res \<Rightarrow> Inr res
        | Inl error \<Rightarrow> Inr (linkTitle (href p) (docTitle p @ str '' (Slack)'')))\<rparr>"

section \<open>The dispatcher\<close>

definition rules :: "(string \<times> rule) list" where
  "rules =
     [(''graphiteFigma'', graphiteFigma),
      (''FigmaGithub'', FigmaGithub),
      (''figmaDeploys'', figmaDeploys),
      (''docsAndDesignTools'', docsAndDesignTools),
      (''dropboxPaper'', dropboxPaper),
      (''amazon'', amazon),
      (''awsDocs'', awsDocs),
      (''githubCommit'', githubCommit),
      (''datadogMonitor'', datadogMonitor),
      (''datadogNotebook'', datadogNotebook),
      (''datadogLogs'', datadogLogs),
      (''datadogGeneral'', datadogGeneral),
      (''temporal'', temporal),
      (''notion'', notion),
      (''asana'', asana),
      (''greenhouse'', greenhouse),
      (''launchDarkly'', launchDarkly),
      (''goodreads'', goodreads),
      (''slack'', slack)]"

text \<open>
  The loop of \<open>getDocInfo\<close> over the rules, from a given rule on. \<open>Some res\<close> is the
  \<open>return res\<close> inside the loop, \<open>None\<close> the end of the loop. The \<open>catch\<close> block
  continues with the next rule, whether \<open>isMatch\<close> or \<open>getDocInfo\<close> threw.
\<close>

fun runRules :: "page \<Rightarrow> (string \<times> rule) list \<Rightarrow> DocInfo option" where
  "runRules p [] = None"
| "runRules p ((name, r) # rest) =
     (case isMatch r p of
        Inl error \<Rightarrow> runRules p rest
      | Inr False \<Rightarrow> runRules p rest
      | Inr True \<Rightarrow>
          (case ruleGetDocInfo r p of
             Inl error \<Rightarrow> runRules p rest
           | Inr res \<Rightarrow> Some res))"

text \<open>
  \<open>dispatch\<close> is \<open>getDocInfo\<close> with the rule list as a parameter. After the loop the
  fallback \<open>{ link: getUrl(), title: getTitle() }\<close> is built outside the \<open>try\<close> block:
  what \<open>getUrl\<close> or \<open>getTitle\<close> throws is thrown by \<open>getDocInfo\<close>.
\<close>

definition dispatch :: "(string \<times> rule) list \<Rightarrow> page \<Rightarrow> error + DocInfo" where
  "dispatch rs p =
     (case runRules p rs of
        Some res \<Rightarrow> Inr res
      | None \<Rightarrow>
          andThen (getUrlE p) (\<lambda>l. andThen (getTitleE p) (\<lambda>t. Inr (linkTitle l t))))"

definition getDocInfo :: "page \<Rightarrow> error + DocInfo" where
  "getDocInfo p = dispatch rules p"

fun firstMatch :: "condition \<Rightarrow> node list \<Rightarrow> error + node option" where
  "firstMatch c [] = Inr None"
| "firstMatch c (x # xs) =
     (case c x of Inl e \<Rightarrow> Inl e | Inr True \<Rightarrow> Inr (Some x) | Inr False \<Rightarrow> firstMatch c xs)"

definition afterStart :: "node \<Rightarrow> node list \<Rightarrow> node list" where
  "afterStart s xs = drop 1 (dropWhile (\<lambda>n. \<not> sameElement n s) xs)"

definition drive :: "node \<Rightarrow> condition \<Rightarrow> bool \<Rightarrow> node list \<Rightarrow> error + node option" where
  "drive s c fs xs = (if fs then firstMatch c xs else firstMatch c (afterStart s xs))"

definition flagAfter :: "node \<Rightarrow> bool \<Rightarrow> node list \<Rightarrow> bool" where
  "flagAfter s fs xs = (fs \<or> (\<exists>n \<in> set xs. sameElement n s))"

section \<open>Notions of the specification\<close>

text \<open>A result that holds a link and a title only, and one that holds all five optional fields.\<close>

definition onlyLinkAndTitle :: "DocInfo \<Rightarrow> bool" where
  "onlyLinkAndTitle d =
     (html d = None \<and> text' d = None \<and> sender d = None \<and> dateString d = None \<and>
      channelName d = None)"

definition allFivePresent :: "DocInfo \<Rightarrow> bool" where
  "allFivePresent d =
     (html d \<noteq> None \<and> text' d \<noteq> None \<and> sender d \<noteq> None \<and> dateString d \<noteq> None \<and>
      channelName d \<noteq> None)"

text \<open>A rule yields a result on a page when it matches and its extractor returns.\<close>

definition yields :: "rule \<Rightarrow> page \<Rightarrow> bool" where
  "yields r p = (isMatch r p = Inr True \<and> (case ruleGetDocInfo r p of Inl e \<Rightarrow> False | Inr d \<Rightarrow> True))"

text \<open>
  An \<open>h3\<close> text qualifies as the alert source: it contains \<open>[Triggered\<close> or \<open>[Warn\<close>
  and, when the \<open>h1\<close> text is not empty, that text.
\<close>

definition h3Qualifies :: "jsstring \<Rightarrow> jsstring \<Rightarrow> bool" where
  "h3Qualifies h1Text fullText =
     ((jsIncludes fullText (str ''[Triggered'') \<or> jsIncludes fullText (str ''[Warn'')) \<and>
      (h1Text \<noteq> [] \<longrightarrow> jsIncludes fullText h1Text))"

text \<open>
  The \<open>h1\<close> text of a page: the text of its first \<open>h1\<close> element with both ends trimmed,
  empty when the page has no \<open>h1\<close> element. And the alert type of a qualifying \<open>h3\<close>
  text: \<open>Triggered\<close> when it contains \<open>[Triggered\<close>, \<open>Warn\<close> otherwise.
\<close>

definition pageH1Text :: "page \<Rightarrow> jsstring" where
  "pageH1Text p =
     (case querySelectorAll p (str ''h1'') of
        [] \<Rightarrow> []
      | h1 # others \<Rightarrow> trim (textContent h1))"

definition alertTypeOf :: "jsstring \<Rightarrow> jsstring" where
  "alertTypeOf fullText =
     (if jsIncludes fullText (str ''[Triggered'') then str ''Triggered'' else str ''Warn'')"

text \<open>
  A string in which white space occurs only as single spaces between other characters
  or at its ends.
\<close>

fun singleSpaced :: "jsstring \<Rightarrow> bool" where
  "singleSpaced [] = True"
| "singleSpaced (c # cs) =
     (if isSpace c then c = 32 \<and> (cs = [] \<or> \<not> isSpace (hd cs)) \<and> singleSpaced cs
      else singleSpaced cs)"

text \<open>The service names that \<open>getTitle\<close> knows as title suffixes.\<close>

definition serviceNames :: "jsstring list" where
  "serviceNames = [str ''Google Maps'', str ''Google Search'', str ''Bing Maps'', str ''Apple Maps'']"

section \<open>The title cut at its tags\<close>

text \<open>
  \<open>scanTags t\<close> cuts a text at the matches of the tag expression, from left to right:
  it gives, for each match, the text before it (after the previous match) and the match,
  and then the text after the last match. \<open>build\<close> puts such pieces together again.
\<close>

function scanTags :: "jsstring \<Rightarrow> (jsstring \<times> jsstring) list \<times> jsstring" where
  "scanTags [] = ([], [])"
| "scanTags (c # cs) =
     (case tagAt (c # cs) of
        Some (tag, rest) \<Rightarrow> (case scanTags rest of (xs, f) \<Rightarrow> (([], tag) # xs, f))
      | None \<Rightarrow>
          (case scanTags cs of
             ([], f) \<Rightarrow> ([], c # f)
           | ((p, tag) # xs, f) \<Rightarrow> ((c # p, tag) # xs, f)))"
  by pat_completeness auto
termination
  by (relation "measure length") (auto simp del: tagAt.simps dest: tagAt_shorter)

fun build :: "(jsstring \<times> jsstring) list \<Rightarrow> jsstring \<Rightarrow> jsstring" where
  "build [] f = f"
| "build ((p, tag) # xs) f = p @ tag @ build xs f"

text \<open>The pieces with every tag replaced by one space.\<close>

fun erased :: "(jsstring \<times> jsstring) list \<Rightarrow> jsstring \<Rightarrow> jsstring" where
  "erased [] f = f"
| "erased ((p, tag) # xs) f = p @ [32] @ erased xs f"

definition eraseTags :: "jsstring \<Rightarrow> jsstring" where
  "eraseTags t = erased (fst (scanTags t)) (snd (scanTags t))"

definition restAfterTags :: "jsstring \<Rightarrow> jsstring" where
  "restAfterTags t = snd (scanTags t)"

text \<open>No tag of the text has an opening brace after its first character.\<close>

definition noNestedBrace :: "jsstring \<Rightarrow> bool" where
  "noNestedBrace t = list_all (\<lambda>tag. 123 \<notin> set (tl tag)) (curlyTags t)"

text \<open>
  The cleaned text as the claim words it: each tag is taken out with the white space
  around it, one space is left in its place, and both ends are trimmed; white space
  elsewhere stays as it is.
\<close>

lemma tagAt_after_spaces_shorter:
  assumes "tagAt (dropWhile isSpace s) = Some (tag, rest)"
  shows "length (dropWhile isSpace rest) < length s"
proof -
  from assms have "length rest < length (dropWhile isSpace s)" by (rule tagAt_shorter)
  moreover have "length (dropWhile isSpace s) \<le> length s" by (rule length_dropWhile_le)
  moreover have "length (dropWhile isSpace rest) \<le> length rest" by (rule length_dropWhile_le)
  ultimately show ?thesis by simp
qed

function removeTagsAndSpaceAround :: "jsstring \<Rightarrow> jsstring" where
  "removeTagsAndSpaceAround [] = []"
| "removeTagsAndSpaceAround (c # cs) =
     (case tagAt (dropWhile isSpace (c # cs)) of
        Some (tag, rest) \<Rightarrow> 32 # removeTagsAndSpaceAround (dropWhile isSpace rest)
      | None \<Rightarrow> c # removeTagsAndSpaceAround cs)"
  by pat_completeness auto
termination
  by (relation "measure length")
     (auto simp del: tagAt.simps dropWhile.simps dest: tagAt_after_spaces_shorter)

definition cleanedAsClaimed :: "jsstring \<Rightarrow> jsstring" where
  "cleanedAsClaimed t = trim (removeTagsAndSpaceAround t)"

text \<open>
  A tag with no further opening brace: an opening brace, characters other than braces
  with a colon among them, and a closing brace.
\<close>

definition simpleTag :: "jsstring \<Rightarrow> bool" where
  "simpleTag T = (\<exists>x. T = 123 # x @ [125] \<and> 125 \<notin> set x \<and> 123 \<notin> set x \<and> 58 \<in> set x)"

text \<open>Every opening brace of the text has a closing brace after it in the text.\<close>

fun closedBraces :: "jsstring \<Rightarrow> bool" where
  "closedBraces [] = True"
| "closedBraces (c # cs) = ((c = 123 \<longrightarrow> 125 \<in> set cs) \<and> closedBraces cs)"

text \<open>
  A text in which no match of the tag expression starts, whatever follows the text: it
  has no tag and its braces are closed.
\<close>

definition mid :: "jsstring \<Rightarrow> bool" where
  "mid p = (curlyTags p = [] \<and> closedBraces p)"

text \<open>
  The pieces of a text whose tags have no further opening brace: texts in which no match
  starts, each followed by such a tag, and a rest without a tag.
\<close>

definition valid :: "(jsstring \<times> jsstring) list \<Rightarrow> jsstring \<Rightarrow> bool" where
  "valid xs f = ((\<forall>(p, T) \<in> set xs. mid p \<and> simpleTag T) \<and> curlyTags f = [])"

text \<open>
  The words of a text, its maximal runs of characters other than white space, and the
  words joined by single spaces.
\<close>

function jsWords :: "jsstring \<Rightarrow> jsstring list" where
  "jsWords [] = []"
| "jsWords (c # cs) =
     (if isSpace c then jsWords cs
      else (c # takeWhile (\<lambda>x. \<not> isSpace x) cs) # jsWords (dropWhile (\<lambda>x. \<not> isSpace x) cs))"
  by pat_completeness auto
termination
  by (relation "measure length") (auto simp: length_dropWhile_le less_Suc_eq_le)

fun joinWords :: "jsstring list \<Rightarrow> jsstring" where
  "joinWords [] = []"
| "joinWords (w # ws) = (if ws = [] then w else w @ 32 # joinWords ws)"

section \<open>Example pages\<close>

text \<open>
  The pages of the examples are built from \<open>blankPage\<close>: an empty document at an empty
  URL, on which no selector finds an element. Its \<open>decodeEntities\<close> decodes the five
  character references of \<open>namedReferences\<close>, as the HTML parser does, and leaves every
  other text as it is.
\<close>

definition namedReferences :: "(jsstring \<times> jschar) list" where
  "namedReferences =
     [(str ''amp;'', 38), (str ''lt;'', 60), (str ''gt;'', 62), (str ''quot;'', 34),
      (str ''nbsp;'', 160)]"

function decodeReferences :: "jsstring \<Rightarrow> jsstring" where
  "decodeReferences [] = []"
| "decodeReferences (c # cs) =
     (if c = 38 then
        (case find (\<lambda>(name, ch). prefix name cs) namedReferences of
           Some (name, ch) \<Rightarrow> ch # decodeReferences (drop (length name) cs)
         | None \<Rightarrow> c # decodeReferences cs)
      else c # decodeReferences cs)"
  by pat_completeness auto
termination
  by (relation "measure length") auto

definition emptyDocument :: node where
  "emptyDocument =
     Element 0 (str ''HTML'') []
       [Element 1 (str ''HEAD'') [] [], Element 2 (str ''BODY'') [] []]"

definition blankPage :: page where
  "blankPage =
     \<lparr>href = [], protocol = [], host = [], hostname = [], pathname = [], search = [],
      origin = [], docTitle = [], documentElement = emptyDocument,
      querySelectorAll = (\<lambda>selector. []),
      elemQuerySelectorAll = (\<lambda>element selector. []),
      closest = (\<lambda>element selector. None),
      inputValue = (\<lambda>element. None),
      innerHTML = (\<lambda>element. []),
      innerText = (\<lambda>element. []),
      decodeEntities = decodeReferences,
      searchParamsGet = (\<lambda>query key. None),
      searchParamsSet = (\<lambda>url key v. url),
      decodeURIComponent = (\<lambda>s. Inr s),
      formatDate = (\<lambda>ts. Inl RangeError)\<rparr>"

text \<open>
  A Dropbox Paper page whose URL has \<open>/commit/\<close> in it and a fragment, whose title has a
  \<open>" \<cdot> "\<close> and whose header element is missing: the commit rule and the fallback give
  different results on it.
\<close>

definition paperCommitPage :: page where
  "paperCommitPage =
     blankPage\<lparr>href := str ''https://paper.dropbox.com/commit/x#top'',
               hostname := str ''paper.dropbox.com'',
               origin := str ''https://paper.dropbox.com'',
               pathname := str ''/commit/x'',
               docTitle := str ''Notes'' @ [32, 183, 32] @ str ''Paper''\<rparr>"

text \<open>
  A Dropbox Paper page without its header element, at a URL that no other rule matches;
  and two rules for a rule list of their own, one whose \<open>isMatch\<close> throws and one that
  matches and whose \<open>getDocInfo\<close> throws.
\<close>

definition paperPlainPage :: page where
  "paperPlainPage =
     blankPage\<lparr>href := str ''https://paper.dropbox.com/doc/x'',
               hostname := str ''paper.dropbox.com'',
               origin := str ''https://paper.dropbox.com'',
               pathname := str ''/doc/x'',
               docTitle := str ''Notes''\<rparr>"

definition throwingMatch :: rule where
  "throwingMatch =
     \<lparr>isMatch = (\<lambda>p. Inl TypeError),
      ruleGetDocInfo = (\<lambda>p. Inr (linkTitle (str ''never'') (str ''never'')))\<rparr>"

definition throwingExtract :: rule where
  "throwingExtract =
     \<lparr>isMatch = (\<lambda>p. Inr True),
      ruleGetDocInfo = (\<lambda>p. Inl (Error (str ''Element not found: h1'')))\<rparr>"

text \<open>A page with a small body: a \<open>div\<close> holding a \<open>span\<close>, and a \<open>code\<close> element after it.\<close>

definition sampleSpan :: node where
  "sampleSpan = Element 4 (str ''SPAN'') [] [TextNode (str ''Log Message'')]"

definition sampleDiv :: node where
  "sampleDiv = Element 3 (str ''DIV'') [] [sampleSpan]"

definition sampleCode :: node where
  "sampleCode = Element 5 (str ''CODE'') [] [TextNode (str ''disk full'')]"

definition samplePage :: page where
  "samplePage =
     blankPage\<lparr>documentElement :=
       Element 0 (str ''HTML'') []
         [Element 1 (str ''HEAD'') [] [], Element 2 (str ''BODY'') [] [sampleDiv, sampleCode]]\<rparr>"

text \<open>
  A Slack page: a \<open>span\<close> with the text \<open>Saved for later\<close>, followed by the message
  content.
\<close>

definition slackMessage :: node where
  "slackMessage =
     Element 4 (str ''DIV'') [(str ''data-qa'', str ''message_content'')]
       [TextNode (str ''hello world'')]"

definition slackPage :: page where
  "slackPage =
     blankPage\<lparr>href := str ''https://app.slack.com/client/T1/C1'',
               hostname := str ''app.slack.com'',
               docTitle := str ''Slack'',
               innerHTML := textContent,
               documentElement :=
                 Element 0 (str ''HTML'') []
                   [Element 1 (str ''HEAD'') [] [],
                    Element 2 (str ''BODY'') []
                      [Element 3 (str ''SPAN'') [] [TextNode (str ''Saved for later'')],
                       slackMessage]]\<rparr>"

text \<open>A commit page on a host that is not GitHub's.\<close>

definition commitPage :: page where
  "commitPage =
     blankPage\<lparr>href := str ''https://git.example.org/r/commit/abc#L1'',
               hostname := str ''git.example.org'',
               origin := str ''https://git.example.org'',
               pathname := str ''/r/commit/abc'',
               docTitle := str ''Fix bug'' @ [32, 183, 32] @ str ''r@abc''\<rparr>"

text \<open>
  A commit page whose title has two lines, with \<open>" \<cdot> "\<close> twice in the first line and
  once in the second.
\<close>

definition twoLineCommitPage :: page where
  "twoLineCommitPage =
     blankPage\<lparr>href := str ''https://git.example.org/r/commit/abc'',
               hostname := str ''git.example.org'',
               origin := str ''https://git.example.org'',
               pathname := str ''/r/commit/abc'',
               docTitle := str ''Fix'' @ [32, 183, 32] @ str ''bug'' @ [32, 183, 32] @ str ''r'' @
                           [8232] @ str ''more'' @ [32, 183, 32] @ str ''text''\<rparr>"

text \<open>
  A commit page whose title has the line separator U+2028 before its \<open>" \<cdot> "\<close>.
\<close>

definition lineSeparatorCommitPage :: page where
  "lineSeparatorCommitPage =
     blankPage\<lparr>href := str ''https://git.example.org/r/commit/abc'',
               hostname := str ''git.example.org'',
               origin := str ''https://git.example.org'',
               pathname := str ''/r/commit/abc'',
               docTitle := str ''x'' @ [8232] @ str ''y'' @ [32, 183, 32] @ str ''z''\<rparr>"

text \<open>
  The Datadog monitor page of the specification's example: an \<open>h1\<close>, two \<open>h3\<close>
  elements and the date range picker with its input.
\<close>

definition monitorH1 :: node where
  "monitorH1 = Element 3 (str ''H1'') [] [TextNode (str ''Disk Space Alert'')]"

definition monitorH3a :: node where
  "monitorH3a =
     Element 5 (str ''H3'') [] [TextNode (str ''[Triggered] {environment:production} Disk Space Alert'')]"

definition monitorH3b :: node where
  "monitorH3b =
     Element 6 (str ''H3'') [] [TextNode (str ''[Triggered] {environment:staging} Disk Space Alert'')]"

definition monitorInput :: node where
  "monitorInput = Element 8 (str ''INPUT'') [] []"

definition monitorPicker :: node where
  "monitorPicker =
     Element 7 (str ''DIV'') [(str ''class'', str ''druids_time_date-range-picker'')] [monitorInput]"

definition monitorPage :: page where
  "monitorPage =
     blankPage\<lparr>href := str ''https://app.datadoghq.com/monitors/33333'',
               hostname := str ''app.datadoghq.com'',
               pathname := str ''/monitors/33333'',
               docTitle := str ''Datadog Monitor Page'',
               documentElement :=
                 Element 0 (str ''HTML'') []
                   [Element 1 (str ''HEAD'') [] [],
                    Element 2 (str ''BODY'') []
                      [monitorH1, Element 4 (str ''SPAN'') [] [TextNode (str ''Message'')],
                       monitorH3a, monitorH3b, monitorPicker]],
               querySelectorAll := (\<lambda>selector.
                 if selector = str ''h1'' then [monitorH1]
                 else if selector = str ''h3'' then [monitorH3a, monitorH3b]
                 else if selector = str ''.druids_time_date-range-picker'' then [monitorPicker]
                 else []),
               elemQuerySelectorAll := (\<lambda>element selector.
                 if sameElement element monitorPicker \<and> selector = str ''input''
                 then [monitorInput] else []),
               inputValue := (\<lambda>element.
                 if sameElement element monitorInput
                 then Some (str ''Jul 25, 2pm '' @ [8211] @ str '' 3pm'') else None)\<rparr>"

text \<open>
  A Datadog monitor page whose first \<open>h3\<close> element has a trigger marker and not the text
  of the \<open>h1\<close> element, and whose second \<open>h3\<close> element has both.
\<close>

definition otherAlertH1 :: node where
  "otherAlertH1 = Element 3 (str ''H1'') [] [TextNode (str '' Disk Space Alert '')]"

definition otherAlertH3a :: node where
  "otherAlertH3a = Element 4 (str ''H3'') [] [TextNode (str ''[Triggered] Memory Alert'')]"

definition otherAlertH3b :: node where
  "otherAlertH3b = Element 5 (str ''H3'') [] [TextNode (str ''[Warn] Disk Space Alert on db'')]"

definition otherAlertPage :: page where
  "otherAlertPage =
     blankPage\<lparr>href := str ''https://app.datadoghq.com/monitors/55555'',
               hostname := str ''app.datadoghq.com'',
               pathname := str ''/monitors/55555'',
               docTitle := str ''Datadog Monitor Page'',
               documentElement :=
                 Element 0 (str ''HTML'') []
                   [Element 1 (str ''HEAD'') [] [],
                    Element 2 (str ''BODY'') [] [otherAlertH1, otherAlertH3a, otherAlertH3b]],
               querySelectorAll := (\<lambda>selector.
                 if selector = str ''h1'' then [otherAlertH1]
                 else if selector = str ''h3'' then [otherAlertH3a, otherAlertH3b]
                 else [])\<rparr>"

text \<open>
  Three pages for the generic title: one with an \<open>og:title\<close>, one with a schema.org
  \<open>Article\<close> headline, one with a map service title only.
\<close>

definition ogMeta :: node where
  "ogMeta =
     Element 3 (str ''META'')
       [(str ''property'', str ''og:title''), (str ''content'', str ''Tom  &amp; Jerry '')] []"

definition ogPage :: page where
  "ogPage =
     blankPage\<lparr>hostname := str ''example.com'',
               docTitle := str ''Some page'',
               querySelectorAll := (\<lambda>selector.
                 if selector = str ''meta[property='' @ quoted (str ''og:title'') @ str '']''
                 then [ogMeta] else [])\<rparr>"

definition articleHeadline :: node where
  "articleHeadline =
     Element 4 (str ''META'') [(str ''itemprop'', str ''headline''), (str ''content'', str ''Big News'')] []"

definition articleItem :: node where
  "articleItem =
     Element 3 (str ''DIV'')
       [(str ''itemscope'', []), (str ''itemtype'', str ''http://schema.org/Article'')]
       [articleHeadline]"

definition articlePage :: page where
  "articlePage =
     blankPage\<lparr>hostname := str ''example.com'',
               docTitle := str ''Some page'',
               querySelectorAll := (\<lambda>selector.
                 if selector = str ''[itemscope][itemtype='' @ quoted (str ''http://schema.org/Article'') @ str '']''
                 then [articleItem] else []),
               elemQuerySelectorAll := (\<lambda>element selector.
                 if sameElement element articleItem \<and>
                    selector = str ''meta[itemprop='' @ quoted (str ''headline'') @ str '']''
                 then [articleHeadline] else []),
               closest := (\<lambda>element selector.
                 if sameElement element articleHeadline \<and> selector = str ''[itemscope]''
                 then Some articleItem else None)\<rparr>"

definition mapsPage :: page where
  "mapsPage =
     blankPage\<lparr>hostname := str ''www.google.com'',
               docTitle := str ''Eiffel Tower - Google Maps''\<rparr>"

text \<open>
  A Datadog monitor page with one \<open>h3\<close> element, whose text has two spaces between
  its words and a tag at its end; the page has no \<open>h1\<close> element and no date range
  picker.
\<close>

definition doubleSpaceH3 :: node where
  "doubleSpaceH3 = Element 3 (str ''H3'') [] [TextNode (str ''[Triggered] CPU  high {env:prod}'')]"

definition doubleSpacePage :: page where
  "doubleSpacePage =
     blankPage\<lparr>href := str ''https://app.datadoghq.com/monitors/44444'',
               hostname := str ''app.datadoghq.com'',
               pathname := str ''/monitors/44444'',
               docTitle := str ''Datadog Monitor Page'',
               documentElement :=
                 Element 0 (str ''HTML'') []
                   [Element 1 (str ''HEAD'') [] [], Element 2 (str ''BODY'') [] [doubleSpaceH3]],
               querySelectorAll := (\<lambda>selector.
                 if selector = str ''h3'' then [doubleSpaceH3] else [])\<rparr>"

section \<open>Evaluating the rules\<close>

lemma isMatch_simps:
  "isMatch graphiteFigma p = Inr (startsWith (href p) (str ''https://app.graphite.dev/github/pr/figma/figma''))"
  "isMatch FigmaGithub p = Inr (startsWith (href p) (str ''https://github.com/figma/figma/pull/''))"
  "isMatch figmaDeploys p = Inr (hostname p = str ''deploysv2.figma.com'')"
  "isMatch docsAndDesignTools p = Inr
        ((jsIncludes (hostname p) (str ''figma.com'') \<and>
          \<not> jsIncludes (hostname p) (str ''temporal-eks.figma.com'') \<and>
          \<not> jsIncludes (hostname p) (str ''temporal-eks.staging.figma.com'')) \<or>
         jsIncludes (hostname p) (str ''docs.google.com''))"
  "isMatch dropboxPaper p = Inr (hostname p = str ''paper.dropbox.com'')"
  "isMatch amazon p = Inr (jsIncludes (hostname p) (str ''amazon.com'') \<and>
                          \<not> jsIncludes (hostname p) (str ''aws''))"
  "isMatch awsDocs p = Inr (hostname p = str ''aws.amazon.com'')"
  "isMatch githubCommit p = Inr (jsIncludes (href p) (str ''/commit/''))"
  "isMatch datadogMonitor p = Inr (isDatadogHost p \<and> jsIncludes (pathname p) (str ''/monitors/''))"
  "isMatch datadogNotebook p = Inr (jsIncludes (hostname p) (str ''datadoghq.com'') \<and>
                          jsIncludes (pathname p) (str ''/notebook/''))"
  "isMatch datadogLogs p = Inr (jsIncludes (hostname p) (str ''datadoghq.com'') \<and>
                          jsIncludes (pathname p) (str ''/logs''))"
  "isMatch datadogGeneral p = Inr (isDatadogHost p)"
  "isMatch temporal p = Inr (jsIncludes (hostname p) (str ''temporal-eks.figma.com'') \<or>
                          jsIncludes (hostname p) (str ''temporal-eks.staging.figma.com''))"
  "isMatch notion p = Inr (jsIncludes (hostname p) (str ''notion.so''))"
  "isMatch asana p = Inr (hostname p = str ''app.asana.com'')"
  "isMatch greenhouse p = Inr (jsIncludes (href p) (str ''/scorecards/''))"
  "isMatch launchDarkly p = Inr (hostname p = str ''app.launchdarkly.com'')"
  "isMatch goodreads p = Inr (hostname p = str ''www.goodreads.com'')"
  "isMatch slack p = Inr (jsIncludes (hostname p) (str ''slack.com''))"
  by (simp_all add: graphiteFigma_def FigmaGithub_def figmaDeploys_def docsAndDesignTools_def
  dropboxPaper_def amazon_def awsDocs_def githubCommit_def datadogMonitor_def
  datadogNotebook_def datadogLogs_def datadogGeneral_def temporal_def notion_def asana_def
  greenhouse_def launchDarkly_def goodreads_def slack_def)

section \<open>The fallback throws nothing\<close>

text \<open>
  Every access of the fallback to a value that can be \<open>null\<close> stands behind a test of that
  value, so that \<open>getUrl\<close> and \<open>getTitle\<close> return on every page; they return what the
  first embedding gives.
\<close>

lemma getMetaContentE_total: "getMetaContentE p property = Inr (getMetaContent p property)"
  by (simp add: getMetaContentE_def getMetaContent_def deref_def andThen_def Let_def
      split: option.splits)

lemma getSchemaOrgContentE_total:
  "getSchemaOrgContentE p itemType property = Inr (getSchemaOrgContent p itemType property)"
  by (simp add: getSchemaOrgContentE_def getSchemaOrgContent_def deref_def andThen_def Let_def
      split: option.splits)

lemma getSchemaOrgPersonNameE_total:
  "getSchemaOrgPersonNameE p itemType authorProperty =
     Inr (getSchemaOrgPersonName p itemType authorProperty)"
  by (simp add: getSchemaOrgPersonNameE_def getSchemaOrgPersonName_def
      getSchemaOrgContentE_total deref_def andThen_def Let_def split: option.splits)

lemma firstTruthyE_total: "firstTruthyE (\<lambda>x. Inr (f x)) xs = Inr (firstTruthy f xs)"
  by (induction xs) (simp_all add: andThen_def)

lemma getSchemaOrgTitleE_total: "getSchemaOrgTitleE p = Inr (getSchemaOrgTitle p)"
  by (simp only: getSchemaOrgTitleE_def getSchemaOrgTitle_def getSchemaOrgContentE_total
      orElseE_def orElse_def andThen_def sum.case if_distrib [of Inr, symmetric]
      firstTruthyE_total)

lemma getSchemaOrgUrlE_total: "getSchemaOrgUrlE p = Inr (getSchemaOrgUrl p)"
  by (simp only: getSchemaOrgUrlE_def getSchemaOrgUrl_def getSchemaOrgContentE_total
      firstTruthyE_total)

lemma getSchemaOrgAuthorE_total: "getSchemaOrgAuthorE p = Inr (getSchemaOrgAuthor p)"
  by (simp only: getSchemaOrgAuthorE_def getSchemaOrgAuthor_def getSchemaOrgPersonNameE_total
      firstTruthyE_total)

lemma matchServiceE_total:
  "matchServiceE patterns documentTitle = Inr (matchService patterns documentTitle)"
  by (induction patterns) (simp_all add: deref_def andThen_def Let_def split: option.splits)

lemma getTitleE_total: "getTitleE p = Inr (getTitle p)"
  by (simp add: getTitleE_def getTitle_def getMetaContentE_total getSchemaOrgTitleE_total
      getSchemaOrgAuthorE_total matchServiceE_total deref_def andThen_def Let_def
      split: option.splits)

lemma getUrlE_total: "getUrlE p = Inr (getUrl p)"
  by (simp add: getUrlE_def getUrl_def getMetaContentE_total getSchemaOrgUrlE_total
      andThen_def Let_def)

lemma dispatch_fallback:
  "dispatch rs p =
     (case runRules p rs of
        Some res \<Rightarrow> Inr res
      | None \<Rightarrow> Inr (linkTitle (getUrl p) (getTitle p)))"
  by (simp add: dispatch_def getUrlE_total getTitleE_total andThen_def split: option.splits)


section \<open>Facts about the string functions\<close>

lemma splits_iff: "(a, b) \<in> set (splits sep s) \<longleftrightarrow> s = a @ sep @ b"
proof (induction s arbitrary: a)
  case Nil
  then show ?case by auto
next
  case (Cons c cs)
  show ?case
  proof (cases a)
    case Nil
    then show ?thesis by (auto simp: prefix_def)
  next
    case (Cons x xs)
    then show ?thesis using Cons.IH [of xs] by (auto simp: prefix_def)
  qed
qed

lemma jsIncludes_iff: "jsIncludes s x \<longleftrightarrow> (\<exists>a b. s = a @ x @ b)"
proof (induction s)
  case Nil
  then show ?case by auto
next
  case (Cons c cs)
  show ?case
  proof
    assume "jsIncludes (c # cs) x"
    then consider "prefix x (c # cs)" | "jsIncludes cs x" by auto
    then show "\<exists>a b. c # cs = a @ x @ b"
    proof cases
      case 1
      then obtain b where "c # cs = x @ b" by (auto simp: prefix_def)
      then have "c # cs = [] @ x @ b" by simp
      then show ?thesis by blast
    next
      case 2
      with Cons.IH obtain a b where "cs = a @ x @ b" by blast
      then have "c # cs = (c # a) @ x @ b" by simp
      then show ?thesis by blast
    qed
  next
    assume "\<exists>a b. c # cs = a @ x @ b"
    then obtain a b where ab: "c # cs = a @ x @ b" by blast
    show "jsIncludes (c # cs) x"
    proof (cases a)
      case Nil
      with ab have "prefix x (c # cs)" by (simp add: prefix_def)
      then show ?thesis by simp
    next
      case (Cons y ys)
      with ab have "cs = ys @ x @ b" by simp
      with Cons.IH show ?thesis by auto
    qed
  qed
qed

lemma jsIncludes_splits: "jsIncludes s sep \<longleftrightarrow> splits sep s \<noteq> []"
proof -
  have "splits sep s \<noteq> [] \<longleftrightarrow> (\<exists>a b. (a, b) \<in> set (splits sep s))"
    by (cases "splits sep s") auto
  then show ?thesis by (simp add: jsIncludes_iff splits_iff)
qed

lemma lastOption_Some: "lastOption xs = Some x \<longleftrightarrow> (xs \<noteq> [] \<and> last xs = x)"
  by (cases xs rule: rev_cases) (auto simp: lastOption_def)

lemma lastOption_None: "lastOption xs = None \<longleftrightarrow> xs = []"
  by (cases xs rule: rev_cases) (auto simp: lastOption_def)

lemma last_splits_rest:
  assumes "sep \<noteq> []" "splits sep s \<noteq> []"
  shows "\<not> jsIncludes (snd (last (splits sep s))) sep"
  using assms(2)
proof (induction s)
  case Nil
  with assms(1) show ?case by simp
next
  case (Cons c cs)
  show ?case
  proof (cases "splits sep cs = []")
    case True
    with Cons.prems have p: "prefix sep (c # cs)" and
      l: "last (splits sep (c # cs)) = ([], drop (length sep) (c # cs))"
      by (auto split: if_splits)
    from True have n: "\<not> jsIncludes cs sep" by (simp add: jsIncludes_splits)
    from assms(1) obtain k where "length sep = Suc k" by (cases sep) auto
    then have "drop (length sep) (c # cs) = drop k cs" by simp
    moreover have "\<not> jsIncludes (drop k cs) sep"
    proof
      assume "jsIncludes (drop k cs) sep"
      then obtain a b where "drop k cs = a @ sep @ b" by (auto simp: jsIncludes_iff)
      then have "cs = (take k cs @ a) @ sep @ b" by (metis append_take_drop_id append.assoc)
      then have "\<exists>a' b'. cs = a' @ sep @ b'" by blast
      with n show False by (simp add: jsIncludes_iff)
    qed
    ultimately show ?thesis using l by simp
  next
    case False
    then have "last (splits sep (c # cs)) = (\<lambda>(a, b). (c # a, b)) (last (splits sep cs))"
      by (simp add: last_map)
    then have "snd (last (splits sep (c # cs))) = snd (last (splits sep cs))"
      by (simp add: case_prod_unfold)
    with Cons.IH [OF False] show ?thesis by simp
  qed
qed

lemma middleDot_nonempty: "middleDot \<noteq> []"
  by (simp add: middleDot_def)

lemma filter_dotAll_splits:
  "dotAll s \<Longrightarrow> filter (\<lambda>(a, b). dotAll a) (splits sep s) = splits sep s"
  by (rule filter_True) (auto simp: splits_iff dotAll_def)

lemma matchGreedyBefore_Some:
  "matchGreedyBefore sep s = Some m \<Longrightarrow> \<exists>rest. s = m @ sep @ rest"
proof -
  assume "matchGreedyBefore sep s = Some m"
  then obtain b where "lastOption (filter (\<lambda>(a, b). dotAll a) (splits sep s)) = Some (m, b)"
    by (auto simp: matchGreedyBefore_def)
  then have "(m, b) \<in> set (filter (\<lambda>(a, b). dotAll a) (splits sep s))"
    by (metis lastOption_Some last_in_set)
  then show ?thesis by (auto simp: splits_iff)
qed

lemma matchGreedyBefore_None:
  "\<not> jsIncludes s sep \<Longrightarrow> matchGreedyBefore sep s = None"
  by (simp add: matchGreedyBefore_def jsIncludes_splits lastOption_def)

lemma matchGreedyBefore_last:
  assumes "sep \<noteq> []" "dotAll s" "jsIncludes s sep"
  shows "\<exists>m rest. matchGreedyBefore sep s = Some m \<and> s = m @ sep @ rest \<and> \<not> jsIncludes rest sep"
proof -
  from assms(3) have ne: "splits sep s \<noteq> []" by (simp add: jsIncludes_splits)
  obtain m rest where l: "last (splits sep s) = (m, rest)" by (cases "last (splits sep s)")
  with ne have "(m, rest) \<in> set (splits sep s)" by (metis last_in_set)
  then have s: "s = m @ sep @ rest" by (simp add: splits_iff)
  from last_splits_rest [OF assms(1) ne] l have r: "\<not> jsIncludes rest sep" by simp
  from ne l have "lastOption (splits sep s) = Some (m, rest)" by (simp add: lastOption_Some)
  then have "matchGreedyBefore sep s = Some m"
    by (simp add: matchGreedyBefore_def filter_dotAll_splits [OF assms(2)])
  with s r show ?thesis by blast
qed

lemma splits_increasing:
  "sorted_wrt (\<lambda>x y. length (fst x) < length (fst y)) (splits sep s)"
proof (induction s)
  case Nil
  then show ?case by simp
next
  case (Cons c cs)
  have "sorted_wrt (\<lambda>x y. length (fst x) < length (fst y))
      (map (\<lambda>(a, b). (c # a, b)) (splits sep cs))"
    using Cons.IH by (simp add: sorted_wrt_map case_prod_unfold)
  then show ?case by (auto simp: sorted_wrt_append)
qed

lemma sorted_wrt_last:
  "sorted_wrt R xs \<Longrightarrow> x \<in> set xs \<Longrightarrow> x = last xs \<or> R x (last xs)"
proof (induction xs)
  case Nil
  then show ?case by simp
next
  case (Cons y ys)
  then show ?case by (cases "ys = []") auto
qed

lemma matchGreedyBefore_longest:
  assumes "matchGreedyBefore sep s = Some m"
  shows "dotAll m \<and> (\<exists>rest. s = m @ sep @ rest) \<and>
    (\<forall>a r. s = a @ sep @ r \<and> dotAll a \<longrightarrow> length a \<le> length m)"
proof -
  let ?xs = "filter (\<lambda>(a, b). dotAll a) (splits sep s)"
  from assms obtain b where l: "lastOption ?xs = Some (m, b)"
    by (auto simp: matchGreedyBefore_def)
  then have ne: "?xs \<noteq> []" and la: "last ?xs = (m, b)" by (simp_all add: lastOption_Some)
  from ne la have mem: "(m, b) \<in> set ?xs" by (metis last_in_set)
  then have d: "dotAll m" and s: "s = m @ sep @ b" by (auto simp: splits_iff)
  have sw: "sorted_wrt (\<lambda>x y. length (fst x) < length (fst y)) ?xs"
    by (rule sorted_wrt_filter [OF splits_increasing])
  have "length a \<le> length m" if "s = a @ sep @ r" "dotAll a" for a r
  proof -
    from that have "(a, r) \<in> set ?xs" by (simp add: splits_iff)
    from sorted_wrt_last [OF sw this] la show ?thesis by auto
  qed
  with d s show ?thesis by blast
qed

lemma matchGreedyBefore_None_iff:
  "matchGreedyBefore sep s = None \<longleftrightarrow> \<not> (\<exists>a r. s = a @ sep @ r \<and> dotAll a)"
proof -
  have "matchGreedyBefore sep s = None \<longleftrightarrow> filter (\<lambda>(a, b). dotAll a) (splits sep s) = []"
    by (simp add: matchGreedyBefore_def lastOption_None)
  also have "\<dots> \<longleftrightarrow> \<not> (\<exists>a r. (a, r) \<in> set (splits sep s) \<and> dotAll a)"
    by (auto simp: filter_empty_conv)
  finally show ?thesis by (simp add: splits_iff)
qed

lemma collapseSpaces_head:
  "t \<noteq> [] \<Longrightarrow> \<not> isSpace (hd t) \<Longrightarrow> collapseSpaces t \<noteq> [] \<and> hd (collapseSpaces t) = hd t"
  by (cases t) auto

lemma dropWhile_head: "dropWhile P t = [] \<or> \<not> P (hd (dropWhile P t))"
  by (metis hd_dropWhile)

lemma collapseSpaces_Nil: "collapseSpaces t = [] \<longleftrightarrow> t = []"
  by (cases t) auto

lemma singleSpaced_collapse: "singleSpaced (collapseSpaces s)"
proof (induction s rule: collapseSpaces.induct)
  case 1
  then show ?case by simp
next
  case (2 c cs)
  show ?case
  proof (cases "isSpace c")
    case True
    let ?r = "dropWhile isSpace cs"
    have "collapseSpaces ?r = [] \<or> \<not> isSpace (hd (collapseSpaces ?r))"
    proof (cases "?r = []")
      case True
      then have "collapseSpaces ?r = []" by (simp only: collapseSpaces.simps)
      then show ?thesis ..
    next
      case False
      with dropWhile_head [of isSpace cs] have n: "\<not> isSpace (hd ?r)" by blast
      from collapseSpaces_head [OF False n] n show ?thesis by simp
    qed
    with True 2 show ?thesis by (simp add: isSpace_def)
  next
    case False
    with 2 show ?thesis by simp
  qed
qed

lemma collapse_singleSpaced: "singleSpaced t \<Longrightarrow> collapseSpaces t = t"
proof (induction t)
  case Nil
  then show ?case by simp
next
  case (Cons c cs)
  show ?case
  proof (cases "isSpace c")
    case True
    with Cons.prems have "c = 32" "cs = [] \<or> \<not> isSpace (hd cs)" "singleSpaced cs" by auto
    moreover from this(2) have "dropWhile isSpace cs = cs" by (cases cs) auto
    ultimately show ?thesis using True Cons.IH by simp
  next
    case False
    with Cons show ?thesis by simp
  qed
qed

lemma singleSpaced_dropWhile: "singleSpaced t \<Longrightarrow> singleSpaced (dropWhile isSpace t)"
  by (induction t) (auto split: if_splits)

lemma singleSpaced_prefix: "singleSpaced (xs @ ys) \<Longrightarrow> singleSpaced xs"
  by (induction xs) (auto split: if_splits)

lemma trimEnd_prefix: "\<exists>w. t = trimEnd t @ w"
proof -
  have "rev t = takeWhile isSpace (rev t) @ dropWhile isSpace (rev t)" by simp
  then have "t = rev (dropWhile isSpace (rev t)) @ rev (takeWhile isSpace (rev t))"
    by (metis rev_append rev_rev_ident)
  then show ?thesis unfolding trimEnd_def by blast
qed

lemma singleSpaced_trim: "singleSpaced t \<Longrightarrow> singleSpaced (trim t)"
proof -
  assume "singleSpaced t"
  then have s: "singleSpaced (trimStart t)" unfolding trimStart_def by (rule singleSpaced_dropWhile)
  from trimEnd_prefix [of "trimStart t"] obtain w where "trimStart t = trimEnd (trimStart t) @ w"
    by blast
  with s have "singleSpaced (trimEnd (trimStart t))" by (metis singleSpaced_prefix)
  then show ?thesis by (simp add: trim_def)
qed

lemma trimEnd_idem: "trimEnd (trimEnd t) = trimEnd t"
  by (simp add: trimEnd_def)

lemma trimStart_trimEnd:
  assumes "u = [] \<or> \<not> isSpace (hd u)"
  shows "trimStart (trimEnd u) = trimEnd u"
proof (cases "trimEnd u = []")
  case True
  then show ?thesis by (simp add: trimStart_def)
next
  case False
  from trimEnd_prefix [of u] obtain w where w: "u = trimEnd u @ w" by blast
  with False have "hd (trimEnd u) = hd u" by (metis hd_append2)
  moreover from False w have "u \<noteq> []" by auto
  ultimately have "\<not> isSpace (hd (trimEnd u))" using assms by simp
  with False show ?thesis unfolding trimStart_def by (cases "trimEnd u") auto
qed

lemma trim_idem: "trim (trim t) = trim t"
proof -
  have "trimStart t = [] \<or> \<not> isSpace (hd (trimStart t))"
    unfolding trimStart_def by (rule dropWhile_head)
  from trimStart_trimEnd [OF this] show ?thesis by (simp add: trim_def trimEnd_idem)
qed

lemma normalize_idem:
  "trim (collapseSpaces (trim (collapseSpaces s))) = trim (collapseSpaces s)"
proof -
  have "singleSpaced (trim (collapseSpaces s))"
    by (rule singleSpaced_trim) (rule singleSpaced_collapse)
  then have "collapseSpaces (trim (collapseSpaces s)) = trim (collapseSpaces s)"
    by (rule collapse_singleSpaced)
  then show ?thesis by (simp add: trim_idem)
qed

lemma normalize_Nil: "trim (collapseSpaces []) = []"
  by (simp add: trim_def trimStart_def trimEnd_def)

section \<open>The dispatcher goes on after a rule that throws\<close>

lemma runRules_skip:
  "isMatch r p = Inr True \<Longrightarrow> ruleGetDocInfo r p = Inl e \<Longrightarrow>
     runRules p (pre @ (name, r) # post) = runRules p (pre @ post)"
  by (induction pre) (auto split: sum.splits bool.splits)

lemma runRules_next:
  "runRules p pre = None \<Longrightarrow> isMatch r p = Inr True \<Longrightarrow> ruleGetDocInfo r p = Inr d \<Longrightarrow>
     runRules p (pre @ (name, r) # post) = Some d"
  by (induction pre) (auto split: sum.splits bool.splits)

text \<open>
  Claim C1, as amended. When a rule's \<open>isMatch\<close> returns true and its \<open>getDocInfo\<close>
  throws, the dispatcher goes on with the next rule: the result is the one the list
  without that rule gives. So when no rule before the throwing one gives a result and
  the rule after it matches and returns, that later rule's output is the result.
\<close>

theorem dispatch_continues_after_throw:
  "(isMatch r p = Inr True \<and> ruleGetDocInfo r p = Inl e \<longrightarrow>
      dispatch (pre @ (name, r) # post) p = dispatch (pre @ post) p) \<and>
   (isMatch r p = Inr True \<and> ruleGetDocInfo r p = Inl e \<and> runRules p pre = None \<and>
    isMatch r' p = Inr True \<and> ruleGetDocInfo r' p = Inr d \<longrightarrow>
      dispatch (pre @ (name, r) # (name', r') # post) p = Inr d)"
proof -
  have a: "dispatch (pre @ (name, r) # post) p = dispatch (pre @ post) p"
    if "isMatch r p = Inr True" "ruleGetDocInfo r p = Inl e" for post
    using that by (simp add: dispatch_fallback runRules_skip)
  have b: "dispatch (pre @ (name, r) # (name', r') # post) p = Inr d"
    if t: "isMatch r p = Inr True" "ruleGetDocInfo r p = Inl e" and n: "runRules p pre = None"
      and l: "isMatch r' p = Inr True" "ruleGetDocInfo r' p = Inr d"
  proof -
    from runRules_skip [OF t] runRules_next [OF n l]
    have "runRules p (pre @ (name, r) # (name', r') # post) = Some d" by simp
    then show ?thesis by (simp add: dispatch_fallback)
  qed
  from a b show ?thesis by blast
qed

lemma paper_fields:
  "href paperCommitPage = str ''https://paper.dropbox.com/commit/x#top''"
  "hostname paperCommitPage = str ''paper.dropbox.com''"
  "origin paperCommitPage = str ''https://paper.dropbox.com''"
  "pathname paperCommitPage = str ''/commit/x''"
  "docTitle paperCommitPage = str ''Notes'' @ [32, 183, 32] @ str ''Paper''"
  "querySelectorAll paperCommitPage = (\<lambda>s. [])"
  "decodeEntities paperCommitPage = decodeReferences"
  by (simp_all add: paperCommitPage_def blankPage_def)

lemma paper_match: "isMatch dropboxPaper paperCommitPage = Inr True"
  by (simp add: isMatch_simps paper_fields)

lemma paper_throws: "ruleGetDocInfo dropboxPaper paperCommitPage =
     Inl (Error (str ''Element not found: .hp-header-title-wrapper''))"
  by (simp add: dropboxPaper_def paper_fields findElement_def
      querySelector_def firstOption_def str_def)

lemma paper_commit_match: "isMatch githubCommit paperCommitPage = Inr True"
  by (simp add: isMatch_simps paper_fields str_def)

lemma paper_commit: "ruleGetDocInfo githubCommit paperCommitPage =
     Inr (linkTitle (str ''https://paper.dropbox.com/commit/x'') (str ''Notes''))"
  by (simp add: githubCommit_def paper_fields matchGreedyBefore_def
      middleDot_def lastOption_def dotAll_def isLineTerminator_def str_def)

lemma paper_first_five: "runRules paperCommitPage (take 5 rules) = None"
  by (simp add: rules_def paper_throws isMatch_simps paper_fields startsWith_def str_def)

lemma paper_getDocInfo: "getDocInfo paperCommitPage =
     Inr (linkTitle (str ''https://paper.dropbox.com/commit/x'') (str ''Notes''))"
  by (simp add: getDocInfo_def dispatch_fallback rules_def paper_throws paper_commit
      isMatch_simps paper_fields startsWith_def str_def)

lemma paper_fallback:
  "linkTitle (getUrl paperCommitPage) (getTitle paperCommitPage) =
     linkTitle (str ''https://paper.dropbox.com/commit/x#top'')
       (str ''Notes'' @ [32, 183, 32] @ str ''Paper'')"
proof -
  have u: "getUrl paperCommitPage = str ''https://paper.dropbox.com/commit/x#top''"
    by (simp add: getUrl_def getMetaContent_def querySelector_def firstOption_def
        paper_fields truthy_def getSchemaOrgUrl_def getSchemaOrgContent_def)
  have c: "cleanupContent paperCommitPage (str ''Notes'' @ [32, 183, 32] @ str ''Paper'') =
      str ''Notes'' @ [32, 183, 32] @ str ''Paper''"
    by (simp add: cleanupContent_def paper_fields namedReferences_def trim_def trimStart_def
        trimEnd_def isSpace_def str_def)
  have m: "matchService servicePatterns (str ''Notes'' @ [32, 183, 32] @ str ''Paper'') = None"
    by (simp add: servicePatterns_def matchBeforeSuffix_def lastOption_def str_def)
  have g: "getTitle paperCommitPage =
      (case matchService servicePatterns (cleanupContent paperCommitPage (docTitle paperCommitPage)) of
         Some (placeName, serviceName) \<Rightarrow> placeName @ str '' ('' @ serviceName @ str '')''
       | None \<Rightarrow> cleanupContent paperCommitPage (docTitle paperCommitPage))"
    by (simp add: getTitle_def getMetaContent_def querySelector_def firstOption_def
        truthy_def getSchemaOrgTitle_def getSchemaOrgAuthor_def getSchemaOrgContent_def
        getSchemaOrgPersonName_def orElse_def paper_fields(6) Let_def)
  have "getTitle paperCommitPage = str ''Notes'' @ [32, 183, 32] @ str ''Paper''"
    unfolding g paper_fields(5) c m by simp
  with u show ?thesis by simp
qed

text \<open>
  Claim C1 as stated fails: on the Dropbox Paper page without its header element, the
  \<open>dropboxPaper\<close> rule matches and throws, and the result is that of the later
  \<open>githubCommit\<close> rule, with the fragment off the link and the title cut. It is not the
  fallback, which the rules up to \<open>dropboxPaper\<close> alone would give.
\<close>

theorem later_rule_after_throw_counterexample:
  "isMatch dropboxPaper paperCommitPage = Inr True \<and>
   ruleGetDocInfo dropboxPaper paperCommitPage =
     Inl (Error (str ''Element not found: .hp-header-title-wrapper'')) \<and>
   getDocInfo paperCommitPage = ruleGetDocInfo githubCommit paperCommitPage \<and>
   getDocInfo paperCommitPage =
     Inr (linkTitle (str ''https://paper.dropbox.com/commit/x'') (str ''Notes'')) \<and>
   dispatch (take 5 rules) paperCommitPage =
     Inr (linkTitle (str ''https://paper.dropbox.com/commit/x#top'')
            (str ''Notes'' @ [32, 183, 32] @ str ''Paper'')) \<and>
   getDocInfo paperCommitPage \<noteq> dispatch (take 5 rules) paperCommitPage"
proof -
  have f: "dispatch (take 5 rules) paperCommitPage =
     Inr (linkTitle (str ''https://paper.dropbox.com/commit/x#top'')
            (str ''Notes'' @ [32, 183, 32] @ str ''Paper''))"
    by (simp add: dispatch_fallback paper_first_five paper_fallback)
  have "linkTitle (str ''https://paper.dropbox.com/commit/x'') (str ''Notes'') \<noteq>
      linkTitle (str ''https://paper.dropbox.com/commit/x#top'')
        (str ''Notes'' @ [32, 183, 32] @ str ''Paper'')"
    by (simp add: linkTitle_def str_def)
  with f paper_match paper_throws paper_commit paper_getDocInfo show ?thesis by simp
qed

theorem dispatch_continues_after_throw_witness:
  "isMatch dropboxPaper paperCommitPage = Inr True \<and>
   ruleGetDocInfo dropboxPaper paperCommitPage =
     Inl (Error (str ''Element not found: .hp-header-title-wrapper'')) \<and>
   take 4 rules @ (''dropboxPaper'', dropboxPaper) # drop 5 rules = rules \<and>
   dispatch rules paperCommitPage = dispatch (take 4 rules @ drop 5 rules) paperCommitPage \<and>
   dispatch (take 4 rules @ drop 5 rules) paperCommitPage =
     Inr (linkTitle (str ''https://paper.dropbox.com/commit/x'') (str ''Notes'')) \<and>
   runRules paperCommitPage [] = None \<and>
   isMatch githubCommit paperCommitPage = Inr True \<and>
   dispatch [(''dropboxPaper'', dropboxPaper), (''githubCommit'', githubCommit), (''slack'', slack)]
       paperCommitPage =
     Inr (linkTitle (str ''https://paper.dropbox.com/commit/x'') (str ''Notes'')) \<and>
   linkTitle (getUrl paperCommitPage) (getTitle paperCommitPage) \<noteq>
     linkTitle (str ''https://paper.dropbox.com/commit/x'') (str ''Notes'')"
proof -
  have s: "take 4 rules @ (''dropboxPaper'', dropboxPaper) # drop 5 rules = rules"
    by (simp add: rules_def)
  from dispatch_continues_after_throw
    [where r = dropboxPaper and p = paperCommitPage
      and e = "Error (str ''Element not found: .hp-header-title-wrapper'')"
      and pre = "take 4 rules" and name = "''dropboxPaper''" and post = "drop 5 rules"]
    paper_match paper_throws
  have "dispatch (take 4 rules @ (''dropboxPaper'', dropboxPaper) # drop 5 rules) paperCommitPage =
      dispatch (take 4 rules @ drop 5 rules) paperCommitPage" by blast
  then have a: "dispatch rules paperCommitPage =
      dispatch (take 4 rules @ drop 5 rules) paperCommitPage" by (simp only: s)
  from a paper_getDocInfo have b: "dispatch (take 4 rules @ drop 5 rules) paperCommitPage =
      Inr (linkTitle (str ''https://paper.dropbox.com/commit/x'') (str ''Notes''))"
    by (simp add: getDocInfo_def)
  from dispatch_continues_after_throw
    [where r = dropboxPaper and p = paperCommitPage
      and e = "Error (str ''Element not found: .hp-header-title-wrapper'')"
      and pre = "[]" and name = "''dropboxPaper''" and r' = githubCommit and name' = "''githubCommit''"
      and d = "linkTitle (str ''https://paper.dropbox.com/commit/x'') (str ''Notes'')"
      and post = "[(''slack'', slack)]"]
    paper_match paper_throws paper_commit_match paper_commit
  have c: "dispatch [(''dropboxPaper'', dropboxPaper), (''githubCommit'', githubCommit), (''slack'', slack)]
       paperCommitPage =
     Inr (linkTitle (str ''https://paper.dropbox.com/commit/x'') (str ''Notes''))" by simp
  have d: "linkTitle (getUrl paperCommitPage) (getTitle paperCommitPage) \<noteq>
     linkTitle (str ''https://paper.dropbox.com/commit/x'') (str ''Notes'')"
    unfolding paper_fallback by (simp add: linkTitle_def str_def)
  from s a b c d paper_match paper_throws paper_commit_match show ?thesis by simp
qed

section \<open>The dispatcher always returns\<close>

lemma runRules_Some:
  "runRules p rs = Some d \<Longrightarrow>
     \<exists>n r. (n, r) \<in> set rs \<and> isMatch r p = Inr True \<and> ruleGetDocInfo r p = Inr d"
proof (induction rs)
  case Nil
  then show ?case by simp
next
  case (Cons x rs)
  obtain n r where x: "x = (n, r)" by (cases x)
  show ?case
  proof (cases "isMatch r p = Inr True \<and> (\<exists>d'. ruleGetDocInfo r p = Inr d')")
    case True
    with Cons.prems x have "ruleGetDocInfo r p = Inr d" by auto
    with True x show ?thesis by auto
  next
    case False
    with Cons.prems x have "runRules p rs = Some d"
      by (auto split: sum.splits bool.splits)
    from Cons.IH [OF this] show ?thesis by auto
  qed
qed

lemma runRules_None:
  "list_all (\<lambda>(n, r). \<not> yields r p) rs \<Longrightarrow> runRules p rs = None"
  by (induction rs) (auto simp: yields_def split: sum.splits bool.splits)

lemma dispatch_total: "\<exists>d. dispatch rs p = Inr d"
  by (simp add: dispatch_fallback split: option.splits)

text \<open>
  Claim C2. The dispatcher returns a \<open>DocInfo\<close> for every rule list and every page, and
  so does \<open>getDocInfo\<close>. A rule whose \<open>isMatch\<close> throws, and a rule that matches and whose
  \<open>getDocInfo\<close> throws, is passed over: the result is that of the rules after it. The
  fallback, which runs outside the \<open>try\<close> block, throws nothing: \<open>getUrl\<close> and \<open>getTitle\<close>
  return on every page. When no rule yields a result, the result is the fallback
  \<open>{ link: getUrl(), title: getTitle() }\<close>; and a result is always either the fallback or
  what a matching rule returned.
\<close>

theorem getDocInfo_always_returns:
  "(\<exists>d. dispatch rs p = Inr d) \<and>
   (\<exists>d. getDocInfo p = Inr d) \<and>
   getUrlE p = Inr (getUrl p) \<and> getTitleE p = Inr (getTitle p) \<and>
   (isMatch r p = Inl e \<longrightarrow> dispatch ((n, r) # rs) p = dispatch rs p) \<and>
   (isMatch r p = Inr True \<and> ruleGetDocInfo r p = Inl e \<longrightarrow>
      dispatch ((n, r) # rs) p = dispatch rs p) \<and>
   (list_all (\<lambda>(n, r). \<not> yields r p) rs \<longrightarrow>
      dispatch rs p = Inr (linkTitle (getUrl p) (getTitle p))) \<and>
   (list_all (\<lambda>(n, r). \<not> yields r p) rules \<longrightarrow>
      getDocInfo p = Inr (linkTitle (getUrl p) (getTitle p))) \<and>
   (\<forall>d. getDocInfo p = Inr d \<longrightarrow>
      d = linkTitle (getUrl p) (getTitle p) \<or>
      (\<exists>n r. (n, r) \<in> set rules \<and> isMatch r p = Inr True \<and> ruleGetDocInfo r p = Inr d))"
proof -
  have a: "\<exists>d. dispatch rs p = Inr d" by (rule dispatch_total)
  have b: "\<exists>d. getDocInfo p = Inr d" unfolding getDocInfo_def by (rule dispatch_total)
  have s1: "dispatch ((n, r) # rs) p = dispatch rs p" if "isMatch r p = Inl e"
    using that by (simp add: dispatch_def)
  have s2: "dispatch ((n, r) # rs) p = dispatch rs p"
    if "isMatch r p = Inr True" "ruleGetDocInfo r p = Inl e"
    using that by (simp add: dispatch_def)
  have c: "dispatch rs p = Inr (linkTitle (getUrl p) (getTitle p))"
    if "list_all (\<lambda>(n, r). \<not> yields r p) rs" for rs
    using runRules_None [OF that] by (simp add: dispatch_fallback)
  have d: "d = linkTitle (getUrl p) (getTitle p) \<or>
      (\<exists>n r. (n, r) \<in> set rules \<and> isMatch r p = Inr True \<and> ruleGetDocInfo r p = Inr d)"
    if "getDocInfo p = Inr d" for d
    using that runRules_Some [of p rules]
    by (auto simp: getDocInfo_def dispatch_fallback split: option.splits)
  from a b s1 s2 c [of rs] c [of rules] d getUrlE_total [of p] getTitleE_total [of p]
  show ?thesis unfolding getDocInfo_def by blast
qed

lemma plain_fields:
  "href paperPlainPage = str ''https://paper.dropbox.com/doc/x''"
  "hostname paperPlainPage = str ''paper.dropbox.com''"
  "pathname paperPlainPage = str ''/doc/x''"
  "docTitle paperPlainPage = str ''Notes''"
  "querySelectorAll paperPlainPage = (\<lambda>s. [])"
  "decodeEntities paperPlainPage = decodeReferences"
  by (simp_all add: paperPlainPage_def blankPage_def)

lemma plain_match: "isMatch dropboxPaper paperPlainPage = Inr True"
  by (simp add: isMatch_simps plain_fields)

lemma plain_throws: "ruleGetDocInfo dropboxPaper paperPlainPage =
     Inl (Error (str ''Element not found: .hp-header-title-wrapper''))"
  by (simp add: dropboxPaper_def plain_fields findElement_def
      querySelector_def firstOption_def str_def)

lemma plain_no_rule: "list_all (\<lambda>(n, r). \<not> yields r paperPlainPage) rules"
  by (simp add: rules_def yields_def isMatch_simps plain_throws plain_fields startsWith_def
      isDatadogHost_def str_def)

lemma plain_fallback:
  "linkTitle (getUrl paperPlainPage) (getTitle paperPlainPage) =
     linkTitle (str ''https://paper.dropbox.com/doc/x'') (str ''Notes'')"
proof -
  have u: "getUrl paperPlainPage = str ''https://paper.dropbox.com/doc/x''"
    by (simp add: getUrl_def getMetaContent_def querySelector_def firstOption_def
        plain_fields truthy_def getSchemaOrgUrl_def getSchemaOrgContent_def)
  have c: "cleanupContent paperPlainPage (str ''Notes'') = str ''Notes''"
    by (simp add: cleanupContent_def plain_fields namedReferences_def trim_def trimStart_def
        trimEnd_def isSpace_def str_def)
  have m: "matchService servicePatterns (str ''Notes'') = None"
    by (simp add: servicePatterns_def matchBeforeSuffix_def lastOption_def str_def)
  have g: "getTitle paperPlainPage =
      (case matchService servicePatterns (cleanupContent paperPlainPage (docTitle paperPlainPage)) of
         Some (placeName, serviceName) \<Rightarrow> placeName @ str '' ('' @ serviceName @ str '')''
       | None \<Rightarrow> cleanupContent paperPlainPage (docTitle paperPlainPage))"
    by (simp add: getTitle_def getMetaContent_def querySelector_def firstOption_def
        truthy_def getSchemaOrgTitle_def getSchemaOrgAuthor_def getSchemaOrgContent_def
        getSchemaOrgPersonName_def orElse_def plain_fields(5) Let_def)
  have "getTitle paperPlainPage = str ''Notes''"
    unfolding g plain_fields(4) c m by simp
  with u show ?thesis by simp
qed

lemma throwing_rules:
  "isMatch throwingMatch p = Inl TypeError"
  "isMatch throwingExtract p = Inr True"
  "ruleGetDocInfo throwingExtract p = Inl (Error (str ''Element not found: h1''))"
  by (simp_all add: throwingMatch_def throwingExtract_def)

theorem getDocInfo_always_returns_witness:
  "isMatch dropboxPaper paperPlainPage = Inr True \<and>
   ruleGetDocInfo dropboxPaper paperPlainPage =
     Inl (Error (str ''Element not found: .hp-header-title-wrapper'')) \<and>
   list_all (\<lambda>(n, r). \<not> yields r paperPlainPage) rules \<and>
   getDocInfo paperPlainPage =
     Inr (linkTitle (str ''https://paper.dropbox.com/doc/x'') (str ''Notes'')) \<and>
   isMatch throwingMatch paperPlainPage = Inl TypeError \<and>
   isMatch throwingExtract paperPlainPage = Inr True \<and>
   ruleGetDocInfo throwingExtract paperPlainPage = Inl (Error (str ''Element not found: h1'')) \<and>
   dispatch [(''first'', throwingMatch), (''second'', throwingExtract)] paperPlainPage =
     Inr (linkTitle (str ''https://paper.dropbox.com/doc/x'') (str ''Notes''))"
proof -
  from getDocInfo_always_returns [where p = paperPlainPage] plain_no_rule
  have g: "getDocInfo paperPlainPage =
      Inr (linkTitle (getUrl paperPlainPage) (getTitle paperPlainPage))" by blast
  from getDocInfo_always_returns
    [where p = paperPlainPage and r = throwingMatch and e = TypeError and n = "''first''"
      and rs = "[(''second'', throwingExtract)]"] throwing_rules(1)
  have 1: "dispatch [(''first'', throwingMatch), (''second'', throwingExtract)] paperPlainPage =
      dispatch [(''second'', throwingExtract)] paperPlainPage" by blast
  from getDocInfo_always_returns
    [where p = paperPlainPage and r = throwingExtract
      and e = "Error (str ''Element not found: h1'')" and n = "''second''" and rs = "[]"]
    throwing_rules(2,3)
  have 2: "dispatch [(''second'', throwingExtract)] paperPlainPage = dispatch [] paperPlainPage"
    and 3: "dispatch [] paperPlainPage =
      Inr (linkTitle (getUrl paperPlainPage) (getTitle paperPlainPage))" by simp_all
  from g 1 2 3 plain_match plain_throws plain_no_rule throwing_rules show ?thesis
    by (simp add: plain_fallback)
qed

section \<open>The monitor rule selects the first qualifying heading\<close>

lemma selectAlert_find:
  "map_option fst (selectAlert h1Text h3s) = find (\<lambda>h3. h3Qualifies h1Text (textContent h3)) h3s"
  by (induction h3s) (auto simp: h3Qualifies_def Let_def)

lemma selectAlert_type:
  "selectAlert h1Text h3s = Some (x, ty) \<Longrightarrow>
     h3Qualifies h1Text (textContent x) \<and>
     ty = (if jsIncludes (textContent x) (str ''[Triggered'') then str ''Triggered'' else str ''Warn'')"
  by (induction h3s) (auto simp: h3Qualifies_def Let_def split: if_splits)

lemma selectAlert_first:
  "list_all (\<lambda>h. \<not> h3Qualifies h1Text (textContent h)) pre \<Longrightarrow>
   h3Qualifies h1Text (textContent x) \<Longrightarrow>
   selectAlert h1Text (pre @ x # post) =
     Some (x, if jsIncludes (textContent x) (str ''[Triggered'') then str ''Triggered'' else str ''Warn'')"
  by (induction pre) (auto simp: h3Qualifies_def Let_def)

lemma monitor_fields:
  "href monitorPage = str ''https://app.datadoghq.com/monitors/33333''"
  "hostname monitorPage = str ''app.datadoghq.com''"
  "pathname monitorPage = str ''/monitors/33333''"
  "docTitle monitorPage = str ''Datadog Monitor Page''"
  "querySelectorAll monitorPage = (\<lambda>selector.
                 if selector = str ''h1'' then [monitorH1]
                 else if selector = str ''h3'' then [monitorH3a, monitorH3b]
                 else if selector = str ''.druids_time_date-range-picker'' then [monitorPicker]
                 else [])"
  "elemQuerySelectorAll monitorPage = (\<lambda>element selector.
                 if sameElement element monitorPicker \<and> selector = str ''input''
                 then [monitorInput] else [])"
  "inputValue monitorPage = (\<lambda>element.
                 if sameElement element monitorInput
                 then Some (str ''Jul 25, 2pm '' @ [8211] @ str '' 3pm'') else None)"
  by (simp_all add: monitorPage_def blankPage_def)

lemma monitor_timeRange:
  "getDatadogTimeRange monitorPage = str '' (Jul 25, 2pm '' @ [8211] @ str '' 3pm)''"
  by (simp add: getDatadogTimeRange_def querySelector_def elemQuerySelector_def firstOption_def
      monitor_fields monitorPicker_def monitorInput_def truthy_def render_def str_def)

lemma monitor_h1: "monitorH1Text monitorPage = str ''Disk Space Alert''"
  by (simp add: monitorH1Text_def findElement_def querySelector_def firstOption_def
      monitor_fields monitorH1_def trim_def trimStart_def trimEnd_def isSpace_def str_def)

lemma monitor_tags:
  "curlyTags (str ''{environment:production} Disk Space Alert'') = [str ''{environment:production}'']"
  by (simp add: str_def)

lemma monitor_move:
  "moveCurlyTags (str ''{environment:production} Disk Space Alert'') =
     str ''Disk Space Alert{environment:production}''"
  by (simp add: moveCurlyTags_def monitor_tags Let_def endsWith_def trim_def trimStart_def
      trimEnd_def isSpace_def str_def)


lemma monitor_rule:
  "ruleGetDocInfo datadogMonitor monitorPage =
     Inr (linkTitle (str ''https://app.datadoghq.com/monitors/33333'')
            (str ''Disk Space Alert{environment:production} (Jul 25, 2pm '' @ [8211] @ str '' 3pm)''))"
proof -
  have q: "h3Qualifies (str ''Disk Space Alert'') (textContent monitorH3a)"
    by (simp add: h3Qualifies_def monitorH3a_def str_def)
  have s: "selectAlert (str ''Disk Space Alert'') [monitorH3a, monitorH3b] =
      Some (monitorH3a, str ''Triggered'')"
    using selectAlert_first [of "str ''Disk Space Alert''" "[]" monitorH3a "[monitorH3b]"] q
    by (simp add: monitorH3a_def str_def)
  have m: "stripMarker (str ''Triggered'') (textContent monitorH3a) =
      str ''{environment:production} Disk Space Alert''"
    by (simp add: stripMarker_def monitorH3a_def isSpace_def str_def)
  have sel: "selectAlert (monitorH1Text monitorPage) (querySelectorAll monitorPage (str ''h3'')) =
      Some (monitorH3a, str ''Triggered'')"
    using s by (simp add: monitor_h1 monitor_fields str_def)
  have ne: "str ''Triggered'' \<noteq> []" by (simp add: str_def)
  have "ruleGetDocInfo datadogMonitor monitorPage =
      Inr (linkTitle (href monitorPage)
        (moveCurlyTags (stripMarker (str ''Triggered'') (textContent monitorH3a)) @
         getDatadogTimeRange monitorPage))"
    using sel ne by (simp add: datadogMonitor_def Let_def)
  also have "\<dots> = Inr (linkTitle (str ''https://app.datadoghq.com/monitors/33333'')
        (str ''Disk Space Alert{environment:production}'' @
         (str '' (Jul 25, 2pm '' @ [8211] @ str '' 3pm)'')))"
    by (simp only: m monitor_move monitor_timeRange monitor_fields)
  also have "\<dots> = Inr (linkTitle (str ''https://app.datadoghq.com/monitors/33333'')
        (str ''Disk Space Alert{environment:production} (Jul 25, 2pm '' @ [8211] @ str '' 3pm)''))"
    by (simp add: str_def)
  finally show ?thesis .
qed

lemma monitor_getDocInfo: "getDocInfo monitorPage = ruleGetDocInfo datadogMonitor monitorPage"
  by (simp add: getDocInfo_def dispatch_fallback rules_def isMatch_simps monitor_fields startsWith_def
      isDatadogHost_def monitor_rule str_def)

lemma selectAlert_none:
  "list_all (\<lambda>h. \<not> h3Qualifies h1Text (textContent h)) h3s \<Longrightarrow> selectAlert h1Text h3s = None"
  by (induction h3s) (auto simp: h3Qualifies_def Let_def)

lemma monitorH1Text_page: "monitorH1Text p = pageH1Text p"
  by (simp add: monitorH1Text_def pageH1Text_def findElement_def querySelector_def
      firstOption_def split: list.splits)

lemma other_fields:
  "href otherAlertPage = str ''https://app.datadoghq.com/monitors/55555''"
  "docTitle otherAlertPage = str ''Datadog Monitor Page''"
  "querySelectorAll otherAlertPage = (\<lambda>selector.
                 if selector = str ''h1'' then [otherAlertH1]
                 else if selector = str ''h3'' then [otherAlertH3a, otherAlertH3b]
                 else [])"
  "elemQuerySelectorAll otherAlertPage = (\<lambda>element selector. [])"
  by (simp_all add: otherAlertPage_def blankPage_def)

lemma other_h1: "pageH1Text otherAlertPage = str ''Disk Space Alert''"
  by (simp add: pageH1Text_def other_fields otherAlertH1_def trim_def trimStart_def trimEnd_def
      isSpace_def str_def)

lemma other_h3s: "querySelectorAll otherAlertPage (str ''h3'') = [otherAlertH3a] @ otherAlertH3b # []"
  by (simp add: other_fields str_def)

lemma other_first:
  "jsIncludes (textContent otherAlertH3a) (str ''[Triggered'')"
  "\<not> h3Qualifies (str ''Disk Space Alert'') (textContent otherAlertH3a)"
  by (simp_all add: h3Qualifies_def otherAlertH3a_def str_def)

lemma other_second: "h3Qualifies (str ''Disk Space Alert'') (textContent otherAlertH3b)"
  by (simp add: h3Qualifies_def otherAlertH3b_def str_def)

lemma other_title:
  "moveCurlyTags (stripMarker (alertTypeOf (textContent otherAlertH3b)) (textContent otherAlertH3b)) @
     getDatadogTimeRange otherAlertPage = str ''Disk Space Alert on db''"
proof -
  have a: "alertTypeOf (textContent otherAlertH3b) = str ''Warn''"
    by (simp add: alertTypeOf_def otherAlertH3b_def str_def)
  have s: "stripMarker (str ''Warn'') (textContent otherAlertH3b) = str ''Disk Space Alert on db''"
    by (simp add: stripMarker_def otherAlertH3b_def isSpace_def str_def)
  have c: "curlyTags (str ''Disk Space Alert on db'') = []" by (simp add: str_def)
  have m: "moveCurlyTags (str ''Disk Space Alert on db'') = str ''Disk Space Alert on db''"
    by (simp add: moveCurlyTags_def c)
  have t: "getDatadogTimeRange otherAlertPage = []"
    by (simp add: getDatadogTimeRange_def querySelector_def firstOption_def other_fields str_def)
  show ?thesis by (simp only: a s m t append_Nil2)
qed

text \<open>
  Claim C4. The \<open>h1\<close> text that \<open>datadogMonitor\<close> compares with is the trimmed text of the
  page's first \<open>h1\<close> element, empty when there is none. An \<open>h3\<close> text qualifies when it
  contains \<open>[Triggered\<close> or \<open>[Warn\<close> and, when the \<open>h1\<close> text is not empty, that text. The
  element selected is the first, in document order, whose text qualifies: when the \<open>h3\<close>
  elements before \<open>x\<close> do not qualify and \<open>x\<close> does, the title is computed from the text
  of \<open>x\<close> whatever follows it. When no \<open>h3\<close> text qualifies, the title is the \<open>h1\<close> text
  or, when that is empty, the document title. On the page of the example the title is
  \<open>Disk Space Alert{environment:production} (Jul 25, 2pm - 3pm)\<close>, the dash being
  U+2013.
\<close>

theorem datadogMonitor_first_qualifying_h3:
  "monitorH1Text p = pageH1Text p \<and>
   map_option fst (selectAlert h1Text h3s) =
     find (\<lambda>h3. h3Qualifies h1Text (textContent h3)) h3s \<and>
   (querySelectorAll p (str ''h3'') = pre @ x # post \<and>
    list_all (\<lambda>h. \<not> h3Qualifies (pageH1Text p) (textContent h)) pre \<and>
    h3Qualifies (pageH1Text p) (textContent x) \<longrightarrow>
      ruleGetDocInfo datadogMonitor p =
        Inr (linkTitle (href p)
               (moveCurlyTags (stripMarker (alertTypeOf (textContent x)) (textContent x)) @
                getDatadogTimeRange p))) \<and>
   (list_all (\<lambda>h. \<not> h3Qualifies (pageH1Text p) (textContent h)) (querySelectorAll p (str ''h3'')) \<longrightarrow>
      ruleGetDocInfo datadogMonitor p =
        Inr (linkTitle (href p)
               ((if pageH1Text p \<noteq> [] then pageH1Text p else docTitle p) @
                getDatadogTimeRange p))) \<and>
   getDocInfo monitorPage =
     Inr (linkTitle (str ''https://app.datadoghq.com/monitors/33333'')
            (str ''Disk Space Alert{environment:production} (Jul 25, 2pm '' @ [8211] @ str '' 3pm)''))"
proof -
  have b: "ruleGetDocInfo datadogMonitor p =
        Inr (linkTitle (href p)
               (moveCurlyTags (stripMarker (alertTypeOf (textContent x)) (textContent x)) @
                getDatadogTimeRange p))"
    if h3: "querySelectorAll p (str ''h3'') = pre @ x # post"
      and pre: "list_all (\<lambda>h. \<not> h3Qualifies (pageH1Text p) (textContent h)) pre"
      and x: "h3Qualifies (pageH1Text p) (textContent x)"
  proof -
    have ne: "alertTypeOf (textContent x) \<noteq> []" by (simp add: alertTypeOf_def str_def)
    from selectAlert_first [OF pre x]
    have "selectAlert (monitorH1Text p) (querySelectorAll p (str ''h3'')) =
        Some (x, alertTypeOf (textContent x))"
      by (simp add: h3 monitorH1Text_page alertTypeOf_def)
    then show ?thesis using ne by (simp add: datadogMonitor_def Let_def)
  qed
  have c: "ruleGetDocInfo datadogMonitor p =
        Inr (linkTitle (href p)
               ((if pageH1Text p \<noteq> [] then pageH1Text p else docTitle p) @
                getDatadogTimeRange p))"
    if "list_all (\<lambda>h. \<not> h3Qualifies (pageH1Text p) (textContent h)) (querySelectorAll p (str ''h3''))"
    using selectAlert_none [OF that]
    by (simp add: datadogMonitor_def Let_def monitorH1Text_page)
  from monitorH1Text_page [of p] selectAlert_find [of h1Text h3s] b c monitor_getDocInfo monitor_rule
  show ?thesis by simp
qed

theorem datadogMonitor_first_qualifying_h3_witness:
  "pageH1Text otherAlertPage = str ''Disk Space Alert'' \<and>
   querySelectorAll otherAlertPage (str ''h3'') = [otherAlertH3a] @ otherAlertH3b # [] \<and>
   jsIncludes (textContent otherAlertH3a) (str ''[Triggered'') \<and>
   \<not> h3Qualifies (pageH1Text otherAlertPage) (textContent otherAlertH3a) \<and>
   h3Qualifies (pageH1Text otherAlertPage) (textContent otherAlertH3b) \<and>
   ruleGetDocInfo datadogMonitor otherAlertPage =
     Inr (linkTitle (str ''https://app.datadoghq.com/monitors/55555'')
            (str ''Disk Space Alert on db'')) \<and>
   pageH1Text monitorPage = str ''Disk Space Alert'' \<and>
   querySelectorAll monitorPage (str ''h3'') = [] @ monitorH3a # [monitorH3b] \<and>
   h3Qualifies (pageH1Text monitorPage) (textContent monitorH3a) \<and>
   h3Qualifies (pageH1Text monitorPage) (textContent monitorH3b) \<and>
   map_option fst (selectAlert (pageH1Text monitorPage) [monitorH3a, monitorH3b]) =
     Some monitorH3a \<and>
   ruleGetDocInfo datadogMonitor monitorPage =
     Inr (linkTitle (str ''https://app.datadoghq.com/monitors/33333'')
            (str ''Disk Space Alert{environment:production} (Jul 25, 2pm '' @ [8211] @ str '' 3pm)''))"
proof -
  have o: "list_all (\<lambda>h. \<not> h3Qualifies (pageH1Text otherAlertPage) (textContent h)) [otherAlertH3a]"
    by (simp add: other_h1 other_first)
  from datadogMonitor_first_qualifying_h3
    [where p = otherAlertPage and pre = "[otherAlertH3a]" and x = otherAlertH3b and post = "[]"]
    other_h3s o other_second
  have "ruleGetDocInfo datadogMonitor otherAlertPage =
      Inr (linkTitle (href otherAlertPage)
        (moveCurlyTags (stripMarker (alertTypeOf (textContent otherAlertH3b)) (textContent otherAlertH3b)) @
         getDatadogTimeRange otherAlertPage))"
    by (simp add: other_h1)
  then have r: "ruleGetDocInfo datadogMonitor otherAlertPage =
     Inr (linkTitle (str ''https://app.datadoghq.com/monitors/55555'')
            (str ''Disk Space Alert on db''))"
    by (simp only: other_title other_fields)
  have m1: "pageH1Text monitorPage = str ''Disk Space Alert''"
    using monitorH1Text_page [of monitorPage] monitor_h1 by simp
  have h3: "querySelectorAll monitorPage (str ''h3'') = [] @ monitorH3a # [monitorH3b]"
    by (simp add: monitor_fields str_def)
  have qa: "h3Qualifies (pageH1Text monitorPage) (textContent monitorH3a)"
    by (simp add: m1 h3Qualifies_def monitorH3a_def str_def)
  have qb: "h3Qualifies (pageH1Text monitorPage) (textContent monitorH3b)"
    by (simp add: m1 h3Qualifies_def monitorH3b_def str_def)
  have f: "find (\<lambda>h3. h3Qualifies (pageH1Text monitorPage) (textContent h3))
      [monitorH3a, monitorH3b] = Some monitorH3a"
    using qa by simp
  from datadogMonitor_first_qualifying_h3
    [where h1Text = "pageH1Text monitorPage" and h3s = "[monitorH3a, monitorH3b]"]
  have "map_option fst (selectAlert (pageH1Text monitorPage) [monitorH3a, monitorH3b]) =
      find (\<lambda>h3. h3Qualifies (pageH1Text monitorPage) (textContent h3)) [monitorH3a, monitorH3b]"
    by blast
  with f have s: "map_option fst (selectAlert (pageH1Text monitorPage) [monitorH3a, monitorH3b]) =
      Some monitorH3a" by simp
  from r s m1 h3 qa qb other_h1 other_h3s other_first other_second monitor_rule
  show ?thesis by simp
qed

section \<open>Cleaning content twice\<close>

text \<open>
  Claim C5, as amended. \<open>cleanupContent\<close> is idempotent on every string whose cleaned
  form is left as it is by entity decoding; and the white-space stage, which collapses
  each run to one space and trims both ends, is idempotent.
\<close>

theorem cleanupContent_idempotent_when_decoded:
  "(decodeEntities p (cleanupContent p s) = cleanupContent p s \<longrightarrow>
      cleanupContent p (cleanupContent p s) = cleanupContent p s) \<and>
   trim (collapseSpaces (trim (collapseSpaces s))) = trim (collapseSpaces s)"
  by (simp add: cleanupContent_def normalize_idem)

lemma blank_decode: "decodeEntities blankPage = decodeReferences"
  by (simp add: blankPage_def)

lemma amp_once: "cleanupContent blankPage (str ''&amp;amp;'') = str ''&amp;''"
  by (simp add: cleanupContent_def blank_decode namedReferences_def trim_def trimStart_def
      trimEnd_def isSpace_def str_def)

lemma amp_twice: "cleanupContent blankPage (str ''&amp;'') = str ''&''"
  by (simp add: cleanupContent_def blank_decode namedReferences_def trim_def trimStart_def
      trimEnd_def isSpace_def str_def)

text \<open>
  Claim C5 as stated fails: \<open>&amp;amp;\<close> is cleaned to \<open>&amp;\<close>, and \<open>&amp;\<close> to \<open>&\<close>.
\<close>

theorem cleanupContent_not_idempotent_counterexample:
  "cleanupContent blankPage (str ''&amp;amp;'') = str ''&amp;'' \<and>
   cleanupContent blankPage (cleanupContent blankPage (str ''&amp;amp;'')) = str ''&'' \<and>
   cleanupContent blankPage (cleanupContent blankPage (str ''&amp;amp;'')) \<noteq>
     cleanupContent blankPage (str ''&amp;amp;'')"
  by (simp add: amp_once amp_twice) (simp add: str_def)

lemma spaced_once: "cleanupContent blankPage (str '' a  b '') = str ''a b''"
  by (simp add: cleanupContent_def blank_decode namedReferences_def trim_def trimStart_def
      trimEnd_def isSpace_def str_def)

lemma spaced_decoded: "decodeEntities blankPage (str ''a b'') = str ''a b''"
  by (simp add: blank_decode namedReferences_def str_def)

theorem cleanupContent_idempotent_when_decoded_witness:
  "cleanupContent blankPage (str '' a  b '') = str ''a b'' \<and>
   decodeEntities blankPage (str ''a b'') = str ''a b'' \<and>
   cleanupContent blankPage (cleanupContent blankPage (str '' a  b '')) =
     cleanupContent blankPage (str '' a  b '')"
proof -
  have "decodeEntities blankPage (cleanupContent blankPage (str '' a  b '')) =
      cleanupContent blankPage (str '' a  b '')"
    by (simp add: spaced_once spaced_decoded)
  with cleanupContent_idempotent_when_decoded [of blankPage "str '' a  b ''"]
  have "cleanupContent blankPage (cleanupContent blankPage (str '' a  b '')) =
     cleanupContent blankPage (str '' a  b '')" by blast
  with spaced_once spaced_decoded show ?thesis by simp
qed

section \<open>The traversal never returns its start element\<close>

lemma firstMatch_append:
  "firstMatch c (xs @ ys) = (case firstMatch c xs of Inr None \<Rightarrow> firstMatch c ys | r \<Rightarrow> r)"
  by (induction xs) (auto split: sum.splits bool.splits option.splits)

lemma afterStart_append:
  "afterStart s (xs @ ys) =
     (if \<exists>n \<in> set xs. sameElement n s then afterStart s xs @ ys else afterStart s ys)"
  by (induction xs) (auto simp: afterStart_def)

lemma afterStart_none: "\<not> (\<exists>n \<in> set xs. sameElement n s) \<Longrightarrow> afterStart s xs = []"
  by (induction xs) (auto simp: afterStart_def)

lemma drive_append:
  "drive s c fs (xs @ ys) =
     (case drive s c fs xs of Inr None \<Rightarrow> drive s c (flagAfter s fs xs) ys | r \<Rightarrow> r)"
  by (auto simp: drive_def flagAfter_def firstMatch_append afterStart_append afterStart_none
      split: sum.splits option.splits)

lemma flagAfter_append: "flagAfter s fs (xs @ ys) = flagAfter s (flagAfter s fs xs) ys"
  by (auto simp: flagAfter_def)

lemma dfs_char:
  "snd (dfsTraversal s c fs n) = drive s c fs (preorder n) \<and>
   (snd (dfsTraversal s c fs n) = Inr None \<longrightarrow> fst (dfsTraversal s c fs n) = flagAfter s fs (preorder n))"
  "snd (dfsChildren s c fs ns) = drive s c fs (preorderList ns) \<and>
   (snd (dfsChildren s c fs ns) = Inr None \<longrightarrow> fst (dfsChildren s c fs ns) = flagAfter s fs (preorderList ns))"
proof (induction s c fs n and s c fs ns rule: dfsTraversal_dfsChildren.induct)
  case (1 s c fs t)
  then show ?case by (simp add: drive_def flagAfter_def afterStart_def)
next
  case (2 s c fs i tg as ch)
  then show ?case
    by (auto simp: drive_def flagAfter_def afterStart_def split: sum.splits bool.splits)
next
  case (3 s c fs)
  then show ?case by (simp add: drive_def flagAfter_def afterStart_def)
next
  case (4 s c fs t cs)
  then show ?case by simp
next
  case (5 s c fs i tg as ch cs)
  then show ?case
    apply (simp only: dfsChildren.simps preorderList.simps drive_append flagAfter_append)
    apply (cases "dfsTraversal s c fs (Element i tg as ch)")
    apply (auto split: sum.splits option.splits)
    done
qed


lemma firstMatch_mem: "firstMatch c xs = Inr (Some r) \<Longrightarrow> r \<in> set xs \<and> c r = Inr True"
  by (induction xs) (auto split: sum.splits bool.splits)

lemma firstMatch_cong: "(\<forall>n \<in> set xs. c' n = c n) \<Longrightarrow> firstMatch c' xs = firstMatch c xs"
  by (induction xs) (auto split: sum.splits bool.splits)

lemma elementIds_append: "elementIds (xs @ ys) = elementIds xs @ elementIds ys"
  by (induction xs rule: elementIds.induct) auto

lemma elementIds_mem: "Element j tg as ch \<in> set xs \<Longrightarrow> j \<in> set (elementIds xs)"
  by (induction xs rule: elementIds.induct) auto

lemma afterStart_Cons:
  "afterStart s (x # xs) = (if sameElement x s then xs else afterStart s xs)"
  by (simp add: afterStart_def)

lemma sameElement_ids: "sameElement r s \<Longrightarrow> sameElement x s \<Longrightarrow> \<exists>i tg as ch tg' as' ch'. r = Element i tg as ch \<and> x = Element i tg' as' ch'"
  by (cases r; cases x; cases s) auto

lemma afterStart_not_start:
  "distinct (elementIds xs) \<Longrightarrow> r \<in> set (afterStart s xs) \<Longrightarrow> \<not> sameElement r s"
proof (induction xs)
  case Nil
  then show ?case by (simp add: afterStart_def)
next
  case (Cons x xs)
  show ?case
  proof (cases "sameElement x s")
    case True
    with Cons.prems have r: "r \<in> set xs" by (simp add: afterStart_Cons)
    show ?thesis
    proof
      assume "sameElement r s"
      from sameElement_ids [OF this True] obtain i tg as ch tg' as' ch'
        where "r = Element i tg as ch" "x = Element i tg' as' ch'" by blast
      with r Cons.prems(1) show False by (auto dest: elementIds_mem)
    qed
  next
    case False
    with Cons.prems have "r \<in> set (afterStart s xs)" by (simp add: afterStart_Cons)
    moreover from Cons.prems(1) have "distinct (elementIds xs)" by (cases x) auto
    ultimately show ?thesis using Cons.IH by blast
  qed
qed

lemma afterStart_mid: "set (afterStart s ys) \<subseteq> set (afterStart s (xs @ ys @ zs))"
proof -
  have a: "set (afterStart s ys) \<subseteq> set (afterStart s (ys @ zs))"
    by (auto simp: afterStart_append afterStart_none)
  have c: "set (afterStart s w) \<subseteq> set w" for w
    by (auto simp: afterStart_def dest: in_set_dropD set_dropWhileD)
  have b: "set (afterStart s w) \<subseteq> set (afterStart s (xs @ w))" for w
    using c [of w] by (induction xs) (auto simp: afterStart_Cons)
  from a b [of "ys @ zs"] show ?thesis by blast
qed

lemma preorderList_split:
  "b \<in> set ch \<Longrightarrow> \<exists>pre post. preorderList ch = pre @ preorder b @ post"
proof (induction ch)
  case Nil
  then show ?case by simp
next
  case (Cons c cs)
  show ?case
  proof (cases "b = c")
    case True
    have "preorderList (c # cs) = [] @ preorder b @ preorderList cs" using True by simp
    then show ?thesis by blast
  next
    case False
    with Cons obtain pre post where "preorderList cs = pre @ preorder b @ post" by auto
    then have "preorderList (c # cs) = (preorder c @ pre) @ preorder b @ post" by simp
    then show ?thesis by blast
  qed
qed

lemma body_split:
  assumes "body p = Some b"
  shows "\<exists>pre post. preorder (documentElement p) = pre @ preorder b @ post"
proof (cases "documentElement p")
  case (Element i tg as ch)
  with assms have "b \<in> set ch"
    by (auto simp: body_def split: if_splits dest: find_Some_iff [THEN iffD1] simp: in_set_conv_nth)
  from preorderList_split [OF this] obtain pre post
    where "preorderList ch = pre @ preorder b @ post" by blast
  then have "preorder (documentElement p) = (Element i tg as ch # pre) @ preorder b @ post"
    using Element by simp
  then show ?thesis by blast
next
  case (TextNode t)
  with assms show ?thesis by (simp add: body_def str_def)
qed

lemma findNextElementDFS_char:
  "findNextElementDFS p s c =
     (case body p of
        None \<Rightarrow> Inl TypeError
      | Some b \<Rightarrow>
          (case firstMatch c (afterStart s (preorder b)) of
             Inl e \<Rightarrow> Inl e
           | Inr (Some r) \<Rightarrow> Inr (Some r)
           | Inr None \<Rightarrow> firstMatch c (afterStart s (preorder (documentElement p)))))"
  by (auto simp: findNextElementDFS_def dfs_char drive_def split: option.splits sum.splits)

text \<open>
  Claim C6. In a document whose elements are distinct objects, \<open>findNextElementDFS\<close>
  never returns the start element: an element it returns stands strictly after the start
  element in the depth-first pre-order of the document. The condition is evaluated only
  on those elements: two conditions that agree on them give the same result, whatever
  they say of the start element.
\<close>

theorem findNextElementDFS_excludes_start:
  assumes "distinct (elementIds (preorder (documentElement p)))"
  shows "(\<forall>r. findNextElementDFS p s c = Inr (Some r) \<longrightarrow>
            \<not> sameElement r s \<and> r \<in> set (afterStart s (preorder (documentElement p)))) \<and>
         (\<forall>c'. (\<forall>n \<in> set (afterStart s (preorder (documentElement p))). c' n = c n) \<longrightarrow>
            findNextElementDFS p s c' = findNextElementDFS p s c)"
proof (cases "body p")
  case None
  then show ?thesis by (simp add: findNextElementDFS_char)
next
  case (Some b)
  from body_split [OF Some] obtain pre post
    where sp: "preorder (documentElement p) = pre @ preorder b @ post" by blast
  have sub: "set (afterStart s (preorder b)) \<subseteq> set (afterStart s (preorder (documentElement p)))"
    unfolding sp by (rule afterStart_mid)
  have mem: "r \<in> set (afterStart s (preorder (documentElement p)))"
    if "findNextElementDFS p s c = Inr (Some r)" for r
    using that sub Some
    by (auto simp: findNextElementDFS_char split: sum.splits option.splits dest!: firstMatch_mem)
  have one: "\<not> sameElement r s" if "findNextElementDFS p s c = Inr (Some r)" for r
    using afterStart_not_start [OF assms mem [OF that]] .
  have two: "findNextElementDFS p s c' = findNextElementDFS p s c"
    if h: "\<forall>n \<in> set (afterStart s (preorder (documentElement p))). c' n = c n" for c'
  proof -
    from h sub have "\<forall>n \<in> set (afterStart s (preorder b)). c' n = c n" by blast
    then have "firstMatch c' (afterStart s (preorder b)) = firstMatch c (afterStart s (preorder b))"
      by (rule firstMatch_cong)
    moreover from h have "firstMatch c' (afterStart s (preorder (documentElement p)))
        = firstMatch c (afterStart s (preorder (documentElement p)))"
      by (rule firstMatch_cong)
    ultimately show ?thesis by (auto simp: findNextElementDFS_char Some split: sum.splits option.splits)
  qed
  from one mem two show ?thesis by blast
qed

lemma sample_document:
  "documentElement samplePage =
     Element 0 (str ''HTML'') []
       [Element 1 (str ''HEAD'') [] [], Element 2 (str ''BODY'') [] [sampleDiv, sampleCode]]"
  by (simp add: samplePage_def)

lemma sample_body: "body samplePage = Some (Element 2 (str ''BODY'') [] [sampleDiv, sampleCode])"
  by (simp add: body_def sample_document isBody_def str_def)

lemma sample_distinct: "distinct (elementIds (preorder (documentElement samplePage)))"
  by (simp add: sample_document sampleDiv_def sampleSpan_def sampleCode_def)

lemma sample_next:
  "findNextElementDFS samplePage sampleDiv (\<lambda>n. Inr True) = Inr (Some sampleSpan)"
  by (simp add: findNextElementDFS_def sample_body sampleDiv_def sampleSpan_def sampleCode_def)

theorem findNextElementDFS_excludes_start_witness:
  "distinct (elementIds (preorder (documentElement samplePage))) \<and>
   findNextElementDFS samplePage sampleDiv (\<lambda>n. Inr True) = Inr (Some sampleSpan) \<and>
   \<not> sameElement sampleSpan sampleDiv \<and>
   sampleSpan \<in> set (afterStart sampleDiv (preorder (documentElement samplePage)))"
proof -
  from findNextElementDFS_excludes_start [OF sample_distinct, of sampleDiv "\<lambda>n. Inr True"] sample_next
  have "\<not> sameElement sampleSpan sampleDiv \<and>
        sampleSpan \<in> set (afterStart sampleDiv (preorder (documentElement samplePage)))"
    by blast
  with sample_distinct sample_next show ?thesis by simp
qed

section \<open>The dummy element is always removed\<close>

lemma sameElement_fresh: "maxId c < d \<Longrightarrow> \<not> sameElement c (Element d tg as ch)"
  by (cases c) auto

lemma removeFromParent_fresh:
  "maxId t < d \<Longrightarrow> removeFromParent (Element d tg as ch) t = t"
  "maxIdList ts < d \<Longrightarrow> removeFromList (Element d tg as ch) ts = ts"
  by (induction t and ts rule: maxId_maxIdList.induct) (auto simp: sameElement_fresh)

lemma removeFromList_append_fresh:
  "maxIdList ts < d \<Longrightarrow> removeFromList (Element d tg as ch) (ts @ [Element d tg as ch]) = ts"
  by (induction ts) (auto simp: sameElement_fresh removeFromParent_fresh)

lemma updateChildren_root: "sameElement (updateChildren b f c) n = sameElement c n"
  by (cases c) auto

lemma remove_update:
  assumes f: "\<And>cs. maxIdList cs < d \<Longrightarrow> removeFromList (Element d tg as ch) (f cs) = cs"
  shows "maxId t < d \<Longrightarrow> removeFromParent (Element d tg as ch) (updateChildren b f t) = t"
    and "maxIdList ts < d \<Longrightarrow> removeFromList (Element d tg as ch) (updateChildrenList b f ts) = ts"
  by (induction t and ts rule: maxId_maxIdList.induct)
     (auto simp: f updateChildren_root sameElement_fresh removeFromParent_fresh)

lemma remove_insert:
  "maxId t < d \<Longrightarrow>
     removeFromParent (Element d tg as ch) (insertBeforeFirstChild b (Element d tg as ch) t) = t"
  by (cases b) (auto simp: remove_update removeFromParent_fresh)

lemma remove_append:
  "maxId t < d \<Longrightarrow>
     removeFromParent (Element d tg as ch) (appendChild b (Element d tg as ch) t) = t"
  by (cases b) (auto simp: remove_update removeFromParent_fresh removeFromList_append_fresh)

lemma preorder_maxId:
  "n \<in> set (preorder t) \<Longrightarrow> maxId n \<le> maxId t"
  "n \<in> set (preorderList ts) \<Longrightarrow> maxId n \<le> maxIdList ts"
  by (induction t and ts rule: preorder_preorderList.induct) auto

text \<open>
  Claim C7. Whatever the condition does (a match, no match, an exception),
  \<open>findFirstInWholeDFS\<close> leaves the page as it found it, and no element of the document
  it leaves is the dummy element it had inserted.
\<close>

theorem findFirstInWholeDFS_restores_document:
  "snd (findFirstInWholeDFS p condition) = p \<and>
   (\<forall>n \<in> set (preorder (documentElement (snd (findFirstInWholeDFS p condition)))).
      \<not> sameElement n (createElement p (str ''DIV'')))"
proof -
  have fresh: "maxId (documentElement p) < Suc (maxId (documentElement p))" by simp
  have one: "snd (findFirstInWholeDFS p condition) = p"
    by (cases "body p")
       (simp_all add: findFirstInWholeDFS_def createElement_def Let_def
          remove_insert [OF fresh] remove_append [OF fresh])
  have two: "\<not> sameElement n (createElement p (str ''DIV''))"
    if "n \<in> set (preorder (documentElement p))" for n
    using preorder_maxId(1) [OF that] by (cases n) (auto simp: createElement_def)
  from one two show ?thesis by simp
qed

lemma sample_throw:
  "fst (findFirstInWholeDFS samplePage (\<lambda>n. Inl TypeError)) = Inl TypeError"
  by (simp add: findFirstInWholeDFS_def sample_body Let_def findNextElementDFS_def body_def
      isBody_def sample_document createElement_def sampleDiv_def sampleSpan_def sampleCode_def str_def)

theorem findFirstInWholeDFS_restores_document_witness:
  "findFirstInWholeDFS samplePage (\<lambda>n. Inl TypeError) = (Inl TypeError, samplePage) \<and>
   \<not> sameElement sampleDiv (createElement samplePage (str ''DIV''))"
proof -
  have "sampleDiv \<in> set (preorder (documentElement samplePage))"
    by (simp add: sample_document sampleDiv_def)
  with findFirstInWholeDFS_restores_document [of samplePage "\<lambda>n. Inl TypeError"] sample_throw
  show ?thesis by (auto simp: prod_eq_iff)
qed

section \<open>The order of the generic title\<close>

lemma singleSpaced_dotAll: "singleSpaced t \<Longrightarrow> dotAll t"
  by (induction t) (auto simp: dotAll_def isLineTerminator_def isSpace_def split: if_splits)

lemma cleanupContent_dotAll: "dotAll (cleanupContent p s)"
proof (cases "s = []")
  case True
  then show ?thesis by (simp add: cleanupContent_def dotAll_def)
next
  case False
  have "singleSpaced (trim (collapseSpaces (decodeEntities p s)))"
    by (rule singleSpaced_trim) (rule singleSpaced_collapse)
  with False show ?thesis by (simp add: cleanupContent_def singleSpaced_dotAll)
qed

lemma dotAll_append: "dotAll (a @ b) \<longleftrightarrow> dotAll a \<and> dotAll b"
  by (simp add: dotAll_def)

lemma matchBeforeSuffix_iff:
  "matchBeforeSuffix suf s = Some a \<longleftrightarrow> s = a @ suf \<and> dotAll a"
proof
  assume "matchBeforeSuffix suf s = Some a"
  then obtain b where "lastOption (filter (\<lambda>(a, b). dotAll a \<and> b = []) (splits suf s)) = Some (a, b)"
    by (auto simp: matchBeforeSuffix_def)
  then have "(a, b) \<in> set (filter (\<lambda>(a, b). dotAll a \<and> b = []) (splits suf s))"
    by (metis lastOption_Some last_in_set)
  then show "s = a @ suf \<and> dotAll a" by (auto simp: splits_iff)
next
  assume h: "s = a @ suf \<and> dotAll a"
  let ?xs = "filter (\<lambda>(a, b). dotAll a \<and> b = []) (splits suf s)"
  from h have "(a, []) \<in> set ?xs" by (auto simp: splits_iff)
  then have ne: "?xs \<noteq> []" by (metis empty_iff list.set(1))
  then have "last ?xs \<in> set ?xs" by (rule last_in_set)
  then have "last ?xs = (a, [])" using h by (auto simp: splits_iff)
  with ne have "lastOption ?xs = Some (a, [])" by (simp add: lastOption_Some)
  then show "matchBeforeSuffix suf s = Some a" by (simp add: matchBeforeSuffix_def)
qed

lemma matchBeforeSuffix_None:
  "\<not> suffix suf s \<Longrightarrow> matchBeforeSuffix suf s = None"
proof (rule ccontr)
  assume n: "\<not> suffix suf s" and "matchBeforeSuffix suf s \<noteq> None"
  then obtain a where "matchBeforeSuffix suf s = Some a" by auto
  then have "s = a @ suf" by (simp add: matchBeforeSuffix_iff)
  with n show False by (simp add: suffix_def)
qed

lemma service_suffixes_exclusive:
  assumes "x \<in> set serviceNames" "y \<in> set serviceNames" "x \<noteq> y"
    "suffix (str '' - '' @ x) d"
  shows "\<not> suffix (str '' - '' @ y) d"
proof
  assume "suffix (str '' - '' @ y) d"
  with assms(4) have "suffix (str '' - '' @ x) (str '' - '' @ y) \<or> suffix (str '' - '' @ y) (str '' - '' @ x)"
    by (rule suffix_same_cases)
  with assms(1-3) show False
    by (auto simp: serviceNames_def str_def suffix_to_prefix)
qed

lemma service_replace:
  "x \<in> set serviceNames \<Longrightarrow> replaceFirst (str '' - '' @ x) (str '' - '') [] = x"
  by (auto simp: serviceNames_def str_def)

lemma servicePatterns_names: "servicePatterns = map (\<lambda>x. str '' - '' @ x) serviceNames"
  by (simp add: servicePatterns_def serviceNames_def str_def)

lemma serviceNames_nonempty: "x \<in> set serviceNames \<Longrightarrow> x \<noteq> []"
  by (auto simp: serviceNames_def str_def)

lemma matchService_none:
  "\<forall>x \<in> set names. \<not> suffix (str '' - '' @ x) d \<Longrightarrow>
     matchService (map (\<lambda>x. str '' - '' @ x) names) d = None"
  by (induction names) (auto simp: matchBeforeSuffix_None)

lemma matchService_found:
  assumes "set names \<subseteq> set serviceNames" "x \<in> set names" "d = place @ str '' - '' @ x" "dotAll d"
  shows "matchService (map (\<lambda>x. str '' - '' @ x) names) d = Some (place, x)"
  using assms(1,2)
proof (induction names)
  case Nil
  then show ?case by simp
next
  case (Cons y ys)
  have suf: "suffix (str '' - '' @ x) d" using assms(3) by (simp add: suffix_def)
  from assms(3,4) have dp: "dotAll place" by (simp add: dotAll_append)
  show ?case
  proof (cases "y = x")
    case True
    have "matchBeforeSuffix (str '' - '' @ x) d = Some place"
      using assms(3) dp by (simp add: matchBeforeSuffix_iff)
    moreover have "replaceFirst (str '' - '' @ x) (str '' - '') [] = x"
      using Cons.prems by (auto intro: service_replace)
    moreover have "x \<in> set serviceNames" using Cons.prems by auto
    then have "x \<noteq> []" by (rule serviceNames_nonempty)
    ultimately show ?thesis using True by (simp add: Let_def)
  next
    case False
    from Cons.prems have yx: "y \<in> set serviceNames" "x \<in> set serviceNames" by auto
    from service_suffixes_exclusive [OF yx(2) yx(1) _ suf] False
    have "\<not> suffix (str '' - '' @ y) d" by auto
    then have "matchBeforeSuffix (str '' - '' @ y) d = None" by (rule matchBeforeSuffix_None)
    moreover from Cons.prems False have "x \<in> set ys" "set ys \<subseteq> set serviceNames" by auto
    ultimately show ?thesis using Cons.IH by simp
  qed
qed


lemma getTitle_og:
  assumes "truthy (getMetaContent p (str ''og:title''))"
  shows "getTitle p =
     (let cleaned = cleanupContent p (render (getMetaContent p (str ''og:title'')));
          base = (if getMetaContent p (str ''og:type'') = Some (str ''books.book'')
                  then (case indexOf cleaned (str '':'') of
                          Some i \<Rightarrow> trim (take i cleaned) | None \<Rightarrow> cleaned)
                  else cleaned)
      in if jsIncludes (hostname p) (str ''youtube.com'') \<or> jsIncludes (hostname p) (str ''youtube.'')
         then (case matchGreedySplit (str '' - '') base of
                 Some (video, channel) \<Rightarrow> trim video @ str '' ('' @ trim channel @ str '')''
               | None \<Rightarrow>
                   if truthy (getSchemaOrgAuthor p)
                   then base @ str '' ('' @ render (getSchemaOrgAuthor p) @ str '')''
                   else base)
         else base)"
  unfolding getTitle_def Let_def using assms
  by (simp split: option.splits prod.splits)

lemma getMetaContent_docTitle: "getMetaContent (p\<lparr>docTitle := t\<rparr>) x = getMetaContent p x"
  by (simp add: getMetaContent_def querySelector_def)

lemma cleanupContent_docTitle: "cleanupContent (p\<lparr>docTitle := t\<rparr>) x = cleanupContent p x"
  by (simp add: cleanupContent_def)

lemma closestItemScopeIs_docTitle:
  "closestItemScopeIs (p\<lparr>docTitle := t\<rparr>) i = closestItemScopeIs p i"
  by (rule ext) (simp add: closestItemScopeIs_def)

lemma getSchemaOrgContent_docTitle:
  "getSchemaOrgContent (p\<lparr>docTitle := t\<rparr>) a b = getSchemaOrgContent p a b"
  unfolding getSchemaOrgContent_def querySelector_def closestItemScopeIs_docTitle
  by (simp cong: option.case_cong)

lemma getSchemaOrgPersonName_docTitle:
  "getSchemaOrgPersonName (p\<lparr>docTitle := t\<rparr>) a b = getSchemaOrgPersonName p a b"
  unfolding getSchemaOrgPersonName_def querySelector_def elemQuerySelector_def
    getSchemaOrgContent_docTitle Let_def
  by (simp cong: option.case_cong)

lemma getSchemaOrgAuthor_docTitle: "getSchemaOrgAuthor (p\<lparr>docTitle := t\<rparr>) = getSchemaOrgAuthor p"
  unfolding getSchemaOrgAuthor_def getSchemaOrgPersonName_docTitle ..

lemma getTitle_og_docTitle:
  assumes "truthy (getMetaContent p (str ''og:title''))"
  shows "getTitle (p\<lparr>docTitle := t\<rparr>) = getTitle p"
proof -
  from assms have "truthy (getMetaContent (p\<lparr>docTitle := t\<rparr>) (str ''og:title''))"
    by (simp add: getMetaContent_docTitle)
  from getTitle_og [OF this] have "getTitle (p\<lparr>docTitle := t\<rparr>) =
     (let cleaned = cleanupContent p (render (getMetaContent p (str ''og:title'')));
          base = (if getMetaContent p (str ''og:type'') = Some (str ''books.book'')
                  then (case indexOf cleaned (str '':'') of
                          Some i \<Rightarrow> trim (take i cleaned) | None \<Rightarrow> cleaned)
                  else cleaned)
      in if jsIncludes (hostname p) (str ''youtube.com'') \<or> jsIncludes (hostname p) (str ''youtube.'')
         then (case matchGreedySplit (str '' - '') base of
                 Some (video, channel) \<Rightarrow> trim video @ str '' ('' @ trim channel @ str '')''
               | None \<Rightarrow>
                   if truthy (getSchemaOrgAuthor p)
                   then base @ str '' ('' @ render (getSchemaOrgAuthor p) @ str '')''
                   else base)
         else base)"
    by (simp only: getMetaContent_docTitle cleanupContent_docTitle getSchemaOrgAuthor_docTitle)
      simp
  with getTitle_og [OF assms] show ?thesis by simp
qed

lemma getTitle_schema:
  assumes "\<not> truthy (getMetaContent p (str ''og:title''))" "truthy (getSchemaOrgTitle p)"
  shows "getTitle p =
     (if truthy (getSchemaOrgAuthor p)
      then cleanupContent p (render (getSchemaOrgTitle p)) @ str '' ('' @
           cleanupContent p (render (getSchemaOrgAuthor p)) @ str '')''
      else cleanupContent p (render (getSchemaOrgTitle p)))"
  using assms by (simp add: getTitle_def Let_def)

lemma getTitle_document:
  assumes "\<not> truthy (getMetaContent p (str ''og:title''))" "\<not> truthy (getSchemaOrgTitle p)"
  shows "getTitle p =
     (case matchService servicePatterns (cleanupContent p (docTitle p)) of
        Some (place, service) \<Rightarrow> place @ str '' ('' @ service @ str '')''
      | None \<Rightarrow> cleanupContent p (docTitle p))"
  using assms by (simp add: getTitle_def Let_def)


text \<open>
  Claim C8. \<open>getTitle\<close> follows a strict order.
  \<^item> With a non-empty \<open>og:title\<close>, the result is computed from it: it is the cleaned
    \<open>og:title\<close>, cut before the first colon for a \<open>books.book\<close>, and, on a YouTube host,
    rearranged as \<open>video (channel)\<close> or followed by the schema.org author. Neither the
    schema.org title nor \<open>document.title\<close> enters it: changing \<open>document.title\<close>
    leaves the result as it is.
  \<^item> Otherwise, with a schema.org title, the result is that title, cleaned, followed
    by the cleaned schema.org author in parentheses when there is one.
  \<^item> Otherwise the result is the cleaned \<open>document.title\<close>, and \<open>Place (Service)\<close>
    when that is \<open>Place - Service\<close> for one of the four known services.
\<close>

theorem getTitle_fallback_order:
  "(truthy (getMetaContent p (str ''og:title'')) \<longrightarrow>
      getTitle (p\<lparr>docTitle := t'\<rparr>) = getTitle p \<and>
      getTitle p =
        (let cleaned = cleanupContent p (render (getMetaContent p (str ''og:title'')));
             base = (if getMetaContent p (str ''og:type'') = Some (str ''books.book'')
                     then (case indexOf cleaned (str '':'') of
                             Some i \<Rightarrow> trim (take i cleaned) | None \<Rightarrow> cleaned)
                     else cleaned)
         in if jsIncludes (hostname p) (str ''youtube.com'') \<or>
               jsIncludes (hostname p) (str ''youtube.'')
            then (case matchGreedySplit (str '' - '') base of
                    Some (video, channel) \<Rightarrow> trim video @ str '' ('' @ trim channel @ str '')''
                  | None \<Rightarrow>
                      if truthy (getSchemaOrgAuthor p)
                      then base @ str '' ('' @ render (getSchemaOrgAuthor p) @ str '')''
                      else base)
            else base)) \<and>
   (\<not> truthy (getMetaContent p (str ''og:title'')) \<and> truthy (getSchemaOrgTitle p) \<longrightarrow>
      getTitle p =
        (if truthy (getSchemaOrgAuthor p)
         then cleanupContent p (render (getSchemaOrgTitle p)) @ str '' ('' @
              cleanupContent p (render (getSchemaOrgAuthor p)) @ str '')''
         else cleanupContent p (render (getSchemaOrgTitle p)))) \<and>
   (\<not> truthy (getMetaContent p (str ''og:title'')) \<and> \<not> truthy (getSchemaOrgTitle p) \<longrightarrow>
      (\<forall>place service. service \<in> set serviceNames \<and>
          cleanupContent p (docTitle p) = place @ str '' - '' @ service \<longrightarrow>
          getTitle p = place @ str '' ('' @ service @ str '')'') \<and>
      ((\<forall>service \<in> set serviceNames.
          \<not> suffix (str '' - '' @ service) (cleanupContent p (docTitle p))) \<longrightarrow>
          getTitle p = cleanupContent p (docTitle p)))"
proof -
  have a: "getTitle p = place @ str '' ('' @ service @ str '')''"
    if "\<not> truthy (getMetaContent p (str ''og:title''))" "\<not> truthy (getSchemaOrgTitle p)"
      "service \<in> set serviceNames" "cleanupContent p (docTitle p) = place @ str '' - '' @ service"
    for place service
  proof -
    have "matchService servicePatterns (cleanupContent p (docTitle p)) = Some (place, service)"
      unfolding servicePatterns_names
      by (rule matchService_found [OF subset_refl that(3) that(4)]) (rule cleanupContent_dotAll)
    with getTitle_document [OF that(1,2)] show ?thesis by simp
  qed
  have b: "getTitle p = cleanupContent p (docTitle p)"
    if "\<not> truthy (getMetaContent p (str ''og:title''))" "\<not> truthy (getSchemaOrgTitle p)"
      "\<forall>service \<in> set serviceNames.
          \<not> suffix (str '' - '' @ service) (cleanupContent p (docTitle p))"
  proof -
    have "matchService servicePatterns (cleanupContent p (docTitle p)) = None"
      unfolding servicePatterns_names by (rule matchService_none [OF that(3)])
    with getTitle_document [OF that(1,2)] show ?thesis by simp
  qed
  from a b getTitle_og [of p] getTitle_og_docTitle [of p t'] getTitle_schema [of p]
  show ?thesis by blast
qed

lemma og_fields:
  "hostname ogPage = str ''example.com''"
  "querySelectorAll ogPage = (\<lambda>selector.
                 if selector = str ''meta[property='' @ quoted (str ''og:title'') @ str '']''
                 then [ogMeta] else [])"
  "decodeEntities ogPage = decodeReferences"
  by (simp_all add: ogPage_def blankPage_def)

lemma og_title: "getMetaContent ogPage (str ''og:title'') = Some (str ''Tom  &amp; Jerry '')"
  by (simp add: getMetaContent_def querySelector_def firstOption_def og_fields ogMeta_def
      quoted_def str_def)

lemma og_type: "getMetaContent ogPage (str ''og:type'') = None"
  by (simp add: getMetaContent_def querySelector_def firstOption_def og_fields
      quoted_def str_def)

lemma og_clean: "cleanupContent ogPage (str ''Tom  &amp; Jerry '') = str ''Tom & Jerry''"
  by (simp add: cleanupContent_def og_fields namedReferences_def trim_def trimStart_def
      trimEnd_def isSpace_def str_def)

lemma og_host: "\<not> (jsIncludes (hostname ogPage) (str ''youtube.com'') \<or>
               jsIncludes (hostname ogPage) (str ''youtube.''))"
  by (simp add: og_fields str_def)

lemma maps_fields:
  "docTitle mapsPage = str ''Eiffel Tower - Google Maps''"
  "querySelectorAll mapsPage = (\<lambda>selector. [])"
  "decodeEntities mapsPage = decodeReferences"
  by (simp_all add: mapsPage_def blankPage_def)

lemma maps_og: "\<not> truthy (getMetaContent mapsPage (str ''og:title''))"
  by (simp add: getMetaContent_def querySelector_def firstOption_def maps_fields truthy_def)

lemma maps_schema: "\<not> truthy (getSchemaOrgTitle mapsPage)"
  by (simp add: getSchemaOrgTitle_def getSchemaOrgContent_def querySelector_def firstOption_def
      maps_fields truthy_def orElse_def)

lemma maps_clean:
  "cleanupContent mapsPage (docTitle mapsPage) = str ''Eiffel Tower'' @ str '' - '' @ str ''Google Maps''"
  by (simp add: cleanupContent_def maps_fields namedReferences_def trim_def trimStart_def
      trimEnd_def isSpace_def str_def)

lemma article_fields:
  "querySelectorAll articlePage = (\<lambda>selector.
                 if selector = str ''[itemscope][itemtype='' @ quoted (str ''http://schema.org/Article'') @ str '']''
                 then [articleItem] else [])"
  "elemQuerySelectorAll articlePage = (\<lambda>element selector.
                 if sameElement element articleItem \<and>
                    selector = str ''meta[itemprop='' @ quoted (str ''headline'') @ str '']''
                 then [articleHeadline] else [])"
  "closest articlePage = (\<lambda>element selector.
                 if sameElement element articleHeadline \<and> selector = str ''[itemscope]''
                 then Some articleItem else None)"
  "decodeEntities articlePage = decodeReferences"
  by (simp_all add: articlePage_def blankPage_def)

lemma article_og: "\<not> truthy (getMetaContent articlePage (str ''og:title''))"
  by (simp add: getMetaContent_def querySelector_def firstOption_def article_fields truthy_def
      quoted_def str_def)

lemma article_content:
  "getSchemaOrgContent articlePage itemType property =
     (if itemType = str ''http://schema.org/Article'' \<and> property = str ''headline''
      then Some (str ''Big News'') else None)"
  by (simp add: getSchemaOrgContent_def querySelector_def firstOption_def article_fields
      closestItemScopeIs_def articleItem_def articleHeadline_def quoted_def str_def)

lemma article_title: "getSchemaOrgTitle articlePage = Some (str ''Big News'')"
  by (simp add: getSchemaOrgTitle_def article_content orElse_def truthy_def str_def)

lemma article_person:
  "getSchemaOrgPersonName articlePage itemType (str ''author'') = None"
  by (simp add: getSchemaOrgPersonName_def querySelector_def elemQuerySelector_def firstOption_def
      article_fields article_content Let_def articleItem_def quoted_def str_def)

lemma article_author: "getSchemaOrgAuthor articlePage = None"
  by (simp add: getSchemaOrgAuthor_def article_person truthy_def)

lemma article_clean: "cleanupContent articlePage (str ''Big News'') = str ''Big News''"
  by (simp add: cleanupContent_def article_fields namedReferences_def trim_def trimStart_def
      trimEnd_def isSpace_def str_def)

theorem getTitle_fallback_order_witness:
  "truthy (getMetaContent ogPage (str ''og:title'')) \<and>
   getTitle ogPage = str ''Tom & Jerry'' \<and>
   \<not> truthy (getMetaContent articlePage (str ''og:title'')) \<and>
   truthy (getSchemaOrgTitle articlePage) \<and>
   getTitle articlePage = str ''Big News'' \<and>
   \<not> truthy (getMetaContent mapsPage (str ''og:title'')) \<and>
   \<not> truthy (getSchemaOrgTitle mapsPage) \<and>
   getTitle mapsPage = str ''Eiffel Tower (Google Maps)''"
proof -
  have t: "truthy (getMetaContent ogPage (str ''og:title''))"
    unfolding og_title by (simp add: truthy_def str_def)
  with getTitle_fallback_order [of ogPage "[]"]
  have "getTitle ogPage =
        (let cleaned = cleanupContent ogPage (render (getMetaContent ogPage (str ''og:title'')));
             base = (if getMetaContent ogPage (str ''og:type'') = Some (str ''books.book'')
                     then (case indexOf cleaned (str '':'') of
                             Some i \<Rightarrow> trim (take i cleaned) | None \<Rightarrow> cleaned)
                     else cleaned)
         in if jsIncludes (hostname ogPage) (str ''youtube.com'') \<or>
               jsIncludes (hostname ogPage) (str ''youtube.'')
            then (case matchGreedySplit (str '' - '') base of
                    Some (video, channel) \<Rightarrow> trim video @ str '' ('' @ trim channel @ str '')''
                  | None \<Rightarrow>
                      if truthy (getSchemaOrgAuthor ogPage)
                      then base @ str '' ('' @ render (getSchemaOrgAuthor ogPage) @ str '')''
                      else base)
            else base)"
    by blast
  then have og: "getTitle ogPage = str ''Tom & Jerry''"
    using og_host by (simp add: og_title og_type render_def og_clean Let_def)
  have st: "truthy (getSchemaOrgTitle articlePage)"
    unfolding article_title by (simp add: truthy_def str_def)
  with getTitle_fallback_order [of articlePage "[]"] article_og
  have "getTitle articlePage =
        (if truthy (getSchemaOrgAuthor articlePage)
         then cleanupContent articlePage (render (getSchemaOrgTitle articlePage)) @ str '' ('' @
              cleanupContent articlePage (render (getSchemaOrgAuthor articlePage)) @ str '')''
         else cleanupContent articlePage (render (getSchemaOrgTitle articlePage)))"
    by blast
  then have ar: "getTitle articlePage = str ''Big News''"
    by (simp add: article_author article_title truthy_def render_def article_clean)
  have "str ''Google Maps'' \<in> set serviceNames" by (simp add: serviceNames_def)
  with getTitle_fallback_order [of mapsPage "[]"] maps_og maps_schema maps_clean
  have "getTitle mapsPage = str ''Eiffel Tower'' @ str '' ('' @ str ''Google Maps'' @ str '')''"
    by blast
  then have mp: "getTitle mapsPage = str ''Eiffel Tower (Google Maps)''" by (simp add: str_def)
  from t og article_og st ar maps_og maps_schema mp show ?thesis by simp
qed

section \<open>The optional fields come from the slack rule only\<close>

lemma getDocInfo_result:
  "getDocInfo p = Inr d \<Longrightarrow>
     d = linkTitle (getUrl p) (getTitle p) \<or>
     (\<exists>n r. (n, r) \<in> set rules \<and> isMatch r p = Inr True \<and> ruleGetDocInfo r p = Inr d)"
  using runRules_Some [of p rules d]
  by (auto simp: getDocInfo_def dispatch_fallback split: option.splits)

lemma linkTitle_only: "onlyLinkAndTitle (linkTitle l t)"
  by (simp add: linkTitle_def onlyLinkAndTitle_def)

lemma shape_graphiteFigma: "ruleGetDocInfo graphiteFigma p = Inr d \<Longrightarrow> \<exists>l t. d = linkTitle l t"
  by (auto simp: graphiteFigma_def Let_def)

lemma shape_FigmaGithub: "ruleGetDocInfo FigmaGithub p = Inr d \<Longrightarrow> \<exists>l t. d = linkTitle l t"
  by (auto simp: FigmaGithub_def split: sum.splits prod.splits)

lemma shape_figmaDeploys: "ruleGetDocInfo figmaDeploys p = Inr d \<Longrightarrow> \<exists>l t. d = linkTitle l t"
  by (auto simp: figmaDeploys_def Let_def split: sum.splits)

lemma shape_docsAndDesignTools: "ruleGetDocInfo docsAndDesignTools p = Inr d \<Longrightarrow> \<exists>l t. d = linkTitle l t"
  by (auto simp: docsAndDesignTools_def Let_def split: if_splits option.splits)

lemma shape_dropboxPaper: "ruleGetDocInfo dropboxPaper p = Inr d \<Longrightarrow> \<exists>l t. d = linkTitle l t"
  by (auto simp: dropboxPaper_def split: sum.splits)

lemma shape_amazon: "ruleGetDocInfo amazon p = Inr d \<Longrightarrow> \<exists>l t. d = linkTitle l t"
  by (auto simp: amazon_def split: sum.splits)

lemma shape_awsDocs: "ruleGetDocInfo awsDocs p = Inr d \<Longrightarrow> \<exists>l t. d = linkTitle l t"
  by (auto simp: awsDocs_def split: option.splits)

lemma shape_githubCommit: "ruleGetDocInfo githubCommit p = Inr d \<Longrightarrow> \<exists>l t. d = linkTitle l t"
  by (auto simp: githubCommit_def Let_def split: option.splits)

lemma shape_datadogMonitor: "ruleGetDocInfo datadogMonitor p = Inr d \<Longrightarrow> \<exists>l t. d = linkTitle l t"
  by (auto simp: datadogMonitor_def Let_def split: option.splits if_splits prod.splits)

lemma shape_datadogNotebook: "ruleGetDocInfo datadogNotebook p = Inr d \<Longrightarrow> \<exists>l t. d = linkTitle l t"
  by (auto simp: datadogNotebook_def Let_def split: option.splits)

lemma shape_datadogLogs: "ruleGetDocInfo datadogLogs p = Inr d \<Longrightarrow> \<exists>l t. d = linkTitle l t"
  by (auto simp: datadogLogs_def Let_def split: option.splits if_splits prod.splits sum.splits)

lemma shape_datadogGeneral: "ruleGetDocInfo datadogGeneral p = Inr d \<Longrightarrow> \<exists>l t. d = linkTitle l t"
  by (auto simp: datadogGeneral_def)

lemma shape_temporal: "ruleGetDocInfo temporal p = Inr d \<Longrightarrow> \<exists>l t. d = linkTitle l t"
  by (auto simp: temporal_def Let_def split: if_splits sum.splits)

lemma shape_notion: "ruleGetDocInfo notion p = Inr d \<Longrightarrow> \<exists>l t. d = linkTitle l t"
  by (auto simp: notion_def Let_def)

lemma shape_asana: "ruleGetDocInfo asana p = Inr d \<Longrightarrow> \<exists>l t. d = linkTitle l t"
  by (auto simp: asana_def Let_def split: option.splits)

lemma shape_greenhouse: "ruleGetDocInfo greenhouse p = Inr d \<Longrightarrow> \<exists>l t. d = linkTitle l t"
  by (auto simp: greenhouse_def Let_def split: sum.splits)

lemma shape_launchDarkly: "ruleGetDocInfo launchDarkly p = Inr d \<Longrightarrow> \<exists>l t. d = linkTitle l t"
  by (auto simp: launchDarkly_def Let_def split: option.splits)

lemma shape_goodreads: "ruleGetDocInfo goodreads p = Inr d \<Longrightarrow> \<exists>l t. d = linkTitle l t"
  by (auto simp: goodreads_def Let_def split: list.splits if_splits)

lemma slackExtract_present: "slackExtract p = Inr d \<Longrightarrow> allFivePresent d"
  by (auto simp: slackExtract_def Let_def allFivePresent_def split: prod.splits sum.splits option.splits)

lemma shape_slack:
  "ruleGetDocInfo slack p = Inr d \<Longrightarrow>
     (allFivePresent d \<and> slackExtract p = Inr d) \<or> d = linkTitle (href p) (docTitle p @ str '' (Slack)'')"
  by (auto simp: slack_def slackExtract_present split: sum.splits)

lemma shape_others:
  assumes "(name, r) \<in> set rules" and "name \<noteq> ''slack''" and "ruleGetDocInfo r p = Inr d"
  shows "onlyLinkAndTitle d"
proof -
  from assms(1,2) have "r \<in> {graphiteFigma, FigmaGithub, figmaDeploys, docsAndDesignTools,
      dropboxPaper, amazon, awsDocs, githubCommit, datadogMonitor, datadogNotebook, datadogLogs,
      datadogGeneral, temporal, notion, asana, greenhouse, launchDarkly, goodreads}"
    by (auto simp: rules_def)
  with assms(3) have "\<exists>l t. d = linkTitle l t"
    by (auto dest: shape_graphiteFigma shape_FigmaGithub shape_figmaDeploys
      shape_docsAndDesignTools shape_dropboxPaper shape_amazon shape_awsDocs shape_githubCommit
      shape_datadogMonitor shape_datadogNotebook shape_datadogLogs shape_datadogGeneral
      shape_temporal shape_notion shape_asana shape_greenhouse shape_launchDarkly shape_goodreads)
  then show ?thesis by (auto simp: linkTitle_only)
qed


text \<open>
  Claim C9. A result of \<open>getDocInfo\<close> holds either none of the five optional fields or
  all of them, and in the second case it is the result of the slack rule's extraction.
  Every rule of the list but \<open>slack\<close> returns a link and a title only, as the generic
  fallback does; the slack rule returns either its extraction, with all five fields, or
  its error fallback, with a link and a title only.
\<close>

theorem optional_fields_only_from_slack:
  "(\<forall>d. getDocInfo p = Inr d \<longrightarrow>
      onlyLinkAndTitle d \<or> (allFivePresent d \<and> slackExtract p = Inr d)) \<and>
   (\<forall>name r d. (name, r) \<in> set rules \<and> name \<noteq> ''slack'' \<and> ruleGetDocInfo r p = Inr d \<longrightarrow>
      onlyLinkAndTitle d) \<and>
   onlyLinkAndTitle (linkTitle (getUrl p) (getTitle p)) \<and>
   (\<forall>d. ruleGetDocInfo slack p = Inr d \<longrightarrow>
      (allFivePresent d \<and> slackExtract p = Inr d) \<or>
      (onlyLinkAndTitle d \<and> d = linkTitle (href p) (docTitle p @ str '' (Slack)'')))"
proof -
  have others: "onlyLinkAndTitle d"
    if "(name, r) \<in> set rules" "name \<noteq> ''slack''" "ruleGetDocInfo r p = Inr d" for name r d
    using that by (rule shape_others)
  have sl: "(allFivePresent d \<and> slackExtract p = Inr d) \<or>
      (onlyLinkAndTitle d \<and> d = linkTitle (href p) (docTitle p @ str '' (Slack)''))"
    if "ruleGetDocInfo slack p = Inr d" for d
    using shape_slack [OF that] by (auto simp: linkTitle_only)
  have main: "onlyLinkAndTitle d \<or> (allFivePresent d \<and> slackExtract p = Inr d)"
    if g: "getDocInfo p = Inr d" for d
  proof -
    from getDocInfo_result [OF g] consider "d = linkTitle (getUrl p) (getTitle p)"
      | name r where "(name, r) \<in> set rules" "ruleGetDocInfo r p = Inr d"
      by blast
    then show ?thesis
    proof cases
      case 1
      then show ?thesis by (simp add: linkTitle_only)
    next
      case 2
      show ?thesis
      proof (cases "name = ''slack''")
        case True
        with 2(1) have "r = slack" by (auto simp: rules_def)
        with 2(2) sl show ?thesis by blast
      next
        case False
        with 2 others show ?thesis by blast
      qed
    qed
  qed
  from others sl main linkTitle_only show ?thesis by blast
qed


lemma slack_fields:
  "href slackPage = str ''https://app.slack.com/client/T1/C1''"
  "hostname slackPage = str ''app.slack.com''"
  "pathname slackPage = []"
  "docTitle slackPage = str ''Slack''"
  "querySelectorAll slackPage = (\<lambda>s. [])"
  "elemQuerySelectorAll slackPage = (\<lambda>e s. [])"
  "innerHTML slackPage = textContent"
  "innerText slackPage = (\<lambda>e. [])"
  "documentElement slackPage =
     Element 0 (str ''HTML'') []
       [Element 1 (str ''HEAD'') [] [],
        Element 2 (str ''BODY'') []
          [Element 3 (str ''SPAN'') [] [TextNode (str ''Saved for later'')], slackMessage]]"
  by (simp_all add: slackPage_def blankPage_def)

lemma slack_body:
  "body slackPage = Some (Element 2 (str ''BODY'') []
          [Element 3 (str ''SPAN'') [] [TextNode (str ''Saved for later'')], slackMessage])"
  by (simp add: body_def slack_fields isBody_def str_def)

lemma slack_reference:
  "slackReference slackPage =
     (Inr (Element 3 (str ''SPAN'') [] [TextNode (str ''Saved for later'')]), slackPage)"
  by (simp add: slackReference_def findFirstWithDirectTextMatch_def findFirstInWholeDFS_def
      slack_body Let_def createElement_def slack_fields findNextElementDFS_def body_def isBody_def
      createDirectTextCondition_def slackMessage_def slackPage_def str_def)

lemma slack_extract:
  "slackExtract slackPage =
     Inr \<lparr>link = str ''https://app.slack.com/client/T1/C1'', title = Some (str ''hello world''),
          html = Some (str ''hello world''), text' = Some (str ''hello world''),
          sender = Some [], dateString = Some [], channelName = Some []\<rparr>"
  by (simp add: slackExtract_def slack_reference findNextElementDFS_def slack_body slack_fields
      messageContentCondition_def slackMessage_def elemQuerySelector_def firstOption_def
      findInParentChain_def parentChain_def Let_def str_def)

lemma slack_getDocInfo:
  "getDocInfo slackPage = slackExtract slackPage"
  by (simp add: getDocInfo_def dispatch_fallback rules_def isMatch_simps slack_fields startsWith_def
      isDatadogHost_def slack_extract slack_def str_def)

theorem optional_fields_only_from_slack_witness:
  "getDocInfo slackPage =
     Inr \<lparr>link = str ''https://app.slack.com/client/T1/C1'', title = Some (str ''hello world''),
          html = Some (str ''hello world''), text' = Some (str ''hello world''),
          sender = Some [], dateString = Some [], channelName = Some []\<rparr> \<and>
   allFivePresent
        \<lparr>link = str ''https://app.slack.com/client/T1/C1'', title = Some (str ''hello world''),
          html = Some (str ''hello world''), text' = Some (str ''hello world''),
          sender = Some [], dateString = Some [], channelName = Some []\<rparr> \<and>
   onlyLinkAndTitle (linkTitle (getUrl blankPage) (getTitle blankPage))"
proof -
  have g: "getDocInfo slackPage =
     Inr \<lparr>link = str ''https://app.slack.com/client/T1/C1'', title = Some (str ''hello world''),
          html = Some (str ''hello world''), text' = Some (str ''hello world''),
          sender = Some [], dateString = Some [], channelName = Some []\<rparr>"
    by (simp add: slack_getDocInfo slack_extract)
  have n: "\<not> onlyLinkAndTitle
        \<lparr>link = str ''https://app.slack.com/client/T1/C1'', title = Some (str ''hello world''),
          html = Some (str ''hello world''), text' = Some (str ''hello world''),
          sender = Some [], dateString = Some [], channelName = Some []\<rparr>"
    by (simp add: onlyLinkAndTitle_def)
  from optional_fields_only_from_slack [of slackPage] g n
  have "allFivePresent
        \<lparr>link = str ''https://app.slack.com/client/T1/C1'', title = Some (str ''hello world''),
          html = Some (str ''hello world''), text' = Some (str ''hello world''),
          sender = Some [], dateString = Some [], channelName = Some []\<rparr>"
    by blast
  moreover from optional_fields_only_from_slack [of blankPage]
  have "onlyLinkAndTitle (linkTitle (getUrl blankPage) (getTitle blankPage))" by blast
  ultimately show ?thesis using g by simp
qed

section \<open>The commit rule matches on any host\<close>

lemma runRules_append_None:
  "runRules p pre = None \<Longrightarrow> runRules p (pre @ post) = runRules p post"
  by (induction pre) (auto split: sum.splits bool.splits)

lemma rules_split:
  "rules = take 7 rules @ (''githubCommit'', githubCommit) # drop 8 rules"
  by (simp add: rules_def)


lemma githubCommit_result:
  "\<exists>t. ruleGetDocInfo githubCommit p = Inr (linkTitle (origin p @ pathname p) t) \<and>
       (t = docTitle p \<or> (\<exists>rest. docTitle p = t @ middleDot @ rest)) \<and>
       ((\<exists>a r. docTitle p = a @ middleDot @ r \<and> dotAll a) \<longrightarrow>
          dotAll t \<and> (\<exists>rest. docTitle p = t @ middleDot @ rest) \<and>
          (\<forall>a r. docTitle p = a @ middleDot @ r \<and> dotAll a \<longrightarrow> length a \<le> length t)) \<and>
       (\<not> (\<exists>a r. docTitle p = a @ middleDot @ r \<and> dotAll a) \<longrightarrow> t = docTitle p) \<and>
       (\<not> jsIncludes (docTitle p) middleDot \<longrightarrow> t = docTitle p) \<and>
       (jsIncludes (docTitle p) middleDot \<and> dotAll (docTitle p) \<longrightarrow>
          (\<exists>rest. docTitle p = t @ middleDot @ rest \<and> \<not> jsIncludes rest middleDot))"
proof (cases "matchGreedyBefore middleDot (docTitle p)")
  case None
  then have n: "\<not> (\<exists>a r. docTitle p = a @ middleDot @ r \<and> dotAll a)"
    unfolding matchGreedyBefore_None_iff .
  have "\<not> (jsIncludes (docTitle p) middleDot \<and> dotAll (docTitle p))"
    using matchGreedyBefore_last [OF middleDot_nonempty, of "docTitle p"] None by auto
  with None n show ?thesis by (auto simp: githubCommit_def)
next
  case (Some m)
  from matchGreedyBefore_longest [OF Some]
  have l: "dotAll m" "\<exists>rest. docTitle p = m @ middleDot @ rest"
    "\<forall>a r. docTitle p = a @ middleDot @ r \<and> dotAll a \<longrightarrow> length a \<le> length m"
    by blast+
  from l(2) have inc: "jsIncludes (docTitle p) middleDot" by (auto simp: jsIncludes_iff)
  have "\<exists>rest. docTitle p = m @ middleDot @ rest \<and> \<not> jsIncludes rest middleDot"
    if "dotAll (docTitle p)"
    using matchGreedyBefore_last [OF middleDot_nonempty that inc] Some by auto
  moreover have "ruleGetDocInfo githubCommit p = Inr (linkTitle (origin p @ pathname p) m)"
    using Some by (simp add: githubCommit_def)
  ultimately show ?thesis using l inc by blast
qed

text \<open>
  Claim C10, as amended. The commit rule matches exactly when the full URL contains
  \<open>/commit/\<close>, whatever the host name. On such a page, when none of the seven rules
  before it in the list yields a result, the result of \<open>getDocInfo\<close> is the commit
  rule's: the link is the URL's origin and path (no query, no fragment). The title is
  cut where \<open>/^(.*) \<cdot> /\<close> matches: when some \<open>" \<cdot> "\<close> of the document title has no line
  terminator before it, the title is what stands before the last such \<open>" \<cdot> "\<close>;
  otherwise it is the document title unchanged. So a title without \<open>" \<cdot> "\<close> is
  unchanged, and a title on one line that has one is cut before its last \<open>" \<cdot> "\<close>.
\<close>

theorem githubCommit_any_host:
  "isMatch githubCommit p = Inr (jsIncludes (href p) (str ''/commit/'')) \<and>
   isMatch githubCommit (p\<lparr>hostname := h\<rparr>) = isMatch githubCommit p \<and>
   (jsIncludes (href p) (str ''/commit/'') \<and>
    list_all (\<lambda>(n, r). \<not> yields r p) (take 7 rules) \<longrightarrow>
      (\<exists>t. getDocInfo p = ruleGetDocInfo githubCommit p \<and>
           getDocInfo p = Inr (linkTitle (origin p @ pathname p) t) \<and>
           (t = docTitle p \<or> (\<exists>rest. docTitle p = t @ middleDot @ rest)) \<and>
           ((\<exists>a r. docTitle p = a @ middleDot @ r \<and> dotAll a) \<longrightarrow>
              dotAll t \<and> (\<exists>rest. docTitle p = t @ middleDot @ rest) \<and>
              (\<forall>a r. docTitle p = a @ middleDot @ r \<and> dotAll a \<longrightarrow> length a \<le> length t)) \<and>
           (\<not> (\<exists>a r. docTitle p = a @ middleDot @ r \<and> dotAll a) \<longrightarrow> t = docTitle p) \<and>
           (\<not> jsIncludes (docTitle p) middleDot \<longrightarrow> t = docTitle p) \<and>
           (jsIncludes (docTitle p) middleDot \<and> dotAll (docTitle p) \<longrightarrow>
              (\<exists>rest. docTitle p = t @ middleDot @ rest \<and> \<not> jsIncludes rest middleDot))))"
proof -
  have a: "isMatch githubCommit p = Inr (jsIncludes (href p) (str ''/commit/''))"
    by (simp add: githubCommit_def)
  have b: "isMatch githubCommit (p\<lparr>hostname := h\<rparr>) = isMatch githubCommit p"
    by (simp add: githubCommit_def)
  have c: "\<exists>t. getDocInfo p = ruleGetDocInfo githubCommit p \<and>
           getDocInfo p = Inr (linkTitle (origin p @ pathname p) t) \<and>
           (t = docTitle p \<or> (\<exists>rest. docTitle p = t @ middleDot @ rest)) \<and>
           ((\<exists>a r. docTitle p = a @ middleDot @ r \<and> dotAll a) \<longrightarrow>
              dotAll t \<and> (\<exists>rest. docTitle p = t @ middleDot @ rest) \<and>
              (\<forall>a r. docTitle p = a @ middleDot @ r \<and> dotAll a \<longrightarrow> length a \<le> length t)) \<and>
           (\<not> (\<exists>a r. docTitle p = a @ middleDot @ r \<and> dotAll a) \<longrightarrow> t = docTitle p) \<and>
           (\<not> jsIncludes (docTitle p) middleDot \<longrightarrow> t = docTitle p) \<and>
           (jsIncludes (docTitle p) middleDot \<and> dotAll (docTitle p) \<longrightarrow>
              (\<exists>rest. docTitle p = t @ middleDot @ rest \<and> \<not> jsIncludes rest middleDot))"
    if inc: "jsIncludes (href p) (str ''/commit/'')"
      and early: "list_all (\<lambda>(n, r). \<not> yields r p) (take 7 rules)"
  proof -
    from githubCommit_result [of p] obtain t where
      t: "ruleGetDocInfo githubCommit p = Inr (linkTitle (origin p @ pathname p) t)"
      and rest: "t = docTitle p \<or> (\<exists>rest. docTitle p = t @ middleDot @ rest)"
        "(\<exists>a r. docTitle p = a @ middleDot @ r \<and> dotAll a) \<longrightarrow>
              dotAll t \<and> (\<exists>rest. docTitle p = t @ middleDot @ rest) \<and>
              (\<forall>a r. docTitle p = a @ middleDot @ r \<and> dotAll a \<longrightarrow> length a \<le> length t)"
        "\<not> (\<exists>a r. docTitle p = a @ middleDot @ r \<and> dotAll a) \<longrightarrow> t = docTitle p"
        "\<not> jsIncludes (docTitle p) middleDot \<longrightarrow> t = docTitle p"
        "jsIncludes (docTitle p) middleDot \<and> dotAll (docTitle p) \<longrightarrow>
          (\<exists>rest. docTitle p = t @ middleDot @ rest \<and> \<not> jsIncludes rest middleDot)"
      by blast
    from runRules_None [OF early] have "runRules p (take 7 rules) = None" .
    then have "runRules p rules = runRules p ((''githubCommit'', githubCommit) # drop 8 rules)"
      using runRules_append_None [of p "take 7 rules" "(''githubCommit'', githubCommit) # drop 8 rules"]
        rules_split by simp
    also have "\<dots> = Some (linkTitle (origin p @ pathname p) t)"
      using a inc t by simp
    finally have g: "getDocInfo p = Inr (linkTitle (origin p @ pathname p) t)"
      by (simp add: getDocInfo_def dispatch_fallback)
    with t have g1: "getDocInfo p = ruleGetDocInfo githubCommit p" by simp
    from g1 g rest show ?thesis by (intro exI [of _ t] conjI) assumption+
  qed
  from a b c show ?thesis by blast
qed

lemma commit_fields:
  "href commitPage = str ''https://git.example.org/r/commit/abc#L1''"
  "hostname commitPage = str ''git.example.org''"
  "origin commitPage = str ''https://git.example.org''"
  "pathname commitPage = str ''/r/commit/abc''"
  "docTitle commitPage = str ''Fix bug'' @ [32, 183, 32] @ str ''r@abc''"
  "querySelectorAll commitPage = (\<lambda>s. [])"
  by (simp_all add: commitPage_def blankPage_def)

lemma commit_early: "list_all (\<lambda>(n, r). \<not> yields r commitPage) (take 7 rules)"
  by (simp add: rules_def yields_def isMatch_simps commit_fields startsWith_def str_def)

lemma commit_includes: "jsIncludes (href commitPage) (str ''/commit/'')"
  by (simp add: commit_fields str_def)

lemma commit_result:
  "ruleGetDocInfo githubCommit commitPage =
     Inr (linkTitle (str ''https://git.example.org/r/commit/abc'') (str ''Fix bug''))"
  by (simp add: githubCommit_def commit_fields matchGreedyBefore_def middleDot_def
      lastOption_def dotAll_def isLineTerminator_def str_def)

lemma twoLine_fields:
  "href twoLineCommitPage = str ''https://git.example.org/r/commit/abc''"
  "hostname twoLineCommitPage = str ''git.example.org''"
  "origin twoLineCommitPage = str ''https://git.example.org''"
  "pathname twoLineCommitPage = str ''/r/commit/abc''"
  "docTitle twoLineCommitPage =
     str ''Fix'' @ [32, 183, 32] @ str ''bug'' @ [32, 183, 32] @ str ''r'' @
     [8232] @ str ''more'' @ [32, 183, 32] @ str ''text''"
  "querySelectorAll twoLineCommitPage = (\<lambda>s. [])"
  by (simp_all add: twoLineCommitPage_def blankPage_def)

lemma twoLine_early: "list_all (\<lambda>(n, r). \<not> yields r twoLineCommitPage) (take 7 rules)"
  by (simp add: rules_def yields_def isMatch_simps twoLine_fields startsWith_def str_def)

lemma twoLine_includes: "jsIncludes (href twoLineCommitPage) (str ''/commit/'')"
  by (simp add: twoLine_fields str_def)

lemma twoLine_result:
  "ruleGetDocInfo githubCommit twoLineCommitPage =
     Inr (linkTitle (str ''https://git.example.org/r/commit/abc'')
            (str ''Fix'' @ [32, 183, 32] @ str ''bug''))"
  by (simp add: githubCommit_def twoLine_fields matchGreedyBefore_def middleDot_def
      lastOption_def dotAll_def isLineTerminator_def str_def)

lemma twoLine_title:
  "\<not> dotAll (docTitle twoLineCommitPage)"
  "docTitle twoLineCommitPage =
     (str ''Fix'' @ [32, 183, 32] @ str ''bug'') @ middleDot @
     (str ''r'' @ [8232] @ str ''more'' @ [32, 183, 32] @ str ''text'')"
  "dotAll (str ''Fix'' @ [32, 183, 32] @ str ''bug'')"
  by (simp_all add: twoLine_fields middleDot_def dotAll_def isLineTerminator_def str_def)

theorem githubCommit_any_host_witness:
  "jsIncludes (href commitPage) (str ''/commit/'') \<and>
   list_all (\<lambda>(n, r). \<not> yields r commitPage) (take 7 rules) \<and>
   hostname commitPage = str ''git.example.org'' \<and>
   isMatch githubCommit commitPage = Inr True \<and>
   getDocInfo commitPage =
     Inr (linkTitle (str ''https://git.example.org/r/commit/abc'') (str ''Fix bug'')) \<and>
   jsIncludes (href twoLineCommitPage) (str ''/commit/'') \<and>
   list_all (\<lambda>(n, r). \<not> yields r twoLineCommitPage) (take 7 rules) \<and>
   \<not> dotAll (docTitle twoLineCommitPage) \<and>
   docTitle twoLineCommitPage =
     (str ''Fix'' @ [32, 183, 32] @ str ''bug'') @ middleDot @
     (str ''r'' @ [8232] @ str ''more'' @ [32, 183, 32] @ str ''text'') \<and>
   dotAll (str ''Fix'' @ [32, 183, 32] @ str ''bug'') \<and>
   getDocInfo twoLineCommitPage =
     Inr (linkTitle (str ''https://git.example.org/r/commit/abc'')
            (str ''Fix'' @ [32, 183, 32] @ str ''bug''))"
proof -
  from githubCommit_any_host [of commitPage "[]"] commit_includes commit_early
  have 1: "isMatch githubCommit commitPage = Inr True"
    and 2: "getDocInfo commitPage = ruleGetDocInfo githubCommit commitPage"
    by auto
  from githubCommit_any_host [of twoLineCommitPage "[]"] twoLine_includes twoLine_early
  have 3: "getDocInfo twoLineCommitPage = ruleGetDocInfo githubCommit twoLineCommitPage"
    by auto
  from 1 2 3 commit_includes commit_early commit_result twoLine_includes twoLine_early
    twoLine_result twoLine_title
  show ?thesis by (simp add: commit_fields)
qed

lemma lineSeparator_fields:
  "href lineSeparatorCommitPage = str ''https://git.example.org/r/commit/abc''"
  "hostname lineSeparatorCommitPage = str ''git.example.org''"
  "origin lineSeparatorCommitPage = str ''https://git.example.org''"
  "pathname lineSeparatorCommitPage = str ''/r/commit/abc''"
  "docTitle lineSeparatorCommitPage = str ''x'' @ [8232] @ str ''y'' @ [32, 183, 32] @ str ''z''"
  "querySelectorAll lineSeparatorCommitPage = (\<lambda>s. [])"
  by (simp_all add: lineSeparatorCommitPage_def blankPage_def)

lemma lineSeparator_result:
  "ruleGetDocInfo githubCommit lineSeparatorCommitPage =
     Inr (linkTitle (str ''https://git.example.org/r/commit/abc'')
            (str ''x'' @ [8232] @ str ''y'' @ [32, 183, 32] @ str ''z''))"
  by (simp add: githubCommit_def lineSeparator_fields matchGreedyBefore_def middleDot_def
      lastOption_def dotAll_def isLineTerminator_def str_def)

lemma lineSeparator_getDocInfo:
  "getDocInfo lineSeparatorCommitPage = ruleGetDocInfo githubCommit lineSeparatorCommitPage"
  by (simp add: getDocInfo_def dispatch_fallback rules_def lineSeparator_result isMatch_simps
      lineSeparator_fields startsWith_def str_def)

text \<open>
  Claim C10 as stated fails: a title that has a \<open>" \<cdot> "\<close> is not always cut. On a commit
  page with the title \<open>x\<close>, U+2028, \<open>y \<cdot> z\<close>, a line separator stands before the only
  \<open>" \<cdot> "\<close>, the expression does not match and the title is returned whole.
\<close>

theorem githubCommit_title_not_cut_counterexample:
  "isMatch githubCommit lineSeparatorCommitPage = Inr True \<and>
   docTitle lineSeparatorCommitPage = (str ''x'' @ [8232] @ str ''y'') @ middleDot @ str ''z'' \<and>
   jsIncludes (docTitle lineSeparatorCommitPage) middleDot \<and>
   getDocInfo lineSeparatorCommitPage = ruleGetDocInfo githubCommit lineSeparatorCommitPage \<and>
   getDocInfo lineSeparatorCommitPage =
     Inr (linkTitle (str ''https://git.example.org/r/commit/abc'')
            (docTitle lineSeparatorCommitPage)) \<and>
   getDocInfo lineSeparatorCommitPage \<noteq>
     Inr (linkTitle (str ''https://git.example.org/r/commit/abc'') (str ''x'' @ [8232] @ str ''y''))"
proof -
  have m: "isMatch githubCommit lineSeparatorCommitPage = Inr True"
    by (simp add: isMatch_simps lineSeparator_fields str_def)
  have d: "docTitle lineSeparatorCommitPage = (str ''x'' @ [8232] @ str ''y'') @ middleDot @ str ''z''"
    by (simp add: lineSeparator_fields middleDot_def)
  then have i: "jsIncludes (docTitle lineSeparatorCommitPage) middleDot"
    unfolding jsIncludes_iff by blast
  have r: "getDocInfo lineSeparatorCommitPage =
     Inr (linkTitle (str ''https://git.example.org/r/commit/abc'')
            (docTitle lineSeparatorCommitPage))"
    by (simp only: lineSeparator_getDocInfo lineSeparator_result lineSeparator_fields)
  have n: "getDocInfo lineSeparatorCommitPage \<noteq>
     Inr (linkTitle (str ''https://git.example.org/r/commit/abc'') (str ''x'' @ [8232] @ str ''y''))"
    unfolding lineSeparator_getDocInfo lineSeparator_result by (simp add: linkTitle_def str_def)
  from m d i r n lineSeparator_getDocInfo show ?thesis by blast
qed

section \<open>The monitor rule moves the tags to the end of the title\<close>

lemma takeWhile_to_first:
  "125 \<notin> set x \<Longrightarrow> takeWhile (\<lambda>c. c \<noteq> (125::nat)) (x @ 125 # r) = x"
  "125 \<notin> set x \<Longrightarrow> dropWhile (\<lambda>c. c \<noteq> (125::nat)) (x @ 125 # r) = 125 # r"
  by (induction x) auto

lemma tagAt_SomeD:
  assumes "tagAt s = Some (T, r)"
  shows "\<exists>x. T = 123 # x @ [125] \<and> 125 \<notin> set x \<and> 58 \<in> set x \<and> s = T @ r"
proof (cases s)
  case Nil
  with assms show ?thesis by simp
next
  case (Cons c cs)
  let ?x = "takeWhile (\<lambda>c. c \<noteq> (125::nat)) cs"
  from assms Cons have c: "c = 123" and m: "125 \<in> set cs" and col: "58 \<in> set ?x"
    and T: "T = c # ?x @ [125]" and r: "r = drop 1 (dropWhile (\<lambda>c. c \<noteq> 125) cs)"
    by (auto split: if_splits)
  from m have "dropWhile (\<lambda>c. c \<noteq> 125) cs \<noteq> []" by simp
  moreover have "hd (dropWhile (\<lambda>c. c \<noteq> 125) cs) = 125"
    using hd_dropWhile [OF calculation] by simp
  ultimately have "dropWhile (\<lambda>c. c \<noteq> 125) cs = 125 # r"
    using r by (cases "dropWhile (\<lambda>c. c \<noteq> 125) cs") auto
  then have "cs = ?x @ 125 # r" by (metis takeWhile_dropWhile_id)
  moreover have "125 \<notin> set ?x" by (auto dest: set_takeWhileD)
  ultimately show ?thesis using c col T Cons by auto
qed

lemma tagAt_simple: "simpleTag T \<Longrightarrow> tagAt (T @ r) = Some (T, r)"
  by (auto simp: simpleTag_def takeWhile_to_first)

lemma tagAt_append: "tagAt s = Some (T, r) \<Longrightarrow> tagAt (s @ b) = Some (T, r @ b)"
proof -
  assume a: "tagAt s = Some (T, r)"
  from tagAt_SomeD [OF a] obtain x where x: "T = 123 # x @ [125]" "125 \<notin> set x" "58 \<in> set x"
    "s = T @ r" by blast
  then have "s @ b = 123 # x @ 125 # (r @ b)" by simp
  then show ?thesis using x by (simp add: takeWhile_to_first)
qed

lemma curlyTags_None: "tagAt (c # cs) = None \<Longrightarrow> curlyTags (c # cs) = curlyTags cs"
  by simp

lemma curlyTags_Some: "tagAt s = Some (T, r) \<Longrightarrow> curlyTags s = T # curlyTags r"
  by (cases s) (simp_all del: tagAt.simps(2))

lemma curlyTags_tail: "curlyTags (c # s) = [] \<Longrightarrow> curlyTags s = []"
  by (cases "tagAt (c # s)") (auto simp del: tagAt.simps)

lemma curlyTags_drop: "curlyTags s = [] \<Longrightarrow> curlyTags (drop n s) = []"
proof (induction n arbitrary: s)
  case 0
  then show ?case by simp
next
  case (Suc n)
  show ?case
  proof (cases s)
    case Nil
    then show ?thesis by simp
  next
    case (Cons c s')
    with Suc.prems have "curlyTags s' = []" by (simp only: curlyTags_tail)
    from Suc.IH [OF this] Cons show ?thesis by simp
  qed
qed

lemma curlyTags_append_nonempty: "curlyTags a \<noteq> [] \<Longrightarrow> curlyTags (a @ b) \<noteq> []"
proof (induction a rule: curlyTags.induct)
  case 1
  then show ?case by simp
next
  case (2 c cs)
  show ?case
  proof (cases "tagAt (c # cs)")
    case None
    from "2.prems" have "curlyTags cs \<noteq> []" unfolding curlyTags_None [OF None] .
    from "2.IH"(1) [OF None this] have "curlyTags (cs @ b) \<noteq> []" .
    then show ?thesis using curlyTags_tail [of c "cs @ b"] by (auto simp del: curlyTags.simps)
  next
    case (Some a)
    obtain T r where a: "a = (T, r)" by (cases a)
    from Some a have "tagAt (c # cs) = Some (T, r)" by simp
    from tagAt_append [OF this] have "tagAt ((c # cs) @ b) = Some (T, r @ b)" .
    from curlyTags_Some [OF this] show ?thesis by (simp del: curlyTags.simps tagAt.simps)
  qed
qed

lemma curlyTags_prefix: "curlyTags (a @ b) = [] \<Longrightarrow> curlyTags a = []"
  using curlyTags_append_nonempty by blast

lemma curlyTags_contains: "simpleTag T \<Longrightarrow> curlyTags (a @ T @ w) \<noteq> []"
proof (induction a)
  case Nil
  then show ?case by (simp add: curlyTags_Some [OF tagAt_simple])
next
  case (Cons c a)
  then have "curlyTags (a @ T @ w) \<noteq> []" by blast
  then have "curlyTags (c # a @ T @ w) \<noteq> []" using curlyTags_tail by blast
  then show ?case by (simp del: curlyTags.simps)
qed

lemma mid_Nil: "mid []"
  by (simp add: mid_def)

lemma mid_tail: "mid (c # q) \<Longrightarrow> mid q"
  unfolding mid_def by (auto simp del: curlyTags.simps dest: curlyTags_tail)

lemma mid_drop: "mid q \<Longrightarrow> mid (drop n q)"
proof (induction n arbitrary: q)
  case 0
  then show ?case by simp
next
  case (Suc n)
  then show ?case by (cases q) (auto dest: mid_tail)
qed

lemma closedBraces_append: "closedBraces a \<Longrightarrow> closedBraces b \<Longrightarrow> closedBraces (a @ b)"
  by (induction a) auto

lemma tagAt_None_if_no_tags: "curlyTags s = [] \<Longrightarrow> tagAt s = None"
proof (cases "tagAt s")
  case None
  then show ?thesis by simp
next
  case (Some a)
  assume e: "curlyTags s = []"
  obtain T r where "a = (T, r)" by (cases a)
  with Some have "tagAt s = Some (T, r)" by simp
  from curlyTags_Some [OF this] e show ?thesis by simp
qed

lemma tagAt_mid: "mid (c # q) \<Longrightarrow> tagAt (c # q @ r) = None"
proof -
  assume m: "mid (c # q)"
  then have n: "tagAt (c # q) = None" by (simp add: mid_def tagAt_None_if_no_tags del: curlyTags.simps tagAt.simps)
  show ?thesis
  proof (cases "c = 123")
    case False
    then show ?thesis by simp
  next
    case True
    with m have i: "125 \<in> set q" by (simp add: mid_def del: curlyTags.simps)
    then have "takeWhile (\<lambda>x. x \<noteq> 125) (q @ r) = takeWhile (\<lambda>x. x \<noteq> 125) q"
      by (intro takeWhile_append1) auto
    with n True i show ?thesis by (simp split: if_splits)
  qed
qed

lemma curlyTags_mid: "mid p \<Longrightarrow> curlyTags (p @ s) = curlyTags s"
proof (induction p)
  case Nil
  then show ?case by simp
next
  case (Cons c p)
  from tagAt_mid [OF Cons.prems] have "tagAt (c # p @ s) = None" .
  from curlyTags_None [OF this] Cons.IH [OF mid_tail [OF Cons.prems]] show ?case by simp
qed

lemma scan_build_tags: "scanTags t = (xs, f) \<Longrightarrow> build xs f = t \<and> map snd xs = curlyTags t"
proof (induction "length t" arbitrary: t xs f rule: less_induct)
  case less
  show ?case
  proof (cases t)
    case Nil
    with less.prems show ?thesis by auto
  next
    case (Cons c cs)
    show ?thesis
    proof (cases "tagAt (c # cs)")
      case None
      obtain ys g where s: "scanTags cs = (ys, g)" by (cases "scanTags cs")
      from less.hyps [OF _ s] Cons have ih: "build ys g = cs" "map snd ys = curlyTags cs" by simp_all
      from less.prems Cons None s
      have "(xs, f) = (case ys of [] \<Rightarrow> ([], c # g) | (p, tag) # zs \<Rightarrow> ((c # p, tag) # zs, g))"
        by (simp del: tagAt.simps)
      then show ?thesis using ih curlyTags_None [OF None] Cons
        by (cases ys) (auto simp del: tagAt.simps curlyTags.simps)
    next
      case (Some a)
      obtain T r where a: "a = (T, r)" by (cases a)
      with Some have ta: "tagAt (c # cs) = Some (T, r)" by simp
      obtain ys g where s: "scanTags r = (ys, g)" by (cases "scanTags r")
      from tagAt_shorter [OF ta] Cons have "length r < length t" by simp
      from less.hyps [OF this s] have ih: "build ys g = r" "map snd ys = curlyTags r" by simp_all
      from less.prems Cons ta s have "(xs, f) = (([], T) # ys, g)" by (simp del: tagAt.simps)
      moreover from tagAt_SomeD [OF ta] have "c # cs = T @ r" by blast
      ultimately show ?thesis using ih curlyTags_Some [OF ta] Cons
        by (auto simp del: tagAt.simps curlyTags.simps)
    qed
  qed
qed

lemma simpleTag_of_tagAt:
  assumes "tagAt s = Some (T, r)" and "123 \<notin> set (tl T)"
  shows "simpleTag T"
proof -
  from tagAt_SomeD [OF assms(1)] obtain x where
    x: "T = 123 # x @ [125]" "125 \<notin> set x" "58 \<in> set x" by blast
  with assms(2) have "123 \<notin> set x" by simp
  with x show ?thesis unfolding simpleTag_def by blast
qed

lemma mid_Cons:
  assumes "mid p" and "simpleTag U" and n: "tagAt (c # p @ U @ s) = None"
  shows "mid (c # p)"
proof -
  from assms(2) obtain x where U: "U = 123 # x @ [125]" "125 \<notin> set x" "58 \<in> set x"
    unfolding simpleTag_def by blast
  have cb: "125 \<in> set p" if c: "c = 123"
  proof (rule ccontr)
    assume "125 \<notin> set p"
    then have "125 \<notin> set (p @ 123 # x)" using U by simp
    from takeWhile_to_first(1) [OF this, of s]
    have "takeWhile (\<lambda>c. c \<noteq> 125) (p @ U @ s) = p @ 123 # x" using U by simp
    with n c U show False by simp
  qed
  have "tagAt (c # p) = None"
  proof (cases "c = 123")
    case False
    then show ?thesis by simp
  next
    case True
    from cb [OF True] have "takeWhile (\<lambda>x. x \<noteq> 125) (p @ U @ s) = takeWhile (\<lambda>x. x \<noteq> 125) p"
      by (intro takeWhile_append1) auto
    with n True cb show ?thesis by (simp split: if_splits)
  qed
  from curlyTags_None [OF this] assms(1) have "curlyTags (c # p) = []" by (simp add: mid_def)
  with cb assms(1) show ?thesis by (simp add: mid_def del: curlyTags.simps)
qed

lemma scan_valid: "scanTags t = (xs, f) \<Longrightarrow> noNestedBrace t \<Longrightarrow> valid xs f"
proof (induction "length t" arbitrary: t xs f rule: less_induct)
  case less
  show ?case
  proof (cases t)
    case Nil
    with less.prems show ?thesis by (auto simp: valid_def)
  next
    case (Cons c cs)
    show ?thesis
    proof (cases "tagAt (c # cs)")
      case None
      obtain ys g where s: "scanTags cs = (ys, g)" by (cases "scanTags cs")
      from less.prems(2) Cons curlyTags_None [OF None] have "noNestedBrace cs"
        by (simp add: noNestedBrace_def del: curlyTags.simps)
      from less.hyps [OF _ s this] Cons have ih: "valid ys g" by simp
      from scan_build_tags [OF s] have b: "build ys g = cs" "map snd ys = curlyTags cs" by simp_all
      from less.prems(1) Cons None s
      have r: "(xs, f) = (case ys of [] \<Rightarrow> ([], c # g) | (p, tag) # zs \<Rightarrow> ((c # p, tag) # zs, g))"
        by (simp del: tagAt.simps)
      show ?thesis
      proof (cases ys)
        case Nil
        with b have "curlyTags (c # g) = []" using curlyTags_None [OF None] by simp
        with r Nil show ?thesis by (simp add: valid_def del: curlyTags.simps)
      next
        case (Cons pU zs)
        obtain p U where pU: "pU = (p, U)" by (cases pU)
        from ih Cons pU have m: "mid p" "simpleTag U" by (auto simp: valid_def)
        from b Cons pU have "cs = p @ U @ build zs g" by simp
        with None have "tagAt (c # p @ U @ build zs g) = None" by simp
        from mid_Cons [OF m this] have "mid (c # p)" .
        with r Cons pU ih show ?thesis by (simp add: valid_def del: curlyTags.simps)
      qed
    next
      case (Some a)
      obtain T r where a: "a = (T, r)" by (cases a)
      with Some have ta: "tagAt (c # cs) = Some (T, r)" by simp
      obtain ys g where s: "scanTags r = (ys, g)" by (cases "scanTags r")
      from tagAt_shorter [OF ta] Cons have l: "length r < length t" by simp
      from less.prems(2) Cons curlyTags_Some [OF ta]
      have n: "noNestedBrace r" "123 \<notin> set (tl T)"
        by (simp_all add: noNestedBrace_def del: curlyTags.simps)
      from less.hyps [OF l s n(1)] have ih: "valid ys g" .
      from less.prems(1) Cons ta s have "(xs, f) = (([], T) # ys, g)" by (simp del: tagAt.simps)
      with ih simpleTag_of_tagAt [OF ta n(2)] show ?thesis
        by (simp add: valid_def mid_Nil del: curlyTags.simps)
    qed
  qed
qed

lemma not_isSpace_brace [simp]: "\<not> isSpace 123" "\<not> isSpace 125"
  by (simp_all add: isSpace_def)

lemma simple_prefix:
  assumes "simpleTag T" and "simpleTag U" and "prefix T (U @ s)"
  shows "T = U"
proof -
  from assms(3) obtain z where z: "U @ s = T @ z" by (auto simp: prefix_def)
  from tagAt_simple [OF assms(1), of z] tagAt_simple [OF assms(2), of s] z show ?thesis by simp
qed

lemma plain_miss:
  assumes "mid q" and "simpleTag T" and "q \<noteq> []"
  shows "\<not> prefix T (q @ r)"
proof
  assume "prefix T (q @ r)"
  then obtain z where z: "q @ r = T @ z" by (auto simp: prefix_def)
  from assms(3) obtain c q' where q: "q = c # q'" by (cases q) auto
  from tagAt_mid [of c q' r] assms(1) q have "tagAt (q @ r) = None" by simp
  with tagAt_simple [OF assms(2), of z] z show False by simp
qed

lemma plain_nohit:
  assumes "mid q" and "simpleTag T" and "\<not> list_all isSpace q"
  shows "\<not> prefix T (dropWhile isSpace (q @ r))"
proof -
  from assms(3) obtain x where "x \<in> set q" "\<not> isSpace x" by (auto simp: list_all_iff)
  then have d: "dropWhile isSpace (q @ r) = dropWhile isSpace q @ r" by (rule dropWhile_append1)
  from assms(3) have ne: "dropWhile isSpace q \<noteq> []" by (simp add: list_all_iff)
  have "mid (dropWhile isSpace q)" unfolding dropWhile_eq_drop by (rule mid_drop [OF assms(1)])
  from plain_miss [OF this assms(2) ne] d show ?thesis by simp
qed

lemma space_hit: "list_all isSpace q \<Longrightarrow> dropWhile isSpace (q @ r) = dropWhile isSpace r"
  by (induction q) auto

lemma replaceTag_miss:
  "\<not> prefix T (dropWhile isSpace (c # cs)) \<Longrightarrow> replaceTag T (c # cs) = c # replaceTag T cs"
  by (simp del: dropWhile.simps)

lemma replaceTag_hit:
  "T \<noteq> [] \<Longrightarrow> prefix T (dropWhile isSpace (c # cs)) \<Longrightarrow>
   replaceTag T (c # cs) =
     32 # replaceTag T (dropWhile isSpace (drop (length T) (dropWhile isSpace (c # cs))))"
  by (simp del: dropWhile.simps)

lemma simpleTag_shape: "simpleTag T \<Longrightarrow> T \<noteq> [] \<and> hd T = 123 \<and> last T = 125"
  by (auto simp: simpleTag_def)

lemma trimEnd_all_space: "list_all isSpace p \<Longrightarrow> trimEnd p = []"
  by (simp add: trimEnd_def list_all_iff)

lemma trimEnd_Cons: "\<not> list_all isSpace (c # p) \<Longrightarrow> trimEnd (c # p) = c # trimEnd p"
proof (cases "list_all isSpace p")
  case True
  assume "\<not> list_all isSpace (c # p)"
  with True have "\<not> isSpace c" by simp
  moreover from True have "dropWhile isSpace (rev p @ [c]) = dropWhile isSpace [c]"
    by (intro dropWhile_append2) (simp add: list_all_iff)
  ultimately show ?thesis using True by (simp add: trimEnd_def list_all_iff)
next
  case False
  then obtain x where "x \<in> set (rev p)" "\<not> isSpace x" by (auto simp: list_all_iff)
  then have "dropWhile isSpace (rev p @ [c]) = dropWhile isSpace (rev p) @ [c]"
    by (rule dropWhile_append1)
  then show ?thesis by (simp add: trimEnd_def)
qed

lemma replaceTag_no_tags:
  assumes "simpleTag T"
  shows "curlyTags f = [] \<Longrightarrow> replaceTag T f = f"
proof (induction f)
  case Nil
  then show ?case by simp
next
  case (Cons c f)
  have "\<not> prefix T (dropWhile isSpace (c # f))"
  proof
    assume "prefix T (dropWhile isSpace (c # f))"
    then obtain z where "dropWhile isSpace (c # f) = T @ z" by (auto simp: prefix_def)
    then have "c # f = takeWhile isSpace (c # f) @ T @ z"
      using takeWhile_dropWhile_id [of isSpace "c # f"] by simp
    then have "curlyTags (c # f) = curlyTags (takeWhile isSpace (c # f) @ T @ z)"
      by (rule arg_cong)
    with curlyTags_contains [OF assms, of "takeWhile isSpace (c # f)" z] Cons.prems
    show False by (simp only:)
  qed
  from replaceTag_miss [OF this] Cons.IH [OF curlyTags_tail [OF Cons.prems]]
  show ?case by simp
qed

lemma replaceTag_inner:
  assumes "simpleTag T"
  shows "123 \<notin> set y \<Longrightarrow> y \<noteq> [] \<Longrightarrow> \<not> isSpace (last y) \<Longrightarrow>
    replaceTag T (y @ s) = y @ replaceTag T s"
proof (induction y)
  case Nil
  then show ?case by simp
next
  case (Cons c y)
  have "last (c # y) \<in> set (c # y)" by (rule last_in_set) simp
  moreover from Cons.prems(3) have "\<not> isSpace (last (c # y))" .
  ultimately have "last (c # y) \<in> set (c # y)" "\<not> isSpace (last (c # y))" by blast+
  then have d: "dropWhile isSpace ((c # y) @ s) = dropWhile isSpace (c # y) @ s"
    by (rule dropWhile_append1)
  from \<open>last (c # y) \<in> set (c # y)\<close> \<open>\<not> isSpace (last (c # y))\<close>
  have ne: "dropWhile isSpace (c # y) \<noteq> []" by (auto simp del: last.simps dropWhile.simps)
  then have "hd (dropWhile isSpace (c # y)) \<in> set (c # y)"
    using set_dropWhileD [of _ isSpace "c # y"] hd_in_set by blast
  with Cons.prems(1) have h: "hd (dropWhile isSpace (c # y)) \<noteq> 123" by auto
  have "\<not> prefix T (dropWhile isSpace ((c # y) @ s))"
  proof
    assume "prefix T (dropWhile isSpace ((c # y) @ s))"
    with d obtain z where "dropWhile isSpace (c # y) @ s = T @ z" by (auto simp: prefix_def)
    with ne simpleTag_shape [OF assms] have "hd (dropWhile isSpace (c # y)) = hd T"
      by (metis hd_append2)
    with h simpleTag_shape [OF assms] show False by simp
  qed
  then have m: "replaceTag T ((c # y) @ s) = c # replaceTag T (y @ s)"
    using replaceTag_miss [of T c "y @ s"] by simp
  show ?case
  proof (cases "y = []")
    case True
    with m show ?thesis by simp
  next
    case False
    with Cons.prems have "123 \<notin> set y" "\<not> isSpace (last y)" by simp_all
    from Cons.IH [OF this(1) False this(2)] m show ?thesis by simp
  qed
qed

lemma replaceTag_other_tag:
  assumes "simpleTag T" and "simpleTag U" and "T \<noteq> U"
  shows "replaceTag T (U @ s) = U @ replaceTag T s"
proof -
  from assms(2) obtain x where U: "U = 123 # x @ [125]" "123 \<notin> set x"
    unfolding simpleTag_def by blast
  have "\<not> prefix T (U @ s)" using simple_prefix [OF assms(1,2)] assms(3) by blast
  then have "\<not> prefix T (dropWhile isSpace (123 # (x @ [125]) @ s))" using U by simp
  from replaceTag_miss [OF this]
  have "replaceTag T (U @ s) = 123 # replaceTag T ((x @ [125]) @ s)" using U by simp
  also have "replaceTag T ((x @ [125]) @ s) = (x @ [125]) @ replaceTag T s"
    using U by (intro replaceTag_inner [OF assms(1)]) simp_all
  finally show ?thesis using U by simp
qed

lemma replaceTag_before_other:
  assumes "simpleTag T" and "simpleTag U" and "T \<noteq> U"
  shows "mid p \<Longrightarrow> replaceTag T (p @ U @ s) = p @ U @ replaceTag T s"
proof (induction p)
  case Nil
  then show ?case using replaceTag_other_tag [OF assms] by simp
next
  case (Cons c p)
  have "\<not> prefix T (dropWhile isSpace ((c # p) @ U @ s))"
  proof (cases "list_all isSpace (c # p)")
    case True
    from space_hit [OF True, of "U @ s"] simpleTag_shape [OF assms(2)]
    have "dropWhile isSpace ((c # p) @ U @ s) = U @ s" by (cases U) auto
    then show ?thesis using simple_prefix [OF assms(1,2)] assms(3) by auto
  next
    case False
    from plain_nohit [OF Cons.prems assms(1) False] show ?thesis .
  qed
  then have "replaceTag T ((c # p) @ U @ s) = c # replaceTag T (p @ U @ s)"
    using replaceTag_miss [of T c "p @ U @ s"] by simp
  with Cons.IH [OF mid_tail [OF Cons.prems]] show ?case by simp
qed

lemma replaceTag_after_spaces:
  assumes "simpleTag T" and "list_all isSpace p"
  shows "replaceTag T (p @ T @ s) = 32 # replaceTag T (dropWhile isSpace s)"
proof -
  from simpleTag_shape [OF assms(1)] have T: "T \<noteq> []" "\<not> isSpace (hd T)" by simp_all
  then have "dropWhile isSpace (T @ s) = T @ s" by (cases T) auto
  with space_hit [OF assms(2), of "T @ s"] have d: "dropWhile isSpace (p @ T @ s) = T @ s" by simp
  from T obtain c cs where c: "p @ T @ s = c # cs" by (cases "p @ T @ s") auto
  from replaceTag_hit [of T c cs] T(1) d c show ?thesis by simp
qed

lemma replaceTag_before_same:
  assumes "simpleTag T"
  shows "mid p \<Longrightarrow>
    replaceTag T (p @ T @ s) = trimEnd p @ 32 # replaceTag T (dropWhile isSpace s)"
proof (induction p)
  case Nil
  then show ?case using replaceTag_after_spaces [OF assms, of "[]" s] by (simp add: trimEnd_def)
next
  case (Cons c p)
  show ?case
  proof (cases "list_all isSpace (c # p)")
    case True
    from replaceTag_after_spaces [OF assms True] trimEnd_all_space [OF True]
    show ?thesis by simp
  next
    case False
    from plain_nohit [OF Cons.prems assms False, of "T @ s"]
    have "replaceTag T ((c # p) @ T @ s) = c # replaceTag T (p @ T @ s)"
      using replaceTag_miss [of T c "p @ T @ s"] by simp
    with Cons.IH [OF mid_tail [OF Cons.prems]] trimEnd_Cons [OF False] show ?thesis by simp
  qed
qed

lemma takeWhile_stop: "\<not> P c \<Longrightarrow> takeWhile P (xs @ c # b) = takeWhile P xs"
  by (induction xs) auto

lemma dropWhile_stop: "\<not> P c \<Longrightarrow> dropWhile P (xs @ c # b) = dropWhile P xs @ c # b"
  by (induction xs) auto

lemma jsWords_append_space: "isSpace c \<Longrightarrow> jsWords (a @ c # b) = jsWords a @ jsWords b"
proof (induction a rule: jsWords.induct)
  case 1
  then show ?case by simp
next
  case (2 x xs)
  show ?case
  proof (cases "isSpace x")
    case True
    with 2 show ?thesis by simp
  next
    case False
    from "2.prems" have t: "takeWhile (\<lambda>x. \<not> isSpace x) (xs @ c # b) = takeWhile (\<lambda>x. \<not> isSpace x) xs"
      by (intro takeWhile_stop) simp
    from "2.prems" have d: "dropWhile (\<lambda>x. \<not> isSpace x) (xs @ c # b) = dropWhile (\<lambda>x. \<not> isSpace x) xs @ c # b"
      by (intro dropWhile_stop) simp
    from "2.IH"(2) [OF False "2.prems"] False t d show ?thesis by simp
  qed
qed

lemma jsWords_dropWhile: "jsWords (dropWhile isSpace s) = jsWords s"
  by (induction s) auto

lemma jsWords_spaces: "list_all isSpace w \<Longrightarrow> jsWords w = []"
  by (induction w) auto

lemma jsWords_append_spaces: "list_all isSpace w \<Longrightarrow> jsWords (a @ w) = jsWords a"
  by (cases w) (auto simp: jsWords_append_space jsWords_spaces)

lemma trimEnd_split: "s = trimEnd s @ rev (takeWhile isSpace (rev s))"
proof -
  have "rev (rev s) = rev (takeWhile isSpace (rev s) @ dropWhile isSpace (rev s))"
    by (simp only: takeWhile_dropWhile_id)
  then show ?thesis by (simp only: trimEnd_def rev_append rev_rev_ident)
qed

lemma trimEnd_rest_spaces: "list_all isSpace (rev (takeWhile isSpace (rev s)))"
  by (auto simp: list_all_iff dest: set_takeWhileD)

lemma jsWords_trimEnd: "jsWords (trimEnd s) = jsWords s"
proof -
  have "jsWords (trimEnd s @ rev (takeWhile isSpace (rev s))) = jsWords (trimEnd s)"
    by (rule jsWords_append_spaces [OF trimEnd_rest_spaces])
  then show ?thesis by (simp only: trimEnd_split [symmetric])
qed

lemma jsWords_nonempty: "[] \<notin> set (jsWords s)"
  by (induction s rule: jsWords.induct) auto

lemma joinWords_Nil: "[] \<notin> set ws \<Longrightarrow> joinWords ws = [] \<longleftrightarrow> ws = []"
  by (cases ws) auto

lemma collapseSpaces_word:
  "list_all (\<lambda>x. \<not> isSpace x) w \<Longrightarrow> collapseSpaces (w @ r) = w @ collapseSpaces r"
  by (induction w) auto

lemma collapseSpaces_dropWhile:
  "dropWhile isSpace (collapseSpaces s) = collapseSpaces (dropWhile isSpace s)"
proof (cases s)
  case Nil
  then show ?thesis by simp
next
  case (Cons c cs)
  show ?thesis
  proof (cases "isSpace c")
    case False
    with Cons show ?thesis by simp
  next
    case True
    have "dropWhile isSpace (collapseSpaces (dropWhile isSpace cs)) = collapseSpaces (dropWhile isSpace cs)"
    proof (cases "dropWhile isSpace cs")
      case Nil
      then show ?thesis by (simp only: collapseSpaces.simps dropWhile.simps)
    next
      case (Cons d ds)
      from hd_dropWhile [of isSpace cs] Cons have "\<not> isSpace d" by simp
      then have "dropWhile isSpace (collapseSpaces (d # ds)) = collapseSpaces (d # ds)" by simp
      with Cons show ?thesis by (simp only:)
    qed
    with True Cons show ?thesis by (simp add: isSpace_def)
  qed
qed

lemma trimEnd_append:
  "trimEnd (a @ b) = (if list_all isSpace b then trimEnd a else a @ trimEnd b)"
proof (cases "list_all isSpace b")
  case True
  then have "dropWhile isSpace (rev b @ rev a) = dropWhile isSpace (rev a)"
    by (intro dropWhile_append2) (simp add: list_all_iff)
  with True show ?thesis by (simp add: trimEnd_def)
next
  case False
  then obtain x where "x \<in> set (rev b)" "\<not> isSpace x" by (auto simp: list_all_iff)
  then have "dropWhile isSpace (rev b @ rev a) = dropWhile isSpace (rev b) @ rev a"
    by (rule dropWhile_append1)
  with False show ?thesis by (simp add: trimEnd_def)
qed

lemma trimEnd_Nil: "trimEnd s = [] \<longleftrightarrow> list_all isSpace s"
  by (simp add: trimEnd_def list_all_iff)

lemma trimEnd_word: "w \<noteq> [] \<Longrightarrow> \<not> isSpace (last w) \<Longrightarrow> trimEnd w = w"
  by (cases w rule: rev_cases) (simp_all add: trimEnd_def)

lemma dropWhile_ConsD: "dropWhile P xs = d # ds \<Longrightarrow> \<not> P d"
  by (induction xs) (auto split: if_splits)

lemma isSpace_32 [simp]: "isSpace 32"
  by (simp add: isSpace_def)

lemma trimEnd_collapse_words:
  "s = [] \<or> \<not> isSpace (hd s) \<Longrightarrow> trimEnd (collapseSpaces s) = joinWords (jsWords s)"
proof (induction "length s" arbitrary: s rule: less_induct)
  case less
  show ?case
  proof (cases s)
    case Nil
    then show ?thesis by (simp add: trimEnd_def)
  next
    case (Cons c cs)
    with less.prems have c: "\<not> isSpace c" by simp
    define w where "w = c # takeWhile (\<lambda>x. \<not> isSpace x) cs"
    define r where "r = dropWhile (\<lambda>x. \<not> isSpace x) cs"
    define r' where "r' = dropWhile isSpace r"
    have s: "s = w @ r" by (simp add: Cons w_def r_def)
    have w: "list_all (\<lambda>x. \<not> isSpace x) w" using c by (auto simp: w_def list_all_iff dest: set_takeWhileD)
    have wne: "w \<noteq> []" by (simp add: w_def)
    from last_in_set [OF wne] w have wl: "\<not> isSpace (last w)" by (simp add: list_all_iff)
    have jw: "jsWords s = w # jsWords r'"
      using c by (simp add: Cons w_def r_def r'_def jsWords_dropWhile)
    have cr: "collapseSpaces r = (if r = [] then [] else 32 # collapseSpaces r')"
    proof (cases r)
      case Nil
      then show ?thesis by simp
    next
      case (Cons d ds)
      from dropWhile_ConsD [of "\<lambda>x. \<not> isSpace x" cs d ds] Cons have "isSpace d"
        by (simp add: r_def)
      with Cons show ?thesis by (simp add: r'_def)
    qed
    have "length r' \<le> length r" unfolding r'_def by (rule length_dropWhile_le)
    moreover have "length r \<le> length cs" unfolding r_def by (rule length_dropWhile_le)
    ultimately have l: "length r' < length s" using Cons by simp
    have "r' = [] \<or> \<not> isSpace (hd r')" using hd_dropWhile [of isSpace r] by (auto simp: r'_def)
    with l have ih: "trimEnd (collapseSpaces r') = joinWords (jsWords r')" by (rule less.hyps)
    have cs: "collapseSpaces s = w @ collapseSpaces r" by (simp only: s collapseSpaces_word [OF w])
    show ?thesis
    proof (cases "jsWords r' = []")
      case True
      with ih have "trimEnd (collapseSpaces r') = []" by simp
      then have "list_all isSpace (collapseSpaces r')" unfolding trimEnd_Nil .
      with cr have "list_all isSpace (collapseSpaces r)" by simp
      then have "trimEnd (w @ collapseSpaces r) = trimEnd w" by (simp add: trimEnd_append)
      with trimEnd_word [OF wne wl] cs jw True show ?thesis by simp
    next
      case False
      with joinWords_Nil [OF jsWords_nonempty, of r'] ih
      have "trimEnd (collapseSpaces r') \<noteq> []" by simp
      then have n: "\<not> list_all isSpace (collapseSpaces r')" unfolding trimEnd_Nil .
      then have "r' \<noteq> []" by auto
      then have "r \<noteq> []" by (auto simp: r'_def)
      with cr have e: "collapseSpaces r = [32] @ collapseSpaces r'" by simp
      from n have "trimEnd ([32] @ collapseSpaces r') = [32] @ trimEnd (collapseSpaces r')"
        by (simp only: trimEnd_append if_False)
      moreover from n have "\<not> list_all isSpace ([32] @ collapseSpaces r')" by simp
      then have "trimEnd (w @ [32] @ collapseSpaces r') = w @ trimEnd ([32] @ collapseSpaces r')"
        by (simp only: trimEnd_append if_False)
      ultimately have "trimEnd (collapseSpaces s) = w @ 32 # joinWords (jsWords r')"
        using cs e ih by simp
      with jw False show ?thesis by simp
    qed
  qed
qed

lemma normalize_words: "trim (collapseSpaces s) = joinWords (jsWords s)"
proof -
  have "dropWhile isSpace s = [] \<or> \<not> isSpace (hd (dropWhile isSpace s))"
    using hd_dropWhile [of isSpace s] by auto
  from trimEnd_collapse_words [OF this] show ?thesis
    by (simp add: trim_def trimStart_def collapseSpaces_dropWhile jsWords_dropWhile)
qed

lemma valid_Nil: "valid [] f \<longleftrightarrow> curlyTags f = []"
  by (simp add: valid_def)

lemma valid_Cons: "valid ((p, U) # r) f \<longleftrightarrow> mid p \<and> simpleTag U \<and> valid r f"
  by (auto simp: valid_def)

lemma closedBraces_spaces: "list_all isSpace w \<Longrightarrow> closedBraces (a @ w) \<Longrightarrow> closedBraces a"
proof (induction a)
  case Nil
  then show ?case by simp
next
  case (Cons c a)
  from Cons.prems(1) have "125 \<notin> set w" by (auto simp: list_all_iff)
  with Cons show ?case by auto
qed

lemma mid_trimEnd: "mid q \<Longrightarrow> mid (trimEnd q)"
proof -
  assume m: "mid q"
  let ?w = "rev (takeWhile isSpace (rev q))"
  from m have "curlyTags (trimEnd q @ ?w) = []" "closedBraces (trimEnd q @ ?w)"
    by (simp_all only: trimEnd_split [symmetric] mid_def)
  from curlyTags_prefix [OF this(1)] closedBraces_spaces [OF trimEnd_rest_spaces this(2)]
  show ?thesis by (simp only: mid_def)
qed

lemma mid_append: "mid a \<Longrightarrow> mid b \<Longrightarrow> mid (a @ b)"
  using curlyTags_mid [of a b] by (simp add: mid_def closedBraces_append)

lemma mid_space: "mid [32]"
  by (simp add: mid_def)

lemma prepend_structure:
  assumes "mid a" and "valid ys g"
  shows "\<exists>zs h. a @ build ys g = build zs h \<and> valid zs h \<and> map snd zs = map snd ys \<and>
    erased zs h = a @ erased ys g"
proof (cases ys)
  case Nil
  with assms have "valid [] (a @ g)" by (simp add: valid_Nil curlyTags_mid)
  with Nil show ?thesis by (intro exI [of _ "[]"] exI [of _ "a @ g"]) simp
next
  case (Cons qV ys')
  obtain q V where qV: "qV = (q, V)" by (cases qV)
  with assms Cons have "valid ((a @ q, V) # ys') g" by (simp add: valid_Cons mid_append)
  with Cons qV show ?thesis by (intro exI [of _ "(a @ q, V) # ys'"] exI [of _ g]) simp
qed

lemma replaceTag_piece:
  assumes T: "simpleTag T" and U: "simpleTag U" and q: "mid q"
    and ih1: "\<exists>ys g. replaceTag T (build r f) = build ys g \<and> valid ys g \<and>
      map snd ys = filter (\<lambda>V. V \<noteq> T) (map snd r) \<and>
      jsWords (erased ys g) = jsWords (erased r f)"
    and ih2: "\<exists>ys g. replaceTag T (dropWhile isSpace (build r f)) = build ys g \<and> valid ys g \<and>
      map snd ys = filter (\<lambda>V. V \<noteq> T) (map snd r) \<and>
      jsWords (erased ys g) = jsWords (erased r f)"
  shows "\<exists>ys g. replaceTag T (q @ U @ build r f) = build ys g \<and> valid ys g \<and>
      map snd ys = filter (\<lambda>V. V \<noteq> T) (U # map snd r) \<and>
      jsWords (erased ys g) = jsWords q @ jsWords (erased r f)"
proof (cases "U = T")
  case False
  from ih1 obtain ys g where y: "replaceTag T (build r f) = build ys g" "valid ys g"
    "map snd ys = filter (\<lambda>V. V \<noteq> T) (map snd r)"
    "jsWords (erased ys g) = jsWords (erased r f)" by blast
  from False have "T \<noteq> U" by blast
  from replaceTag_before_other [OF T U this q, of "build r f"] y(1)
  have "replaceTag T (q @ U @ build r f) = build ((q, U) # ys) g" by simp
  moreover from y(2) q U have "valid ((q, U) # ys) g" by (simp add: valid_Cons)
  moreover from y(3) False have "map snd ((q, U) # ys) = filter (\<lambda>V. V \<noteq> T) (U # map snd r)"
    by simp
  moreover from y(4) have "jsWords (erased ((q, U) # ys) g) = jsWords q @ jsWords (erased r f)"
    by (simp add: jsWords_append_space)
  ultimately show ?thesis by blast
next
  case True
  from ih2 obtain ys g where y: "replaceTag T (dropWhile isSpace (build r f)) = build ys g"
    "valid ys g" "map snd ys = filter (\<lambda>V. V \<noteq> T) (map snd r)"
    "jsWords (erased ys g) = jsWords (erased r f)" by blast
  from mid_append [OF mid_trimEnd [OF q] mid_space] have "mid (trimEnd q @ [32])" .
  from prepend_structure [OF this y(2)] obtain zs h where
    z: "(trimEnd q @ [32]) @ build ys g = build zs h" "valid zs h" "map snd zs = map snd ys"
    "erased zs h = (trimEnd q @ [32]) @ erased ys g" by blast
  from replaceTag_before_same [OF T q, of "build r f"] y(1) z(1) True
  have "replaceTag T (q @ U @ build r f) = build zs h" by simp
  moreover from z(3) y(3) True have "map snd zs = filter (\<lambda>V. V \<noteq> T) (U # map snd r)" by simp
  moreover from z(4) y(4) have "jsWords (erased zs h) = jsWords q @ jsWords (erased r f)"
    by (simp add: jsWords_append_space jsWords_trimEnd)
  ultimately show ?thesis using z(2) by blast
qed

lemma dropWhile_before_tag:
  assumes "simpleTag U"
  shows "dropWhile isSpace (p @ U @ s) = dropWhile isSpace p @ U @ s"
proof -
  from assms obtain x where "U = 123 # x @ [125]" unfolding simpleTag_def by blast
  then have "p @ U @ s = p @ 123 # (x @ [125] @ s)" by simp
  moreover have "dropWhile isSpace (p @ 123 # (x @ [125] @ s)) = dropWhile isSpace p @ 123 # (x @ [125] @ s)"
    by (rule dropWhile_stop) simp
  ultimately show ?thesis using \<open>U = 123 # x @ [125]\<close> by simp
qed

lemma replaceTag_structure:
  assumes T: "simpleTag T"
  shows "valid xs f \<Longrightarrow>
    (\<exists>ys g. replaceTag T (build xs f) = build ys g \<and> valid ys g \<and>
      map snd ys = filter (\<lambda>V. V \<noteq> T) (map snd xs) \<and>
      jsWords (erased ys g) = jsWords (erased xs f)) \<and>
    (\<exists>ys g. replaceTag T (dropWhile isSpace (build xs f)) = build ys g \<and> valid ys g \<and>
      map snd ys = filter (\<lambda>V. V \<noteq> T) (map snd xs) \<and>
      jsWords (erased ys g) = jsWords (erased xs f))"
proof (induction xs)
  case Nil
  then have e: "curlyTags f = []" by (simp add: valid_Nil)
  from curlyTags_drop [OF e] have d: "curlyTags (dropWhile isSpace f) = []"
    by (simp only: dropWhile_eq_drop)
  have "replaceTag T (build [] f) = build [] f \<and> valid [] f \<and>
      map snd ([] :: (jsstring \<times> jsstring) list) = filter (\<lambda>V. V \<noteq> T) (map snd []) \<and>
      jsWords (erased [] f) = jsWords (erased [] f)"
    using replaceTag_no_tags [OF T e] e by (simp add: valid_Nil)
  moreover have "replaceTag T (dropWhile isSpace (build [] f)) = build [] (dropWhile isSpace f) \<and>
      valid [] (dropWhile isSpace f) \<and>
      map snd ([] :: (jsstring \<times> jsstring) list) = filter (\<lambda>V. V \<noteq> T) (map snd []) \<and>
      jsWords (erased [] (dropWhile isSpace f)) = jsWords (erased [] f)"
    using replaceTag_no_tags [OF T d] d by (simp add: valid_Nil jsWords_dropWhile)
  ultimately show ?case by blast
next
  case (Cons pU r)
  obtain p U where pU: "pU = (p, U)" by (cases pU)
  with Cons.prems have v: "mid p" "simpleTag U" "valid r f" by (simp_all add: valid_Cons)
  from Cons.IH [OF v(3)] have
    ih1: "\<exists>ys g. replaceTag T (build r f) = build ys g \<and> valid ys g \<and>
      map snd ys = filter (\<lambda>V. V \<noteq> T) (map snd r) \<and>
      jsWords (erased ys g) = jsWords (erased r f)"
    and ih2: "\<exists>ys g. replaceTag T (dropWhile isSpace (build r f)) = build ys g \<and> valid ys g \<and>
      map snd ys = filter (\<lambda>V. V \<noteq> T) (map snd r) \<and>
      jsWords (erased ys g) = jsWords (erased r f)" by blast+
  have w: "jsWords (erased (pU # r) f) = jsWords p @ jsWords (erased r f)"
    by (simp add: pU jsWords_append_space)
  have b: "build (pU # r) f = p @ U @ build r f" by (simp add: pU)
  have t: "map snd (pU # r) = U # map snd r" by (simp add: pU)
  from replaceTag_piece [OF T v(2) v(1) ih1 ih2]
  have 1: "\<exists>ys g. replaceTag T (build (pU # r) f) = build ys g \<and> valid ys g \<and>
      map snd ys = filter (\<lambda>V. V \<noteq> T) (map snd (pU # r)) \<and>
      jsWords (erased ys g) = jsWords (erased (pU # r) f)"
    by (simp only: w b t)
  have "mid (dropWhile isSpace p)" unfolding dropWhile_eq_drop by (rule mid_drop [OF v(1)])
  from replaceTag_piece [OF T v(2) this ih1 ih2]
  have 2: "\<exists>ys g. replaceTag T (dropWhile isSpace (build (pU # r) f)) = build ys g \<and> valid ys g \<and>
      map snd ys = filter (\<lambda>V. V \<noteq> T) (map snd (pU # r)) \<and>
      jsWords (erased ys g) = jsWords (erased (pU # r) f)"
    by (simp only: w b t dropWhile_before_tag [OF v(2)] jsWords_dropWhile)
  from 1 2 show ?case by blast
qed

lemma fold_replaceTag_structure:
  "valid xs f \<Longrightarrow> list_all simpleTag Ts \<Longrightarrow>
   \<exists>ys g. fold replaceTag Ts (build xs f) = build ys g \<and> valid ys g \<and>
     map snd ys = filter (\<lambda>V. V \<notin> set Ts) (map snd xs) \<and>
     jsWords (erased ys g) = jsWords (erased xs f)"
proof (induction Ts arbitrary: xs f)
  case Nil
  then show ?case by (intro exI [of _ xs] exI [of _ f]) simp
next
  case (Cons T Ts)
  from Cons.prems(2) have T: "simpleTag T" and Ts: "list_all simpleTag Ts" by simp_all
  from replaceTag_structure [OF T Cons.prems(1)] obtain ys g where
    y: "replaceTag T (build xs f) = build ys g" "valid ys g"
    "map snd ys = filter (\<lambda>V. V \<noteq> T) (map snd xs)"
    "jsWords (erased ys g) = jsWords (erased xs f)" by blast
  from Cons.IH [OF y(2) Ts] obtain zs h where
    z: "fold replaceTag Ts (build ys g) = build zs h" "valid zs h"
    "map snd zs = filter (\<lambda>V. V \<notin> set Ts) (map snd ys)"
    "jsWords (erased zs h) = jsWords (erased ys g)" by blast
  from y(1) z(1) have "fold replaceTag (T # Ts) (build xs f) = build zs h" by simp
  moreover from y(3) z(3) have "map snd zs = filter (\<lambda>V. V \<notin> set (T # Ts)) (map snd xs)"
    by (auto intro: filter_cong)
  moreover from y(4) z(4) have "jsWords (erased zs h) = jsWords (erased xs f)" by simp
  ultimately show ?case using z(2) by blast
qed

lemma valid_tags: "valid xs f \<Longrightarrow> list_all simpleTag (map snd xs)"
  by (auto simp: valid_def list_all_iff)

lemma cleaned_title:
  assumes "valid xs f"
  shows "trim (collapseSpaces (fold replaceTag (map snd xs) (build xs f))) =
    trim (collapseSpaces (erased xs f))"
proof -
  from fold_replaceTag_structure [OF assms valid_tags [OF assms]] obtain ys g where
    y: "fold replaceTag (map snd xs) (build xs f) = build ys g"
    "map snd ys = filter (\<lambda>V. V \<notin> set (map snd xs)) (map snd xs)"
    "jsWords (erased ys g) = jsWords (erased xs f)" by blast
  have "filter (\<lambda>V. V \<notin> set (map snd xs)) (map snd xs) = []" by (simp add: filter_empty_conv)
  with y(2) have "ys = []" by simp
  with y(1,3) have "jsWords (fold replaceTag (map snd xs) (build xs f)) = jsWords (erased xs f)"
    by simp
  then show ?thesis by (simp only: normalize_words)
qed

lemma build_last: "xs \<noteq> [] \<Longrightarrow> \<exists>a. build xs f = a @ snd (last xs) @ f"
proof (induction xs)
  case Nil
  then show ?case by simp
next
  case (Cons pU r)
  obtain p U where pU: "pU = (p, U)" by (cases pU)
  show ?case
  proof (cases "r = []")
    case True
    with pU show ?thesis by simp
  next
    case False
    from Cons.IH [OF False] obtain a where "build r f = a @ snd (last r) @ f" by blast
    with pU False have "build (pU # r) f = (p @ U @ a) @ snd (last (pU # r)) @ f" by simp
    then show ?thesis by blast
  qed
qed

lemma tag_not_suffix:
  assumes T: "simpleTag T" and f: "curlyTags f = []" and n: "\<not> list_all isSpace f"
  shows "\<not> suffix T (a @ T @ trimEnd f)"
proof
  assume s: "suffix T (a @ T @ trimEnd f)"
  from T obtain x where x: "T = 123 # x @ [125]" "125 \<notin> set x" unfolding simpleTag_def by blast
  from n have ne: "trimEnd f \<noteq> []" by (simp add: trimEnd_Nil)
  have inner: False if "suffix T (trimEnd f)"
  proof -
    from that obtain b where "trimEnd f = b @ T" by (auto simp: suffix_def)
    with trimEnd_split [of f] have "f = b @ T @ rev (takeWhile isSpace (rev f))" by simp
    then have "curlyTags f = curlyTags (b @ T @ rev (takeWhile isSpace (rev f)))" by (rule arg_cong)
    with curlyTags_contains [OF T, of b "rev (takeWhile isSpace (rev f))"] f show False
      by (simp only:)
  qed
  from s have "suffix T ((a @ T) @ trimEnd f)" by simp
  then consider "suffix T (trimEnd f)" | u where "suffix u (a @ T)" "T = u @ trimEnd f"
    unfolding suffix_append by blast
  then show False
  proof cases
    case 1
    then show False by (rule inner)
  next
    case 2
    show False
    proof (cases "u = []")
      case True
      with 2(2) have "suffix T (trimEnd f)" by simp
      then show False by (rule inner)
    next
      case False
      from 2(1) obtain v where "a @ T = v @ u" by (auto simp: suffix_def)
      then have "last (a @ T) = last (v @ u)" by (rule arg_cong)
      with False x have l: "last u = 125" by simp
      from 2(2) ne have "butlast T = u @ butlast (trimEnd f)" by (simp add: butlast_append)
      with x have "123 # x = u @ butlast (trimEnd f)" by (simp add: butlast_append)
      then have "set u \<subseteq> set (123 # x)" by (metis set_append Un_upper1)
      with last_in_set [OF False] l x(2) show False by auto
    qed
  qed
qed

lemma wasAtEnd_iff:
  assumes v: "valid xs f" and ne: "xs \<noteq> []"
  shows "endsWith (trim (build xs f)) (last (map snd xs)) \<longleftrightarrow> list_all isSpace f"
proof -
  let ?T = "snd (last xs)"
  from ne have lm: "last (map snd xs) = ?T" by (rule last_map)
  from ne have "last xs \<in> set xs" by (rule last_in_set)
  with v have T: "simpleTag ?T" by (auto simp: valid_def)
  from v have f: "curlyTags f = []" by (simp add: valid_def)
  from build_last [OF ne] obtain a where a: "build xs f = a @ ?T @ f" by blast
  let ?a = "dropWhile isSpace a"
  from simpleTag_shape [OF T] have "?a @ ?T \<noteq> []" "\<not> isSpace (last (?a @ ?T))" by simp_all
  from trimEnd_word [OF this] have w: "trimEnd (?a @ ?T) = ?a @ ?T" .
  have t: "trim (build xs f) = trimEnd ((?a @ ?T) @ f)"
    by (simp add: trim_def trimStart_def a dropWhile_before_tag [OF T])
  have e: "endsWith s x \<longleftrightarrow> suffix x s" for s x :: jsstring
    by (simp add: endsWith_def suffix_to_prefix)
  show ?thesis
  proof (cases "list_all isSpace f")
    case True
    with t w trimEnd_append [of "?a @ ?T" f] have "trim (build xs f) = ?a @ ?T" by simp
    with True lm show ?thesis by (simp add: e suffix_def)
  next
    case False
    with t trimEnd_append [of "?a @ ?T" f] have "trim (build xs f) = ?a @ ?T @ trimEnd f" by simp
    with tag_not_suffix [OF T f False, of ?a] False lm show ?thesis by (simp add: e)
  qed
qed

lemma moveCurlyTags_structure:
  assumes "curlyTags t \<noteq> []" and "noNestedBrace t"
  shows "moveCurlyTags t =
    trim (collapseSpaces (eraseTags t)) @
    (if list_all isSpace (restAfterTags t) then str '' '' else []) @ concat (curlyTags t)"
proof -
  obtain xs f where s: "scanTags t = (xs, f)" by (cases "scanTags t")
  from scan_build_tags [OF s] have b: "build xs f = t" and m: "map snd xs = curlyTags t" by simp_all
  from scan_valid [OF s assms(2)] have v: "valid xs f" .
  from m assms(1) have ne: "xs \<noteq> []" by auto
  from cleaned_title [OF v] have c: "trim (collapseSpaces (fold replaceTag (curlyTags t) t)) =
      trim (collapseSpaces (eraseTags t))"
    by (simp add: b m eraseTags_def s)
  from wasAtEnd_iff [OF v ne] have w: "endsWith (trim t) (last (curlyTags t)) \<longleftrightarrow>
      list_all isSpace (restAfterTags t)"
    by (simp add: b m restAfterTags_def s)
  from assms(1) c w show ?thesis by (simp add: moveCurlyTags_def Let_def)
qed

lemma doubleSpace_fields:
  "href doubleSpacePage = str ''https://app.datadoghq.com/monitors/44444''"
  "querySelectorAll doubleSpacePage = (\<lambda>selector.
                 if selector = str ''h3'' then [doubleSpaceH3] else [])"
  "elemQuerySelectorAll doubleSpacePage = (\<lambda>element selector. [])"
  by (simp_all add: doubleSpacePage_def blankPage_def)

lemma doubleSpace_tags: "curlyTags (str ''CPU  high {env:prod}'') = [str ''{env:prod}'']"
  by (simp add: str_def)

lemma doubleSpace_move: "moveCurlyTags (str ''CPU  high {env:prod}'') = str ''CPU high {env:prod}''"
  by (simp add: moveCurlyTags_def doubleSpace_tags Let_def endsWith_def trim_def trimStart_def
      trimEnd_def isSpace_def str_def)

lemma doubleSpace_claimed: "cleanedAsClaimed (str ''CPU  high {env:prod}'') = str ''CPU  high''"
  by (simp add: cleanedAsClaimed_def trim_def trimStart_def trimEnd_def isSpace_def str_def)

lemma doubleSpace_rule:
  "ruleGetDocInfo datadogMonitor doubleSpacePage =
     Inr (linkTitle (str ''https://app.datadoghq.com/monitors/44444'') (str ''CPU high {env:prod}''))"
proof -
  have h1: "monitorH1Text doubleSpacePage = []"
    by (simp add: monitorH1Text_def findElement_def querySelector_def firstOption_def
        doubleSpace_fields str_def)
  have tr: "getDatadogTimeRange doubleSpacePage = []"
    by (simp add: getDatadogTimeRange_def querySelector_def firstOption_def doubleSpace_fields
        str_def)
  have sel: "selectAlert (monitorH1Text doubleSpacePage) (querySelectorAll doubleSpacePage (str ''h3'')) =
      Some (doubleSpaceH3, str ''Triggered'')"
    unfolding h1 by (simp add: doubleSpace_fields doubleSpaceH3_def Let_def str_def)
  have m: "stripMarker (str ''Triggered'') (textContent doubleSpaceH3) = str ''CPU  high {env:prod}''"
    by (simp add: stripMarker_def doubleSpaceH3_def isSpace_def str_def)
  have ne: "str ''Triggered'' \<noteq> []" by (simp add: str_def)
  have "ruleGetDocInfo datadogMonitor doubleSpacePage =
      Inr (linkTitle (href doubleSpacePage)
        (moveCurlyTags (stripMarker (str ''Triggered'') (textContent doubleSpaceH3)) @
         getDatadogTimeRange doubleSpacePage))"
    using sel ne by (simp add: datadogMonitor_def Let_def)
  then show ?thesis by (simp only: m doubleSpace_move tr doubleSpace_fields append_Nil2)
qed


lemma doubleSpace_select:
  "selectAlert (monitorH1Text doubleSpacePage) (querySelectorAll doubleSpacePage (str ''h3'')) =
     Some (doubleSpaceH3, str ''Triggered'')"
proof -
  have h1: "monitorH1Text doubleSpacePage = []"
    by (simp add: monitorH1Text_def findElement_def querySelector_def firstOption_def
        doubleSpace_fields str_def)
  show ?thesis unfolding h1 by (simp add: doubleSpace_fields doubleSpaceH3_def Let_def str_def)
qed

lemma doubleSpace_strip:
  "stripMarker (str ''Triggered'') (textContent doubleSpaceH3) = str ''CPU  high {env:prod}''"
  by (simp add: stripMarker_def doubleSpaceH3_def isSpace_def str_def)

lemma doubleSpace_timeRange: "getDatadogTimeRange doubleSpacePage = []"
  by (simp add: getDatadogTimeRange_def querySelector_def firstOption_def doubleSpace_fields
      str_def)

lemma doubleSpace_scan:
  "scanTags (str ''CPU  high {env:prod}'') = ([(str ''CPU  high '', str ''{env:prod}'')], [])"
  by (simp add: str_def)

lemma monitor_select:
  "selectAlert (monitorH1Text monitorPage) (querySelectorAll monitorPage (str ''h3'')) =
     Some (monitorH3a, str ''Triggered'')"
  unfolding monitor_h1 by (simp add: monitor_fields monitorH3a_def Let_def str_def)

lemma monitor_strip:
  "stripMarker (str ''Triggered'') (textContent monitorH3a) =
     str ''{environment:production} Disk Space Alert''"
  by (simp add: stripMarker_def monitorH3a_def isSpace_def str_def)

lemma monitor_scan:
  "scanTags (str ''{environment:production} Disk Space Alert'') =
     ([([], str ''{environment:production}'')], str '' Disk Space Alert'')"
  by (simp add: str_def)

text \<open>
  Claim C3, as amended. Let \<open>datadogMonitor\<close> select the \<open>h3\<close> element \<open>x\<close> with the
  alert type \<open>ty\<close>, and let \<open>t\<close>, its text after the marker is stripped, have at least
  one tag, none of them with a further opening brace. \<open>t\<close> is made of the pieces
  \<open>scanTags t\<close>, whose tags are \<open>curlyTags t\<close> in their order. The title is: \<open>t\<close> with
  each tag replaced by a space, every run of white space collapsed to one space and both
  ends trimmed; one space exactly when only white space follows the last tag in \<open>t\<close>;
  the tags, unchanged, in their order and with nothing between them; and the time range
  of the page.
\<close>

theorem datadogMonitor_moves_tags_to_end:
  assumes "selectAlert (monitorH1Text p) (querySelectorAll p (str ''h3'')) = Some (x, ty)"
    and "t = stripMarker ty (textContent x)"
    and "curlyTags t \<noteq> []"
    and "noNestedBrace t"
  shows "ruleGetDocInfo datadogMonitor p =
       Inr (linkTitle (href p)
         (trim (collapseSpaces (eraseTags t)) @
          (if list_all isSpace (restAfterTags t) then str '' '' else []) @
          concat (curlyTags t) @ getDatadogTimeRange p)) \<and>
     build (fst (scanTags t)) (snd (scanTags t)) = t \<and>
     map snd (fst (scanTags t)) = curlyTags t"
proof -
  from selectAlert_type [OF assms(1)] have "ty \<noteq> []" by (auto simp: str_def)
  with assms(1,2) have "ruleGetDocInfo datadogMonitor p =
      Inr (linkTitle (href p) (moveCurlyTags t @ getDatadogTimeRange p))"
    by (simp add: datadogMonitor_def Let_def)
  moreover have "build (fst (scanTags t)) (snd (scanTags t)) = t \<and>
      map snd (fst (scanTags t)) = curlyTags t"
    by (rule scan_build_tags) simp
  ultimately show ?thesis by (simp add: moveCurlyTags_structure [OF assms(3,4)])
qed

theorem datadogMonitor_moves_tags_to_end_witness:
  "selectAlert (monitorH1Text monitorPage) (querySelectorAll monitorPage (str ''h3'')) =
     Some (monitorH3a, str ''Triggered'') \<and>
   stripMarker (str ''Triggered'') (textContent monitorH3a) =
     str ''{environment:production} Disk Space Alert'' \<and>
   curlyTags (str ''{environment:production} Disk Space Alert'') =
     [str ''{environment:production}''] \<and>
   noNestedBrace (str ''{environment:production} Disk Space Alert'') \<and>
   eraseTags (str ''{environment:production} Disk Space Alert'') = str ''  Disk Space Alert'' \<and>
   restAfterTags (str ''{environment:production} Disk Space Alert'') = str '' Disk Space Alert'' \<and>
   ruleGetDocInfo datadogMonitor monitorPage =
     Inr (linkTitle (str ''https://app.datadoghq.com/monitors/33333'')
            (str ''Disk Space Alert{environment:production} (Jul 25, 2pm '' @ [8211] @ str '' 3pm)'')) \<and>
   selectAlert (monitorH1Text doubleSpacePage) (querySelectorAll doubleSpacePage (str ''h3'')) =
     Some (doubleSpaceH3, str ''Triggered'') \<and>
   stripMarker (str ''Triggered'') (textContent doubleSpaceH3) = str ''CPU  high {env:prod}'' \<and>
   curlyTags (str ''CPU  high {env:prod}'') = [str ''{env:prod}''] \<and>
   noNestedBrace (str ''CPU  high {env:prod}'') \<and>
   eraseTags (str ''CPU  high {env:prod}'') = str ''CPU  high  '' \<and>
   restAfterTags (str ''CPU  high {env:prod}'') = [] \<and>
   ruleGetDocInfo datadogMonitor doubleSpacePage =
     Inr (linkTitle (str ''https://app.datadoghq.com/monitors/44444'') (str ''CPU high {env:prod}''))"
proof -
  let ?t = "str ''{environment:production} Disk Space Alert''"
  let ?u = "str ''CPU  high {env:prod}''"
  have t1: "curlyTags ?t \<noteq> []" by (simp add: monitor_tags)
  have t2: "noNestedBrace ?t" by (simp add: noNestedBrace_def monitor_tags) (simp add: str_def)
  have t3: "eraseTags ?t = str ''  Disk Space Alert''"
    by (simp add: eraseTags_def monitor_scan) (simp add: str_def)
  have t4: "restAfterTags ?t = str '' Disk Space Alert''"
    by (simp add: restAfterTags_def monitor_scan)
  have t5: "trim (collapseSpaces (str ''  Disk Space Alert'')) = str ''Disk Space Alert''"
    by (simp add: trim_def trimStart_def trimEnd_def isSpace_def str_def)
  have t6: "\<not> list_all isSpace (str '' Disk Space Alert'')" by (simp add: isSpace_def str_def)
  have u1: "curlyTags ?u \<noteq> []" by (simp add: doubleSpace_tags)
  have u2: "noNestedBrace ?u" by (simp add: noNestedBrace_def doubleSpace_tags) (simp add: str_def)
  have u3: "eraseTags ?u = str ''CPU  high  ''"
    by (simp add: eraseTags_def doubleSpace_scan) (simp add: str_def)
  have u4: "restAfterTags ?u = []" by (simp add: restAfterTags_def doubleSpace_scan)
  have u5: "trim (collapseSpaces (str ''CPU  high  '')) = str ''CPU high''"
    by (simp add: trim_def trimStart_def trimEnd_def isSpace_def str_def)
  from datadogMonitor_moves_tags_to_end [OF monitor_select monitor_strip [symmetric] t1 t2]
  have "ruleGetDocInfo datadogMonitor monitorPage =
      Inr (linkTitle (href monitorPage)
        (trim (collapseSpaces (eraseTags ?t)) @
         (if list_all isSpace (restAfterTags ?t) then str '' '' else []) @
         concat (curlyTags ?t) @ getDatadogTimeRange monitorPage))" by blast
  then have a: "ruleGetDocInfo datadogMonitor monitorPage =
      Inr (linkTitle (str ''https://app.datadoghq.com/monitors/33333'')
        (str ''Disk Space Alert'' @ [] @ concat [str ''{environment:production}''] @
         (str '' (Jul 25, 2pm '' @ [8211] @ str '' 3pm)'')))"
    using t6 by (simp only: t3 t4 t5 monitor_tags monitor_timeRange monitor_fields if_False)
  from datadogMonitor_moves_tags_to_end [OF doubleSpace_select doubleSpace_strip [symmetric] u1 u2]
  have "ruleGetDocInfo datadogMonitor doubleSpacePage =
      Inr (linkTitle (href doubleSpacePage)
        (trim (collapseSpaces (eraseTags ?u)) @
         (if list_all isSpace (restAfterTags ?u) then str '' '' else []) @
         concat (curlyTags ?u) @ getDatadogTimeRange doubleSpacePage))" by blast
  then have b: "ruleGetDocInfo datadogMonitor doubleSpacePage =
      Inr (linkTitle (str ''https://app.datadoghq.com/monitors/44444'')
        (str ''CPU high'' @ str '' '' @ concat [str ''{env:prod}''] @ []))"
    by (simp only: u3 u4 u5 doubleSpace_tags doubleSpace_timeRange doubleSpace_fields
        list.pred_inject if_True)
  have a': "str ''Disk Space Alert'' @ [] @ concat [str ''{environment:production}''] @
         (str '' (Jul 25, 2pm '' @ [8211] @ str '' 3pm)'') =
      str ''Disk Space Alert{environment:production} (Jul 25, 2pm '' @ [8211] @ str '' 3pm)''"
    by (simp add: str_def)
  have b': "str ''CPU high'' @ str '' '' @ concat [str ''{env:prod}''] @ [] = str ''CPU high {env:prod}''"
    by (simp add: str_def)
  from a b show ?thesis
    unfolding a' b'
    using monitor_select monitor_strip monitor_tags t2 t3 t4
      doubleSpace_select doubleSpace_strip doubleSpace_tags u2 u3 u4
    by blast
qed

text \<open>
  Claim C3 as stated fails: white space that is not next to a tag is collapsed too. The
  text \<open>CPU  high {env:prod}\<close>, with two spaces between its words, gets the title
  \<open>CPU high {env:prod}\<close>; taking out the tag with the white space around it and trimming
  leaves the two spaces.
\<close>

theorem datadogMonitor_collapses_all_spaces_counterexample:
  "selectAlert (monitorH1Text doubleSpacePage) (querySelectorAll doubleSpacePage (str ''h3'')) =
     Some (doubleSpaceH3, str ''Triggered'') \<and>
   stripMarker (str ''Triggered'') (textContent doubleSpaceH3) = str ''CPU  high {env:prod}'' \<and>
   curlyTags (str ''CPU  high {env:prod}'') = [str ''{env:prod}''] \<and>
   cleanedAsClaimed (str ''CPU  high {env:prod}'') = str ''CPU  high'' \<and>
   ruleGetDocInfo datadogMonitor doubleSpacePage =
     Inr (linkTitle (str ''https://app.datadoghq.com/monitors/44444'') (str ''CPU high {env:prod}'')) \<and>
   ruleGetDocInfo datadogMonitor doubleSpacePage \<noteq>
     Inr (linkTitle (str ''https://app.datadoghq.com/monitors/44444'')
            (cleanedAsClaimed (str ''CPU  high {env:prod}'') @ str '' '' @
             concat (curlyTags (str ''CPU  high {env:prod}''))))"
proof -
  have "str ''CPU high {env:prod}'' \<noteq> str ''CPU  high'' @ str '' '' @ concat [str ''{env:prod}'']"
    by (simp add: str_def)
  then have "ruleGetDocInfo datadogMonitor doubleSpacePage \<noteq>
     Inr (linkTitle (str ''https://app.datadoghq.com/monitors/44444'')
            (cleanedAsClaimed (str ''CPU  high {env:prod}'') @ str '' '' @
             concat (curlyTags (str ''CPU  high {env:prod}''))))"
    by (simp only: doubleSpace_rule doubleSpace_claimed doubleSpace_tags)
       (simp add: linkTitle_def)
  with doubleSpace_select doubleSpace_strip doubleSpace_tags doubleSpace_claimed doubleSpace_rule
  show ?thesis by blast
qed

text \<open>
  With an opening brace inside a tag the tags need not all leave the text: the first
  replacement takes \<open>{a:b}\<close> out of \<open>{{a:b}\<close> as well, and a brace stays behind.
\<close>

lemma moveCurlyTags_nested_brace:
  "curlyTags (str ''{a:b}{{a:b}'') = [str ''{a:b}'', str ''{{a:b}''] \<and>
   moveCurlyTags (str ''{a:b}{{a:b}'') = str ''{ {a:b}{{a:b}''"
proof -
  have c: "curlyTags (str ''{a:b}{{a:b}'') = [str ''{a:b}'', str ''{{a:b}'']"
    by (simp add: str_def)
  show ?thesis
    by (simp add: moveCurlyTags_def c Let_def endsWith_def trim_def trimStart_def trimEnd_def)
       (simp add: isSpace_def str_def)
qed

end
